(* ===== verification/Prelude.thy ===== *)
theory Prelude
  imports Main "HOL-Library.Multiset"
begin

text \<open>
  Shared vocabulary of the development: the names of the model's types, the
  rule collections the component theories fill, and the facts about
  association lists keyed by a row id that every table operation relies on.
  A table of the service is a list of rows \<open>(id, columns)\<close>; the primary key
  makes the ids distinct, and then the list behaves as the finite map
  \<^term>\<open>map_of\<close>.
\<close>

type_synonym row_id = int
type_synonym 'f row = "row_id \<times> 'f"

named_theorems table_simps "characteristic equations of the table operations"
named_theorems handler_simps "equations of the endpoint handlers on one table"
named_theorems route_simps "evaluation rules of the router"

section \<open>Rows keyed by id\<close>

definition row_ids :: "'f row list \<Rightarrow> row_id list" where
  "row_ids rs = map fst rs"

definition find_row :: "row_id \<Rightarrow> 'f row list \<Rightarrow> 'f row option" where
  "find_row i rs = find (\<lambda>r. fst r = i) rs"

definition replace_row :: "row_id \<Rightarrow> 'f \<Rightarrow> 'f row list \<Rightarrow> 'f row list" where
  "replace_row i f rs = map (\<lambda>r. if fst r = i then (i, f) else r) rs"

definition drop_row :: "row_id \<Rightarrow> 'f row list \<Rightarrow> 'f row list" where
  "drop_row i rs = filter (\<lambda>r. fst r \<noteq> i) rs"

lemma find_row_Nil [simp]: "find_row i [] = None"
  by (simp add: find_row_def)

lemma find_row_Cons [simp]:
  "find_row i (r # rs) = (if fst r = i then Some r else find_row i rs)"
  by (simp add: find_row_def)

lemma find_row_append [simp]:
  "find_row i (rs @ qs) = (case find_row i rs of None \<Rightarrow> find_row i qs | Some r \<Rightarrow> Some r)"
  by (induction rs) auto

lemma find_row_map_of:
  "distinct (row_ids rs) \<Longrightarrow> find_row i rs = map_option (Pair i) (map_of rs i)"
  by (induction rs) (auto simp: row_ids_def)

lemma find_row_None_iff [simp]:
  "find_row i rs = None \<longleftrightarrow> i \<notin> set (row_ids rs)"
  by (induction rs) (auto simp: row_ids_def)

lemma find_row_absent:
  "i \<notin> set (row_ids rs) \<Longrightarrow> find_row i rs = None"
  by simp

lemma find_row_SomeD:
  "find_row i rs = Some r \<Longrightarrow> fst r = i \<and> r \<in> set rs"
  by (induction rs) (auto split: if_splits)

lemma find_row_distinct:
  "distinct (row_ids rs) \<Longrightarrow> (i, f) \<in> set rs \<Longrightarrow> find_row i rs = Some (i, f)"
  by (induction rs) (auto simp: row_ids_def image_iff)

lemma row_ids_append [simp]: "row_ids (rs @ qs) = row_ids rs @ row_ids qs"
  by (simp add: row_ids_def)

lemma row_ids_Cons [simp]: "row_ids (r # rs) = fst r # row_ids rs"
  by (simp add: row_ids_def)

lemma row_ids_Nil [simp]: "row_ids [] = []"
  by (simp add: row_ids_def)

lemma row_ids_replace_row [simp]: "row_ids (replace_row i f rs) = row_ids rs"
  by (induction rs) (auto simp: replace_row_def)

lemma set_row_ids_drop_row [simp]:
  "set (row_ids (drop_row i rs)) = set (row_ids rs) - {i}"
  by (induction rs) (auto simp: drop_row_def)

lemma distinct_drop_row:
  "distinct (row_ids rs) \<Longrightarrow> distinct (row_ids (drop_row i rs))"
  by (simp add: drop_row_def row_ids_def distinct_map_filter)

lemma map_of_replace_row:
  "map_of (replace_row i f rs) =
     (if i \<in> set (row_ids rs) then (map_of rs)(i \<mapsto> f) else map_of rs)"
  by (induction rs) (auto simp: replace_row_def fun_eq_iff)

lemma map_of_drop_row:
  "map_of (drop_row i rs) = (map_of rs)(i := None)"
  by (induction rs) (auto simp: drop_row_def fun_eq_iff)

lemma map_of_snoc_fresh:
  "k \<notin> set (row_ids rs) \<Longrightarrow> map_of (rs @ [(k, v)]) = (map_of rs)(k \<mapsto> v)"
  by (induction rs) (auto simp: fun_eq_iff)

lemma dom_map_of_row_ids: "dom (map_of rs) = set (row_ids rs)"
  by (simp add: row_ids_def dom_map_of_conv_image_fst)

lemma mset_drop_row:
  "mset (drop_row i rs) = filter_mset (\<lambda>r. fst r \<noteq> i) (mset rs)"
  by (simp add: drop_row_def)

section \<open>Text the PostgreSQL driver accepts\<close>

text \<open>
  Strings are UTF-8 byte sequences (\<^typ>\<open>char\<close> is a byte), so the code point
  U+0000 is exactly the byte 0. psycopg2 refuses to send a string literal that
  contains it.
\<close>

definition pg_text_ok :: "string \<Rightarrow> bool" where
  "pg_text_ok s \<longleftrightarrow> CHR 0x00 \<notin> set s"

lemma pg_text_ok_simps [simp]:
  "pg_text_ok []"
  "pg_text_ok (c # s) \<longleftrightarrow> c \<noteq> CHR 0x00 \<and> pg_text_ok s"
  by (auto simp: pg_text_ok_def)

end
