(* ===== verification/Table.thy ===== *)
theory Table
  imports Prelude
begin

text \<open>
  One table of the service as PostgreSQL keeps it and as the SQLAlchemy
  session of a handler touches it. The \<open>id\<close> column of every model
  (\<open>src/models.py\<close>, \<open>Column(Integer, primary_key=True)\<close>) is a
  \<open>SERIAL\<close>: an \<open>integer\<close> (32-bit) primary key whose default is
  \<open>nextval\<close> of the table's own sequence. The state is therefore the rows
  together with the next value of the sequence. Sequences are not
  transactional: a value handed out by \<open>nextval\<close> stays consumed when the
  insert that used it fails.
\<close>

datatype db_error =
    SequenceExhausted   \<comment> \<open>\<open>nextval\<close>: reached maximum value of sequence\<close>
  | UniqueViolation     \<comment> \<open>duplicate key value violates the primary key\<close>
  | NulInText           \<comment> \<open>psycopg2: a string literal cannot contain NUL\<close>
  | UndefinedTable      \<comment> \<open>relation does not exist\<close>

record 'f table =
  tbl_rows :: "'f row list"
  tbl_next :: int

text \<open>The largest value of an \<open>integer\<close> serial sequence, \<open>2^31 - 1\<close>.\<close>

definition serial_max :: int where
  "serial_max = 2147483647"

definition empty_table :: "'f table" where
  "empty_table = \<lparr>tbl_rows = [], tbl_next = 1\<rparr>"

text \<open>\<open>db.query(M).filter(M.id == i).first()\<close>: the first row with that id.\<close>

definition tbl_first :: "row_id \<Rightarrow> 'f table \<Rightarrow> 'f row option" where
  "tbl_first i t = find_row i (tbl_rows t)"

text \<open>\<open>db.query(M).all()\<close>.\<close>

definition tbl_all :: "'f table \<Rightarrow> 'f row list" where
  "tbl_all t = tbl_rows t"

definition tbl_nextval :: "'f table \<Rightarrow> (db_error + row_id) \<times> 'f table" where
  "tbl_nextval t =
     (if serial_max < tbl_next t then (Inl SequenceExhausted, t)
      else (Inr (tbl_next t), t\<lparr>tbl_next := tbl_next t + 1\<rparr>))"

text \<open>
  The \<open>INSERT ... RETURNING id\<close> that \<open>db.add\<close> and \<open>db.commit\<close> emit:
  psycopg2 first adapts the parameters (\<open>adapt\<close>), then the server draws the
  id from the sequence and checks the primary key.
\<close>

definition tbl_insert ::
  "('f \<Rightarrow> bool) \<Rightarrow> 'f \<Rightarrow> 'f table \<Rightarrow> (db_error + 'f row) \<times> 'f table" where
  "tbl_insert adapt f t =
     (if \<not> adapt f then (Inl NulInText, t)
      else case tbl_nextval t of
        (Inl e, t') \<Rightarrow> (Inl e, t')
      | (Inr i, t') \<Rightarrow>
          if i \<in> set (row_ids (tbl_rows t')) then (Inl UniqueViolation, t')
          else (Inr (i, f), t'\<lparr>tbl_rows := tbl_rows t' @ [(i, f)]\<rparr>))"

text \<open>\<open>UPDATE ... WHERE id = i\<close>: the new table and the number of rows matched.\<close>

definition tbl_update ::
  "('f \<Rightarrow> bool) \<Rightarrow> row_id \<Rightarrow> 'f \<Rightarrow> 'f table \<Rightarrow> (db_error + nat) \<times> 'f table" where
  "tbl_update adapt i f t =
     (if \<not> adapt f then (Inl NulInText, t)
      else (Inr (length (filter (\<lambda>r. fst r = i) (tbl_rows t))),
            t\<lparr>tbl_rows := replace_row i f (tbl_rows t)\<rparr>))"

text \<open>\<open>DELETE ... WHERE id = i\<close>.\<close>

definition tbl_delete :: "row_id \<Rightarrow> 'f table \<Rightarrow> 'f table" where
  "tbl_delete i t = t\<lparr>tbl_rows := drop_row i (tbl_rows t)\<rparr>"

section \<open>Invariants\<close>

text \<open>
  What PostgreSQL itself guarantees of every table: the primary key makes
  the ids distinct, and the sequence stays within \<open>1 .. serial_max + 1\<close>
  (the value after the last one it handed out).
\<close>

definition tbl_wf :: "'f table \<Rightarrow> bool" where
  "tbl_wf t \<longleftrightarrow> distinct (row_ids (tbl_rows t)) \<and> 1 \<le> tbl_next t \<and> tbl_next t \<le> serial_max + 1"

text \<open>
  What holds when every row was inserted through the sequence: each id lies
  below the next value, so \<open>nextval\<close> never returns an id in use.
\<close>

definition tbl_fresh :: "'f table \<Rightarrow> bool" where
  "tbl_fresh t \<longleftrightarrow> (\<forall>i \<in> set (row_ids (tbl_rows t)). 0 < i \<and> i < tbl_next t)"

text \<open>The abstraction of a table: the finite map from id to columns.\<close>

definition tbl_abs :: "'f table \<Rightarrow> row_id \<rightharpoonup> 'f" where
  "tbl_abs t = map_of (tbl_rows t)"

lemma empty_table_wf: "tbl_wf empty_table"
  by (simp add: tbl_wf_def empty_table_def serial_max_def)

lemma empty_table_fresh: "tbl_fresh empty_table"
  by (simp add: tbl_fresh_def empty_table_def)

section \<open>Characteristic equations\<close>

lemma tbl_first_wf [table_simps]:
  "tbl_wf t \<Longrightarrow> tbl_first i t = map_option (Pair i) (tbl_abs t i)"
  by (simp add: tbl_first_def tbl_abs_def tbl_wf_def find_row_map_of)

lemma tbl_first_None_iff [table_simps]:
  "tbl_first i t = None \<longleftrightarrow> i \<notin> set (row_ids (tbl_rows t))"
  by (simp add: tbl_first_def)

lemma tbl_first_SomeD:
  "tbl_first i t = Some r \<Longrightarrow> fst r = i \<and> r \<in> set (tbl_rows t)"
  by (simp add: tbl_first_def find_row_SomeD)

lemma tbl_insert_cases:
  obtains (nul) "\<not> adapt f" "tbl_insert adapt f t = (Inl NulInText, t)"
  | (exhausted) "adapt f" "serial_max < tbl_next t"
      "tbl_insert adapt f t = (Inl SequenceExhausted, t)"
  | (collision) "adapt f" "tbl_next t \<le> serial_max" "tbl_next t \<in> set (row_ids (tbl_rows t))"
      "tbl_insert adapt f t = (Inl UniqueViolation, t\<lparr>tbl_next := tbl_next t + 1\<rparr>)"
  | (ok) "adapt f" "tbl_next t \<le> serial_max" "tbl_next t \<notin> set (row_ids (tbl_rows t))"
      "tbl_insert adapt f t = (Inr (tbl_next t, f),
         \<lparr>tbl_rows = tbl_rows t @ [(tbl_next t, f)], tbl_next = tbl_next t + 1\<rparr>)"
  by (cases "adapt f"; cases "serial_max < tbl_next t";
      cases "tbl_next t \<in> set (row_ids (tbl_rows t))")
     (simp_all add: tbl_insert_def tbl_nextval_def)

lemma tbl_insert_Inr:
  assumes "tbl_insert adapt f t = (Inr r, t')"
  shows "r = (tbl_next t, f) \<and> tbl_next t \<le> serial_max
    \<and> tbl_next t \<notin> set (row_ids (tbl_rows t))
    \<and> t' = \<lparr>tbl_rows = tbl_rows t @ [(tbl_next t, f)], tbl_next = tbl_next t + 1\<rparr>"
  using assms by (cases rule: tbl_insert_cases [of adapt f t]) auto

lemma tbl_insert_Inl_rows:
  "tbl_insert adapt f t = (Inl e, t') \<Longrightarrow> tbl_rows t' = tbl_rows t"
  by (cases rule: tbl_insert_cases [of adapt f t]) auto

lemma tbl_update_adapt [table_simps]:
  "adapt f \<Longrightarrow> tbl_update adapt i f t =
     (Inr (length (filter (\<lambda>r. fst r = i) (tbl_rows t))),
      t\<lparr>tbl_rows := replace_row i f (tbl_rows t)\<rparr>)"
  by (simp add: tbl_update_def)

lemma tbl_update_nul [table_simps]:
  "\<not> adapt f \<Longrightarrow> tbl_update adapt i f t = (Inl NulInText, t)"
  by (simp add: tbl_update_def)

lemma count_row_distinct:
  "distinct (row_ids rs) \<Longrightarrow> i \<in> set (row_ids rs) \<Longrightarrow> length (filter (\<lambda>r. fst r = i) rs) = 1"
  by (induction rs) (auto simp: filter_empty_conv row_ids_def image_iff)

section \<open>Invariant preservation\<close>

lemma tbl_insert_wf:
  "tbl_wf t \<Longrightarrow> tbl_insert adapt f t = (r, t') \<Longrightarrow> tbl_wf t'"
  by (cases rule: tbl_insert_cases [of adapt f t]) (auto simp: tbl_wf_def)

lemma tbl_insert_fresh:
  "tbl_fresh t \<Longrightarrow> tbl_wf t \<Longrightarrow> tbl_insert adapt f t = (r, t') \<Longrightarrow> tbl_fresh t'"
  by (cases rule: tbl_insert_cases [of adapt f t]) (force simp: tbl_fresh_def tbl_wf_def)+

lemma tbl_update_wf:
  "tbl_wf t \<Longrightarrow> tbl_update adapt i f t = (r, t') \<Longrightarrow> tbl_wf t'"
  by (auto simp: tbl_update_def tbl_wf_def split: if_splits)

lemma tbl_update_fresh:
  "tbl_fresh t \<Longrightarrow> tbl_update adapt i f t = (r, t') \<Longrightarrow> tbl_fresh t'"
  by (auto simp: tbl_update_def tbl_fresh_def split: if_splits)

lemma tbl_delete_wf: "tbl_wf t \<Longrightarrow> tbl_wf (tbl_delete i t)"
  by (simp add: tbl_delete_def tbl_wf_def distinct_drop_row)

lemma tbl_delete_fresh: "tbl_fresh t \<Longrightarrow> tbl_fresh (tbl_delete i t)"
  by (simp add: tbl_delete_def tbl_fresh_def)

lemma fresh_next_unused:
  "tbl_fresh t \<Longrightarrow> tbl_next t \<notin> set (row_ids (tbl_rows t))"
  by (auto simp: tbl_fresh_def)

section \<open>The abstraction\<close>

lemma tbl_abs_insert:
  "tbl_insert adapt f t = (Inr (i, g), t') \<Longrightarrow>
     i \<notin> dom (tbl_abs t) \<and> tbl_abs t' = (tbl_abs t)(i \<mapsto> f) \<and> g = f"
  by (drule tbl_insert_Inr) (auto simp del: map_of_append simp: tbl_abs_def dom_map_of_row_ids map_of_snoc_fresh)

lemma tbl_abs_insert_Inl:
  "tbl_insert adapt f t = (Inl e, t') \<Longrightarrow> tbl_abs t' = tbl_abs t"
  by (simp add: tbl_abs_def tbl_insert_Inl_rows)

lemma tbl_abs_update:
  "tbl_update adapt i f t = (Inr n, t') \<Longrightarrow> tbl_abs t' =
     (if i \<in> dom (tbl_abs t) then (tbl_abs t)(i \<mapsto> f) else tbl_abs t)"
  by (auto simp: tbl_update_def tbl_abs_def map_of_replace_row dom_map_of_row_ids split: if_splits)

lemma tbl_abs_delete: "tbl_abs (tbl_delete i t) = (tbl_abs t)(i := None)"
  by (simp add: tbl_delete_def tbl_abs_def map_of_drop_row)

lemma tbl_abs_all:
  "tbl_wf t \<Longrightarrow> set (tbl_all t) = {(i, f). tbl_abs t i = Some f}"
  by (auto simp: tbl_all_def tbl_abs_def tbl_wf_def row_ids_def)

section \<open>Growth of the sequence\<close>

text \<open>
  Between two states of a table the sequence only moves forward, and every
  id that appears was drawn at or after the earlier value of the sequence.
\<close>

definition tbl_grows :: "'f table \<Rightarrow> 'f table \<Rightarrow> bool" where
  "tbl_grows t t' \<longleftrightarrow> tbl_next t \<le> tbl_next t'
     \<and> (\<forall>i \<in> set (row_ids (tbl_rows t')). i \<in> set (row_ids (tbl_rows t)) \<or> tbl_next t \<le> i)"

lemma tbl_grows_refl [simp]: "tbl_grows t t"
  by (simp add: tbl_grows_def)

lemma tbl_grows_trans: "tbl_grows t u \<Longrightarrow> tbl_grows u v \<Longrightarrow> tbl_grows t v"
  unfolding tbl_grows_def by (meson order_trans)

lemma tbl_insert_grows: "tbl_insert adapt f t = (r, t') \<Longrightarrow> tbl_grows t t'"
  by (cases rule: tbl_insert_cases [of adapt f t]) (auto simp: tbl_grows_def)

lemma tbl_update_grows: "tbl_update adapt i f t = (r, t') \<Longrightarrow> tbl_grows t t'"
  by (auto simp: tbl_update_def tbl_grows_def split: if_splits)

lemma tbl_delete_grows: "tbl_grows t (tbl_delete i t)"
  by (simp add: tbl_delete_def tbl_grows_def)

section \<open>A property of every row\<close>

definition tbl_rows_all :: "('f \<Rightarrow> bool) \<Rightarrow> 'f table \<Rightarrow> bool" where
  "tbl_rows_all P t \<longleftrightarrow> (\<forall>r \<in> set (tbl_rows t). P (snd r))"

lemma tbl_insert_rows_all:
  "tbl_rows_all P t \<Longrightarrow> P f \<Longrightarrow> tbl_insert adapt f t = (r, t') \<Longrightarrow> tbl_rows_all P t'"
  by (cases rule: tbl_insert_cases [of adapt f t]) (auto simp: tbl_rows_all_def)

lemma tbl_update_rows_all:
  "tbl_rows_all P t \<Longrightarrow> P f \<Longrightarrow> tbl_update adapt i f t = (r, t') \<Longrightarrow> tbl_rows_all P t'"
  by (auto simp: tbl_update_def tbl_rows_all_def replace_row_def split: if_splits)

lemma tbl_delete_rows_all: "tbl_rows_all P t \<Longrightarrow> tbl_rows_all P (tbl_delete i t)"
  by (simp add: tbl_rows_all_def tbl_delete_def drop_row_def)

end
