(* ===== verification/Crud.thy ===== *)
theory Crud
  imports Table
begin

text \<open>
  The shape every resource's five handlers in \<open>src/main.py\<close> share, stated
  once over the columns type \<open>'f\<close>: what one SQLAlchemy session does
  between \<open>get_db\<close> handing it out and closing it. The handlers of one
  resource (theory \<open>Handlers\<close>) are these functions at the resource's
  columns, psycopg2 adaptation check and not-found message.
  \<^item> create: \<open>db.add\<close>, \<open>db.commit\<close> (the \<open>INSERT\<close>), \<open>db.refresh\<close>
    (a \<open>SELECT\<close> of the new row);
  \<^item> list: \<open>db.query(M).all()\<close>;
  \<^item> get: \<open>query(...).first()\<close>, \<open>HTTPException(404)\<close> when absent;
  \<^item> update: the same lookup, then the attribute assignments; at commit the
    unit of work emits an \<open>UPDATE\<close> only when a value changed and raises
    \<open>StaleDataError\<close> when it does not match exactly one row; then
    \<open>db.refresh\<close>;
  \<^item> delete: the lookup, \<open>db.delete\<close>, \<open>db.commit\<close>; the object keeps the
    values it was loaded with and is returned.
  A failed commit rolls the transaction back: the rows are as before (the
  sequence, being non-transactional, is not).
\<close>

datatype api_error =
    HTTPNotFound string     \<comment> \<open>\<open>HTTPException(status_code=404, detail=...)\<close>\<close>
  | DBFailure db_error      \<comment> \<open>an exception of the driver or the server\<close>
  | StaleData               \<comment> \<open>\<open>StaleDataError\<close> at flush\<close>
  | RefreshFailed           \<comment> \<open>\<open>InvalidRequestError\<close>: the row to refresh is gone\<close>

definition crud_refresh :: "row_id \<Rightarrow> 'f table \<Rightarrow> api_error + 'f row" where
  "crud_refresh i t = (case tbl_first i t of None \<Rightarrow> Inl RefreshFailed | Some r \<Rightarrow> Inr r)"

definition crud_create ::
  "('f \<Rightarrow> bool) \<Rightarrow> 'f \<Rightarrow> 'f table \<Rightarrow> (api_error + 'f row) \<times> 'f table" where
  "crud_create adapt f t =
     (case tbl_insert adapt f t of
        (Inl e, t') \<Rightarrow> (Inl (DBFailure e), t')
      | (Inr r, t') \<Rightarrow> (crud_refresh (fst r) t', t'))"

definition crud_list :: "'f table \<Rightarrow> 'f row list" where
  "crud_list t = tbl_all t"

definition crud_get :: "string \<Rightarrow> row_id \<Rightarrow> 'f table \<Rightarrow> api_error + 'f row" where
  "crud_get detail i t =
     (case tbl_first i t of None \<Rightarrow> Inl (HTTPNotFound detail) | Some r \<Rightarrow> Inr r)"

definition crud_update ::
  "('f \<Rightarrow> bool) \<Rightarrow> string \<Rightarrow> row_id \<Rightarrow> 'f \<Rightarrow> 'f table \<Rightarrow> (api_error + 'f row) \<times> 'f table" where
  "crud_update adapt detail i f t =
     (case tbl_first i t of
        None \<Rightarrow> (Inl (HTTPNotFound detail), t)
      | Some (j, old) \<Rightarrow>
          if old = f then (crud_refresh j t, t)
          else (case tbl_update adapt j f t of
                  (Inl e, _) \<Rightarrow> (Inl (DBFailure e), t)
                | (Inr n, t') \<Rightarrow>
                    if n \<noteq> 1 then (Inl StaleData, t) else (crud_refresh j t', t')))"

definition crud_delete ::
  "string \<Rightarrow> row_id \<Rightarrow> 'f table \<Rightarrow> (api_error + 'f row) \<times> 'f table" where
  "crud_delete detail i t =
     (case tbl_first i t of
        None \<Rightarrow> (Inl (HTTPNotFound detail), t)
      | Some r \<Rightarrow> (Inr r, tbl_delete (fst r) t))"

section \<open>Behaviour of the handlers on a well-formed table\<close>

lemma crud_refresh_eq [handler_simps]:
  "tbl_wf t \<Longrightarrow> crud_refresh i t =
     (case tbl_abs t i of None \<Rightarrow> Inl RefreshFailed | Some f \<Rightarrow> Inr (i, f))"
  by (simp add: crud_refresh_def tbl_first_wf split: option.split)

lemma crud_create_cases:
  assumes "tbl_wf t"
  obtains (nul) "\<not> adapt f" "crud_create adapt f t = (Inl (DBFailure NulInText), t)"
  | (exhausted) "adapt f" "serial_max < tbl_next t"
      "crud_create adapt f t = (Inl (DBFailure SequenceExhausted), t)"
  | (collision) "adapt f" "tbl_next t \<le> serial_max" "tbl_next t \<in> set (row_ids (tbl_rows t))"
      "crud_create adapt f t = (Inl (DBFailure UniqueViolation), t\<lparr>tbl_next := tbl_next t + 1\<rparr>)"
  | (ok) "adapt f" "tbl_next t \<le> serial_max" "tbl_next t \<notin> set (row_ids (tbl_rows t))"
      "crud_create adapt f t = (Inr (tbl_next t, f),
         \<lparr>tbl_rows = tbl_rows t @ [(tbl_next t, f)], tbl_next = tbl_next t + 1\<rparr>)"
proof (cases rule: tbl_insert_cases [of adapt f t])
  case ok
  let ?t' = "\<lparr>tbl_rows = tbl_rows t @ [(tbl_next t, f)], tbl_next = tbl_next t + 1\<rparr>"
  from ok(3) have "tbl_first (tbl_next t) ?t' = Some (tbl_next t, f)"
    by (simp add: tbl_first_def find_row_absent)
  with ok show ?thesis using that(4) by (simp add: crud_create_def crud_refresh_def)
qed (use that in \<open>simp_all add: crud_create_def\<close>)

lemma crud_create_ok:
  assumes "tbl_wf t" "adapt f" "tbl_next t \<le> serial_max" "tbl_next t \<notin> set (row_ids (tbl_rows t))"
  shows "crud_create adapt f t = (Inr (tbl_next t, f),
           \<lparr>tbl_rows = tbl_rows t @ [(tbl_next t, f)], tbl_next = tbl_next t + 1\<rparr>)"
  using assms(1)
  by (cases rule: crud_create_cases [of t adapt f]) (use assms in simp_all)

lemma tbl_abs_snoc:
  "tbl_next t \<notin> set (row_ids (tbl_rows t)) \<Longrightarrow>
     tbl_abs \<lparr>tbl_rows = tbl_rows t @ [(tbl_next t, f)], tbl_next = n\<rparr> = (tbl_abs t)(tbl_next t \<mapsto> f)"
  by (simp del: map_of_append add: tbl_abs_def map_of_snoc_fresh)

lemma crud_create_Inr:
  assumes "tbl_wf t" "crud_create adapt f t = (Inr r, t')"
  shows "r = (tbl_next t, f) \<and> tbl_next t \<notin> dom (tbl_abs t)
    \<and> tbl_abs t' = (tbl_abs t)(tbl_next t \<mapsto> f) \<and> tbl_next t' = tbl_next t + 1"
  using assms(1)
proof (cases rule: crud_create_cases [of t adapt f])
  case ok
  then have "tbl_insert adapt f t = (Inr (tbl_next t, f), t')"
    using assms(2) by (cases rule: tbl_insert_cases [of adapt f t]) auto
  with ok assms(2) show ?thesis by (auto dest: tbl_abs_insert)
qed (use assms(2) in simp_all)

lemma crud_create_Inl:
  "tbl_wf t \<Longrightarrow> crud_create adapt f t = (Inl e, t') \<Longrightarrow> tbl_rows t' = tbl_rows t"
  by (cases rule: crud_create_cases [of t adapt f]) auto

lemma crud_get_eq [handler_simps]:
  "tbl_wf t \<Longrightarrow> crud_get d i t =
     (case tbl_abs t i of None \<Rightarrow> Inl (HTTPNotFound d) | Some f \<Rightarrow> Inr (i, f))"
  by (simp add: crud_get_def tbl_first_wf split: option.split)

lemma crud_delete_eq [handler_simps]:
  "tbl_wf t \<Longrightarrow> crud_delete d i t =
     (case tbl_abs t i of None \<Rightarrow> (Inl (HTTPNotFound d), t)
      | Some f \<Rightarrow> (Inr (i, f), tbl_delete i t))"
  by (simp add: crud_delete_def tbl_first_wf split: option.split)

lemma tbl_abs_in_rows:
  "tbl_abs t i = Some g \<Longrightarrow> i \<in> set (row_ids (tbl_rows t))"
  by (auto simp: tbl_abs_def dom_map_of_row_ids[symmetric])

lemma crud_update_found:
  assumes wf: "tbl_wf t" and old: "tbl_abs t i = Some g" and ad: "adapt f"
  shows "crud_update adapt d i f t =
           (Inr (i, f), t\<lparr>tbl_rows := replace_row i f (tbl_rows t)\<rparr>)"
proof (cases "g = f")
  case True
  have "replace_row i f (tbl_rows t) = tbl_rows t"
  proof -
    have "map_of (tbl_rows t) i = Some f" using old True by (simp add: tbl_abs_def)
    then have "\<forall>r \<in> set (tbl_rows t). fst r = i \<longrightarrow> r = (i, f)"
      using wf by (auto simp: tbl_wf_def row_ids_def dest: eq_key_imp_eq_value)
    then show ?thesis by (simp add: replace_row_def map_idI)
  qed
  with True wf old show ?thesis
    by (simp add: crud_update_def tbl_first_wf crud_refresh_eq)
next
  case False
  let ?t' = "t\<lparr>tbl_rows := replace_row i f (tbl_rows t)\<rparr>"
  have n: "length (filter (\<lambda>r. fst r = i) (tbl_rows t)) = 1"
    using wf old by (simp add: tbl_wf_def count_row_distinct tbl_abs_in_rows)
  have wf': "tbl_wf ?t'" using wf by (simp add: tbl_wf_def)
  have "tbl_abs ?t' i = Some f"
    using old by (simp add: tbl_abs_def map_of_replace_row tbl_abs_in_rows)
  with False wf wf' old ad n show ?thesis
    by (simp add: crud_update_def tbl_first_wf tbl_update_adapt crud_refresh_eq)
qed

lemma crud_update_missing [handler_simps]:
  "tbl_wf t \<Longrightarrow> tbl_abs t i = None \<Longrightarrow> crud_update adapt d i f t = (Inl (HTTPNotFound d), t)"
  by (simp add: crud_update_def tbl_first_wf)

lemma crud_update_nul:
  "tbl_wf t \<Longrightarrow> tbl_abs t i = Some g \<Longrightarrow> g \<noteq> f \<Longrightarrow> \<not> adapt f \<Longrightarrow>
     crud_update adapt d i f t = (Inl (DBFailure NulInText), t)"
  by (simp add: crud_update_def tbl_first_wf tbl_update_nul)

section \<open>Invariants kept by the handlers\<close>

lemma crud_create_wf: "tbl_wf t \<Longrightarrow> crud_create adapt f t = (r, t') \<Longrightarrow> tbl_wf t'"
  by (cases rule: crud_create_cases [of t adapt f]) (auto simp: tbl_wf_def)

lemma crud_create_fresh:
  "tbl_wf t \<Longrightarrow> tbl_fresh t \<Longrightarrow> crud_create adapt f t = (r, t') \<Longrightarrow> tbl_fresh t'"
  by (cases rule: crud_create_cases [of t adapt f]) (force simp: tbl_fresh_def tbl_wf_def)+

lemma crud_update_state:
  "crud_update adapt d i f t = (r, t') \<Longrightarrow>
     t' = t \<or> (\<exists>n. tbl_update adapt (fst (the (tbl_first i t))) f t = (Inr n, t'))"
  by (auto simp: crud_update_def split: option.splits if_splits sum.splits prod.splits)

lemma crud_update_wf: "tbl_wf t \<Longrightarrow> crud_update adapt d i f t = (r, t') \<Longrightarrow> tbl_wf t'"
  by (auto dest!: crud_update_state intro: tbl_update_wf)

lemma crud_update_fresh: "tbl_fresh t \<Longrightarrow> crud_update adapt d i f t = (r, t') \<Longrightarrow> tbl_fresh t'"
  by (auto dest!: crud_update_state intro: tbl_update_fresh)

lemma crud_delete_state:
  "crud_delete d i t = (r, t') \<Longrightarrow> t' = t \<or> t' = tbl_delete i t"
  by (auto simp: crud_delete_def split: option.splits dest: tbl_first_SomeD)

lemma crud_delete_wf: "tbl_wf t \<Longrightarrow> crud_delete d i t = (r, t') \<Longrightarrow> tbl_wf t'"
  by (auto dest!: crud_delete_state intro: tbl_delete_wf)

lemma crud_delete_fresh: "tbl_fresh t \<Longrightarrow> crud_delete d i t = (r, t') \<Longrightarrow> tbl_fresh t'"
  by (auto dest!: crud_delete_state intro: tbl_delete_fresh)

lemma crud_create_grows: "crud_create adapt f t = (r, t') \<Longrightarrow> tbl_grows t t'"
  by (auto simp: crud_create_def split: prod.splits sum.splits dest: tbl_insert_grows)

lemma crud_update_grows: "crud_update adapt d i f t = (r, t') \<Longrightarrow> tbl_grows t t'"
  by (auto dest!: crud_update_state intro: tbl_update_grows)

lemma crud_delete_grows: "crud_delete d i t = (r, t') \<Longrightarrow> tbl_grows t t'"
  by (auto dest!: crud_delete_state intro: tbl_delete_grows)

lemma tbl_wf_replace: "tbl_wf t \<Longrightarrow> tbl_wf (t\<lparr>tbl_rows := replace_row i f (tbl_rows t)\<rparr>)"
  by (simp add: tbl_wf_def)

lemma tbl_abs_replace:
  "tbl_abs t i = Some g \<Longrightarrow> tbl_abs (t\<lparr>tbl_rows := replace_row i f (tbl_rows t)\<rparr>) = (tbl_abs t)(i \<mapsto> f)"
  by (simp add: tbl_abs_def map_of_replace_row tbl_abs_in_rows)

lemma crud_update_abs:
  assumes "tbl_wf t" "crud_update ad d i f t = (r, t')"
  shows "tbl_abs t' = tbl_abs t \<or> (i \<in> dom (tbl_abs t) \<and> tbl_abs t' = (tbl_abs t)(i \<mapsto> f))"
proof (cases "tbl_abs t i")
  case None
  then show ?thesis using assms by (simp add: crud_update_missing)
next
  case (Some g)
  then have "tbl_first i t = Some (i, g)" using assms(1) by (simp add: tbl_first_wf)
  with assms(2) Some show ?thesis
    by (auto simp: crud_update_def tbl_abs_update split: if_splits sum.splits prod.splits
        dest: tbl_abs_update)
qed

lemma crud_delete_abs:
  "tbl_wf t \<Longrightarrow> crud_delete d i t = (r, t') \<Longrightarrow> tbl_abs t' = (tbl_abs t)(i := None)"
  by (auto simp: crud_delete_eq tbl_abs_delete fun_upd_idem split: option.splits)

lemma crud_create_abs:
  assumes "tbl_wf t" "crud_create ad f t = (r, t')"
  shows "tbl_abs t' = tbl_abs t \<or> (tbl_next t \<notin> dom (tbl_abs t) \<and> tbl_abs t' = (tbl_abs t)(tbl_next t \<mapsto> f))"
proof (cases r)
  case (Inl e)
  then show ?thesis using crud_create_Inl [OF assms(1)] assms(2) by (simp add: tbl_abs_def)
next
  case (Inr x)
  then show ?thesis using crud_create_Inr [OF assms(1)] assms(2) by blast
qed

lemma crud_create_rows_all:
  "tbl_rows_all P t \<Longrightarrow> P f \<Longrightarrow> crud_create adapt f t = (r, t') \<Longrightarrow> tbl_rows_all P t'"
  by (auto simp: crud_create_def split: prod.splits sum.splits dest: tbl_insert_rows_all)

lemma crud_update_rows_all:
  "tbl_rows_all P t \<Longrightarrow> P f \<Longrightarrow> crud_update adapt d i f t = (r, t') \<Longrightarrow> tbl_rows_all P t'"
  by (auto dest!: crud_update_state intro: tbl_update_rows_all)

lemma crud_delete_rows_all:
  "tbl_rows_all P t \<Longrightarrow> crud_delete d i t = (r, t') \<Longrightarrow> tbl_rows_all P t'"
  by (auto dest!: crud_delete_state intro: tbl_delete_rows_all)

end
