(* ===== verification/Models.thy ===== *)
theory Models
  imports Table
begin

text \<open>
  The ORM models of \<open>src/models.py\<close>: one record of columns per model
  (the \<open>id\<close> column is the key of the row, see the theory \<open>Table\<close>),
  \<open>nullable=False\<close> columns as \<^typ>\<open>string\<close> and nullable ones as
  \<^typ>\<open>string option\<close>; the database as the four tables, each of which may
  not exist yet; and \<open>Base.metadata.create_all\<close>, run when the module is
  imported, which creates the missing tables and leaves existing ones alone.
\<close>

record category =
  category_name :: string
  category_description :: "string option"

record place =
  place_name :: string
  place_location :: "string option"

record image =
  image_filename :: string
  image_url :: string

record video =
  video_filename :: string
  video_url :: string

text \<open>
  What psycopg2 accepts as parameters of an \<open>INSERT\<close> or \<open>UPDATE\<close> of a
  row: no string with a NUL character.
\<close>

definition opt_text_ok :: "string option \<Rightarrow> bool" where
  "opt_text_ok v = (case v of None \<Rightarrow> True | Some s \<Rightarrow> pg_text_ok s)"

definition category_adapt :: "category \<Rightarrow> bool" where
  "category_adapt c \<longleftrightarrow> pg_text_ok (category_name c) \<and> opt_text_ok (category_description c)"

definition place_adapt :: "place \<Rightarrow> bool" where
  "place_adapt p \<longleftrightarrow> pg_text_ok (place_name p) \<and> opt_text_ok (place_location p)"

definition image_adapt :: "image \<Rightarrow> bool" where
  "image_adapt m \<longleftrightarrow> pg_text_ok (image_filename m) \<and> pg_text_ok (image_url m)"

definition video_adapt :: "video \<Rightarrow> bool" where
  "video_adapt v \<longleftrightarrow> pg_text_ok (video_filename v) \<and> pg_text_ok (video_url v)"

text \<open>The four tables; \<^const>\<open>None\<close> is a table that does not exist.\<close>

record database =
  db_categories :: "category table option"
  db_places :: "place table option"
  db_images :: "image table option"
  db_videos :: "video table option"

definition no_tables :: database where
  "no_tables = \<lparr>db_categories = None, db_places = None, db_images = None, db_videos = None\<rparr>"

text \<open>\<open>checkfirst=True\<close>: \<open>CREATE TABLE\<close> only for a table that is missing.\<close>

definition ensure_table :: "'f table option \<Rightarrow> 'f table option" where
  "ensure_table t = Some (case t of None \<Rightarrow> empty_table | Some t' \<Rightarrow> t')"

definition create_all :: "database \<Rightarrow> database" where
  "create_all db =
     \<lparr>db_categories = ensure_table (db_categories db),
      db_places = ensure_table (db_places db),
      db_images = ensure_table (db_images db),
      db_videos = ensure_table (db_videos db)\<rparr>"

section \<open>Invariants of the database\<close>

definition opt_wf :: "('f table \<Rightarrow> bool) \<Rightarrow> 'f table option \<Rightarrow> bool" where
  "opt_wf P t = (case t of None \<Rightarrow> True | Some t' \<Rightarrow> P t')"

definition db_wf :: "database \<Rightarrow> bool" where
  "db_wf db \<longleftrightarrow> opt_wf tbl_wf (db_categories db) \<and> opt_wf tbl_wf (db_places db)
     \<and> opt_wf tbl_wf (db_images db) \<and> opt_wf tbl_wf (db_videos db)"

definition db_fresh :: "database \<Rightarrow> bool" where
  "db_fresh db \<longleftrightarrow> opt_wf tbl_fresh (db_categories db) \<and> opt_wf tbl_fresh (db_places db)
     \<and> opt_wf tbl_fresh (db_images db) \<and> opt_wf tbl_fresh (db_videos db)"

definition db_ready :: "database \<Rightarrow> bool" where
  "db_ready db \<longleftrightarrow> db_categories db \<noteq> None \<and> db_places db \<noteq> None
     \<and> db_images db \<noteq> None \<and> db_videos db \<noteq> None"

lemma opt_wf_simps [simp]:
  "opt_wf P None"
  "opt_wf P (Some t) \<longleftrightarrow> P t"
  by (simp_all add: opt_wf_def)

lemma ensure_table_Some [simp]:
  "ensure_table (Some t) = Some t"
  "ensure_table None = Some empty_table"
  by (simp_all add: ensure_table_def)

lemma opt_wf_ensure_table:
  "P empty_table \<Longrightarrow> opt_wf P t \<Longrightarrow> opt_wf P (ensure_table t)"
  by (cases t) simp_all

text \<open>Two states of one table slot: both absent, or both present and related.\<close>

definition opt_rel :: "('f table \<Rightarrow> 'f table \<Rightarrow> bool) \<Rightarrow> 'f table option \<Rightarrow> 'f table option \<Rightarrow> bool" where
  "opt_rel R a b = (case (a, b) of (None, None) \<Rightarrow> True | (Some t, Some t') \<Rightarrow> R t t' | _ \<Rightarrow> False)"

lemma opt_rel_simps [simp]:
  "opt_rel R None None"
  "opt_rel R (Some t) (Some t') \<longleftrightarrow> R t t'"
  "\<not> opt_rel R None (Some t)"
  "\<not> opt_rel R (Some t) None"
  by (simp_all add: opt_rel_def)

definition db_grows :: "database \<Rightarrow> database \<Rightarrow> bool" where
  "db_grows db db' \<longleftrightarrow> opt_rel tbl_grows (db_categories db) (db_categories db')
     \<and> opt_rel tbl_grows (db_places db) (db_places db')
     \<and> opt_rel tbl_grows (db_images db) (db_images db')
     \<and> opt_rel tbl_grows (db_videos db) (db_videos db')"

lemma opt_rel_grows_refl [simp]: "opt_rel tbl_grows t t"
  by (cases t) simp_all

lemma opt_rel_grows_trans:
  "opt_rel tbl_grows a b \<Longrightarrow> opt_rel tbl_grows b c \<Longrightarrow> opt_rel tbl_grows a c"
  by (auto simp: opt_rel_def split: option.splits intro: tbl_grows_trans)

lemma db_grows_refl [simp]: "db_grows db db"
  by (simp add: db_grows_def)

lemma db_grows_trans: "db_grows a b \<Longrightarrow> db_grows b c \<Longrightarrow> db_grows a c"
  unfolding db_grows_def by (meson opt_rel_grows_trans)

end
