(* ===== verification/PyValues.thy ===== *)
theory PyValues
  imports Prelude
begin

text \<open>
  The Python values the service exchanges: JSON documents as
  \<open>json.loads\<close> produces them, and the two conversions between integers and
  text that the request pipeline applies: \<open>int(s)\<close>, which pydantic's
  \<open>int_validator\<close> calls on a path parameter such as \<open>category_id: int\<close>,
  and \<open>str(i)\<close>, which its \<open>str_validator\<close> calls on a JSON number.
  Strings hold UTF-8 bytes; \<open>int()\<close> decodes them and accepts every
  Unicode decimal digit and space, as CPython does.
\<close>

datatype json =
    JNull
  | JBool bool
  | JNum int
  | JStr string
  | JArr "json list"
  | JObj "(string \<times> json) list"

text \<open>A JSON object read into a \<open>dict\<close>: of duplicate keys the last one wins.\<close>

definition json_lookup :: "(string \<times> json) list \<Rightarrow> string \<Rightarrow> json option" where
  "json_lookup kvs k = map_of (rev kvs) k"

section \<open>\<open>str(i)\<close>\<close>

definition char_code :: "char \<Rightarrow> nat" where
  "char_code c = of_char c"

definition is_digit :: "char \<Rightarrow> bool" where
  "is_digit c \<longleftrightarrow> 48 \<le> char_code c \<and> char_code c \<le> 57"

definition digit_char :: "nat \<Rightarrow> char" where
  "digit_char d = char_of (48 + d)"

definition digit_val :: "char \<Rightarrow> nat" where
  "digit_val c = char_code c - 48"

fun nat_str :: "nat \<Rightarrow> string" where
  "nat_str n = (if n < 10 then [digit_char n] else nat_str (n div 10) @ [digit_char (n mod 10)])"

declare nat_str.simps [simp del]

definition int_str :: "int \<Rightarrow> string" where
  "int_str i = (if i < 0 then CHR ''-'' # nat_str (nat (- i)) else nat_str (nat i))"

section \<open>\<open>int(s)\<close>\<close>

text \<open>
  A path parameter reaches \<open>int()\<close> as a \<open>str\<close>: the server percent-decodes
  the path as UTF-8. The model's strings hold its UTF-8 bytes. CPython's
  \<open>int(s)\<close> (\<open>PyLong_FromUnicodeObject\<close>) runs in three stages:
  \<^item> decode the code points;
  \<^item> turn each one into ASCII (\<open>_PyUnicode_TransformDecimalAndSpaceToASCII\<close>):
    a character below 127 stays as it is, Unicode whitespace becomes a
    space, a Unicode decimal digit becomes its ASCII digit, and anything
    else makes the conversion fail;
  \<^item> parse that ASCII text (\<open>PyLong_FromString\<close>, base 10): blanks
    (\<open>Py_ISSPACE\<close>: space, tab, line feed, vertical tab, form feed, carriage
    return) around an optional sign and the digits.
  A byte sequence that is not UTF-8 was decoded with \<open>errors='replace'\<close>
  to U+FFFD, which is neither a digit nor a space, so it fails too. The
  digit and space tables are those of Python 3.12 (Unicode 15.0).
\<close>

definition utf8_cont :: "nat \<Rightarrow> bool" where
  "utf8_cont b \<longleftrightarrow> 128 \<le> b \<and> b < 192"

text \<open>Strict UTF-8: no overlong forms, no surrogates, nothing above U+10FFFF.\<close>

fun utf8_decode :: "nat list \<Rightarrow> nat list option" where
  "utf8_decode [] = Some []"
| "utf8_decode (b # bs) =
     (if b < 128 then map_option (Cons b) (utf8_decode bs)
      else if 194 \<le> b \<and> b < 224 then
        (case bs of
           c # rest \<Rightarrow> if utf8_cont c then map_option (Cons ((b - 192) * 64 + (c - 128))) (utf8_decode rest)
                       else None
         | [] \<Rightarrow> None)
      else if 224 \<le> b \<and> b < 240 then
        (case bs of
           c1 # c2 # rest \<Rightarrow>
             (let cp = (b - 224) * 4096 + (c1 - 128) * 64 + (c2 - 128)
              in if utf8_cont c1 \<and> utf8_cont c2 \<and> 2048 \<le> cp \<and> \<not> (55296 \<le> cp \<and> cp < 57344)
                 then map_option (Cons cp) (utf8_decode rest) else None)
         | _ \<Rightarrow> None)
      else if 240 \<le> b \<and> b < 245 then
        (case bs of
           c1 # c2 # c3 # rest \<Rightarrow>
             (let cp = (b - 240) * 262144 + (c1 - 128) * 4096 + (c2 - 128) * 64 + (c3 - 128)
              in if utf8_cont c1 \<and> utf8_cont c2 \<and> utf8_cont c3 \<and> 65536 \<le> cp \<and> cp < 1114112
                 then map_option (Cons cp) (utf8_decode rest) else None)
         | _ \<Rightarrow> None)
      else None)"

text \<open>
  The code points of the digit zero of each run of ten decimal digits
  (general category Nd) of Unicode 15.0.
\<close>

definition uni_decimal_zeros :: "nat list" where
  "uni_decimal_zeros =
     [0x30, 0x660, 0x6F0, 0x7C0, 0x966, 0x9E6, 0xA66, 0xAE6, 0xB66, 0xBE6, 0xC66, 0xCE6,
      0xD66, 0xDE6, 0xE50, 0xED0, 0xF20, 0x1040, 0x1090, 0x17E0, 0x1810, 0x1946, 0x19D0,
      0x1A80, 0x1A90, 0x1B50, 0x1BB0, 0x1C40, 0x1C50, 0xA620, 0xA8D0, 0xA900, 0xA9D0,
      0xA9F0, 0xAA50, 0xABF0, 0xFF10, 0x104A0, 0x10D30, 0x11066, 0x110F0, 0x11136,
      0x111D0, 0x112F0, 0x11450, 0x114D0, 0x11650, 0x116C0, 0x11730, 0x118E0, 0x11950,
      0x11C50, 0x11D50, 0x11DA0, 0x11F50, 0x16A60, 0x16AC0, 0x16B50, 0x1D7CE, 0x1D7D8,
      0x1D7E2, 0x1D7EC, 0x1D7F6, 0x1E140, 0x1E2F0, 0x1E4F0, 0x1E950, 0x1FBF0]"

text \<open>\<open>Py_UNICODE_TODECIMAL\<close>.\<close>

definition uni_decimal :: "nat \<Rightarrow> nat option" where
  "uni_decimal cp = map_option (\<lambda>z. cp - z) (find (\<lambda>z. z \<le> cp \<and> cp < z + 10) uni_decimal_zeros)"

text \<open>\<open>Py_UNICODE_ISSPACE\<close> above ASCII: bidirectional class WS, B or S, or category Zs.\<close>

definition uni_space :: "nat \<Rightarrow> bool" where
  "uni_space cp \<longleftrightarrow> cp = 0x85 \<or> cp = 0xA0 \<or> cp = 0x1680 \<or> (0x2000 \<le> cp \<and> cp \<le> 0x200A)
     \<or> cp = 0x2028 \<or> cp = 0x2029 \<or> cp = 0x202F \<or> cp = 0x205F \<or> cp = 0x3000"

text \<open>\<open>_PyUnicode_TransformDecimalAndSpaceToASCII\<close>, one code point.\<close>

definition ascii_form :: "nat \<Rightarrow> char option" where
  "ascii_form cp =
     (if cp < 127 then Some (char_of cp)
      else if uni_space cp then Some (CHR '' '')
      else map_option digit_char (uni_decimal cp))"

text \<open>\<open>Py_ISSPACE\<close>: the ASCII blanks \<open>PyLong_FromString\<close> skips.\<close>

definition py_space :: "char \<Rightarrow> bool" where
  "py_space c \<longleftrightarrow> char_code c = 32 \<or> (9 \<le> char_code c \<and> char_code c \<le> 13)"

definition py_strip :: "string \<Rightarrow> string" where
  "py_strip s = rev (dropWhile py_space (rev (dropWhile py_space s)))"

text \<open>Python's decimal literal grammar: \<open>digit (["_"] digit)*\<close>.\<close>

fun digits_ok :: "string \<Rightarrow> bool" where
  "digits_ok [] = False"
| "digits_ok [c] = is_digit c"
| "digits_ok (c # d # rest) =
     (is_digit c \<and> (if d = CHR ''_'' then digits_ok rest else digits_ok (d # rest)))"

definition digits_val :: "string \<Rightarrow> nat" where
  "digits_val s = foldl (\<lambda>n c. 10 * n + digit_val c) 0 (filter is_digit s)"

text \<open>\<open>PyLong_FromString\<close> in base 10 on the ASCII form, which must be consumed whole.\<close>

definition py_int_ascii :: "string \<Rightarrow> int option" where
  "py_int_ascii s =
     (case py_strip s of
        [] \<Rightarrow> None
      | c # r \<Rightarrow>
          if c = CHR ''-'' then (if digits_ok r then Some (- int (digits_val r)) else None)
          else if c = CHR ''+'' then (if digits_ok r then Some (int (digits_val r)) else None)
          else if digits_ok (c # r) then Some (int (digits_val (c # r))) else None)"

definition py_int :: "string \<Rightarrow> int option" where
  "py_int s =
     (case utf8_decode (map char_code s) of
        None \<Rightarrow> None
      | Some cps \<Rightarrow> (case those (map ascii_form cps) of None \<Rightarrow> None | Some a \<Rightarrow> py_int_ascii a))"

text \<open>
  A numeral written in Extended Arabic-Indic (Persian) digits U+06F0 to
  U+06F9, as UTF-8 bytes: the byte 0xDB followed by 0xB0 plus the digit.
\<close>

definition persian_digits :: "string \<Rightarrow> string" where
  "persian_digits s = concat (map (\<lambda>c. [CHR 0xDB, char_of (176 + digit_val c)]) s)"

section \<open>Properties of the conversions\<close>

lemma digit_char_code: "d < 10 \<Longrightarrow> char_code (digit_char d) = 48 + d"
  by (simp add: char_code_def digit_char_def)

lemma is_digit_digit_char: "d < 10 \<Longrightarrow> is_digit (digit_char d)"
  by (simp add: is_digit_def digit_char_code)

lemma digit_val_digit_char: "d < 10 \<Longrightarrow> digit_val (digit_char d) = d"
  by (simp add: digit_val_def digit_char_code)

lemma nat_str_digits: "c \<in> set (nat_str n) \<Longrightarrow> is_digit c"
proof (induction n rule: nat_str.induct)
  case (1 n)
  then show ?case
    by (cases "n < 10") (auto simp: nat_str.simps [of n] is_digit_digit_char)
qed

lemma nat_str_Cons: "\<exists>c r. nat_str n = c # r"
proof (induction n rule: nat_str.induct)
  case (1 n)
  then show ?case
    by (cases "n < 10") (auto simp: nat_str.simps [of n])
qed

lemma digits_ok_all: "s \<noteq> [] \<Longrightarrow> (\<forall>c \<in> set s. is_digit c) \<Longrightarrow> digits_ok s"
proof (induction s rule: digits_ok.induct)
  case (3 c d rest)
  have "d \<noteq> CHR ''_''" using "3.prems"(2) by (auto simp: is_digit_def char_code_def)
  with 3 show ?case by simp
qed simp_all

lemma digits_val_nat_str: "digits_val (nat_str n) = n"
proof (induction n rule: nat_str.induct)
  case (1 n)
  have all: "filter is_digit (nat_str m) = nat_str m" for m
    by (simp add: nat_str_digits)
  show ?case
  proof (cases "n < 10")
    case True
    then show ?thesis by (simp add: nat_str.simps [of n] digits_val_def digit_val_digit_char is_digit_digit_char)
  next
    case False
    then have "digits_val (nat_str n) = 10 * digits_val (nat_str (n div 10)) + n mod 10"
      by (simp add: nat_str.simps [of n] digits_val_def all digit_val_digit_char is_digit_digit_char)
    with False "1.IH" show ?thesis by simp
  qed
qed

lemma dropWhile_none: "(\<forall>c \<in> set s. \<not> P c) \<Longrightarrow> dropWhile P s = s"
  by (induction s) auto

lemma py_strip_id: "(\<forall>c \<in> set s. \<not> py_space c) \<Longrightarrow> py_strip s = s"
  by (simp add: py_strip_def dropWhile_none)

lemma digit_not_space: "is_digit c \<Longrightarrow> \<not> py_space c"
  by (auto simp: is_digit_def py_space_def)

lemma digit_not_sign: "is_digit c \<Longrightarrow> c \<noteq> CHR ''-'' \<and> c \<noteq> CHR ''+''"
  by (auto simp: is_digit_def char_code_def)

lemma int_str_chars: "c \<in> set (int_str i) \<Longrightarrow> c = CHR ''-'' \<or> is_digit c"
  by (auto simp: int_str_def nat_str_digits split: if_splits)

lemma py_int_ascii_nat_str: "py_int_ascii (nat_str n) = Some (int n)"
proof -
  obtain c r where cr: "nat_str n = c # r" using nat_str_Cons by blast
  have dig: "\<forall>x \<in> set (nat_str n). is_digit x" by (simp add: nat_str_digits)
  then have "py_strip (nat_str n) = nat_str n" by (simp add: py_strip_id digit_not_space)
  moreover have "digits_ok (nat_str n)" using dig cr by (simp add: digits_ok_all)
  moreover have "c \<noteq> CHR ''-'' \<and> c \<noteq> CHR ''+''" using dig cr by (simp add: digit_not_sign)
  ultimately show ?thesis using cr by (simp add: py_int_ascii_def digits_val_nat_str [of n, unfolded cr])
qed

lemma py_int_ascii_int_str: "py_int_ascii (int_str i) = Some i"
proof (cases "i < 0")
  case True
  obtain c r where cr: "nat_str (nat (- i)) = c # r" using nat_str_Cons by blast
  have dig: "\<forall>x \<in> set (nat_str (nat (- i))). is_digit x" by (simp add: nat_str_digits)
  have "\<not> py_space (CHR ''-'')" by (simp add: py_space_def char_code_def)
  then have "\<forall>x \<in> set (int_str i). \<not> py_space x"
    using True dig digit_not_space by (auto simp: int_str_def)
  then have "py_strip (int_str i) = int_str i" by (rule py_strip_id)
  moreover have "digits_ok (nat_str (nat (- i)))" using dig cr by (simp add: digits_ok_all)
  ultimately show ?thesis using True by (simp add: py_int_ascii_def int_str_def digits_val_nat_str)
next
  case False
  then show ?thesis by (simp add: int_str_def py_int_ascii_nat_str)
qed

text \<open>On ASCII text, \<open>int()\<close> is the parse of that text.\<close>

lemma utf8_decode_ascii: "\<forall>b \<in> set bs. b < 128 \<Longrightarrow> utf8_decode bs = Some bs"
  by (induction bs) simp_all

lemma char_code_lt [simp]: "char_code c < 256"
  by (simp add: char_code_def)

lemma those_ascii_form: "\<forall>c \<in> set s. char_code c < 127 \<Longrightarrow> those (map ascii_form (map char_code s)) = Some s"
  by (induction s) (simp_all add: ascii_form_def char_code_def)

lemma py_int_ascii_text:
  assumes "\<forall>c \<in> set s. char_code c < 127"
  shows "py_int s = py_int_ascii s"
proof -
  have "utf8_decode (map char_code s) = Some (map char_code s)"
    using assms by (intro utf8_decode_ascii) auto
  then show ?thesis using those_ascii_form [OF assms] by (simp add: py_int_def)
qed

lemma int_str_ascii: "\<forall>c \<in> set (int_str i). char_code c < 127"
  using int_str_chars by (fastforce simp: is_digit_def char_code_def)

lemma py_int_int_str: "py_int (int_str i) = Some i"
  by (simp add: py_int_ascii_text [OF int_str_ascii] py_int_ascii_int_str)

lemma slash_notin_int_str [simp]: "CHR ''/'' \<notin> set (int_str i)"
  using int_str_chars [of "CHR ''/''" i] by (auto simp: is_digit_def char_code_def)

lemma int_str_ne [simp]: "int_str i \<noteq> []"
  using nat_str_Cons by (auto simp: int_str_def) (metis list.distinct(1))+

lemma last_int_str [simp]: "last (int_str i) \<noteq> CHR ''/''"
  using last_in_set [OF int_str_ne [of i]] slash_notin_int_str [of i] by metis

section \<open>Text outside ASCII\<close>

lemma digit_char_digit_val: "is_digit c \<Longrightarrow> digit_char (digit_val c) = c"
  by (auto simp: is_digit_def digit_char_def digit_val_def char_code_def)

lemma digit_val_lt: "is_digit c \<Longrightarrow> digit_val c < 10"
  by (auto simp: is_digit_def digit_val_def)

lemma utf8_decode_persian:
  "\<forall>c \<in> set s. is_digit c \<Longrightarrow>
     utf8_decode (map char_code (persian_digits s) @ bs)
       = map_option ((@) (map (\<lambda>c. 1776 + digit_val c) s)) (utf8_decode bs)"
proof (induction s)
  case (Cons c s)
  have d: "digit_val c < 10" using Cons.prems digit_val_lt by simp
  then have "char_code (char_of (176 + digit_val c)) = 176 + digit_val c"
    by (simp add: char_code_def)
  with d Cons show ?case
    by (simp add: persian_digits_def char_code_def utf8_cont_def option.map_comp comp_def)
qed (cases "utf8_decode bs", simp_all add: persian_digits_def)

text \<open>
  With the digit table's entry for U+06F0, \<open>int()\<close> reads a Persian
  numeral as the ASCII one.
\<close>

lemma py_int_persian:
  assumes tbl: "\<And>d. d < 10 \<Longrightarrow> ascii_form (1776 + d) = Some (digit_char d)"
    and dig: "\<forall>c \<in> set s. is_digit c"
  shows "py_int (persian_digits s) = py_int s"
proof -
  have "utf8_decode (map char_code (persian_digits s)) = Some (map (\<lambda>c. 1776 + digit_val c) s)"
    using utf8_decode_persian [OF dig, of "[]"] by simp
  moreover have "those (map ascii_form (map (\<lambda>c. 1776 + digit_val c) s)) = Some s"
    using dig by (induction s) (simp_all add: tbl digit_val_lt digit_char_digit_val)
  ultimately have "py_int (persian_digits s) = py_int_ascii s"
    by (simp add: py_int_def comp_def)
  also have "\<dots> = py_int s"
    using dig by (intro py_int_ascii_text [symmetric]) (auto simp: is_digit_def)
  finally show ?thesis .
qed

text \<open>With U+00A0 a space, \<open>int()\<close> skips a no-break space before ASCII text.\<close>

lemma py_int_nbsp:
  assumes tbl: "ascii_form 160 = Some (CHR '' '')"
    and ascii: "\<forall>c \<in> set s. char_code c < 127"
  shows "py_int ([CHR 0xC2, CHR 0xA0] @ s) = py_int s"
proof -
  have "\<forall>b \<in> set (map char_code s). b < 128" using ascii by auto
  moreover have c: "char_code (CHR 0xC2) = 194" "char_code (CHR 0xA0) = 160"
    by (simp_all add: char_code_def)
  ultimately have "utf8_decode (map char_code ([CHR 0xC2, CHR 0xA0] @ s)) = Some (160 # map char_code s)"
    using utf8_decode_ascii [of "map char_code s"] by (simp add: c utf8_cont_def)
  moreover have "py_int_ascii (CHR '' '' # s) = py_int_ascii s"
    by (simp add: py_int_ascii_def py_strip_def py_space_def char_code_def)
  ultimately have "py_int ([CHR 0xC2, CHR 0xA0] @ s) = py_int_ascii s"
    using those_ascii_form [OF ascii] tbl by (simp del: utf8_decode.simps add: py_int_def)
  then show ?thesis by (simp add: py_int_ascii_text [OF ascii])
qed

lemma persian_digits_Nil [simp]: "persian_digits [] = []"
  by (simp add: persian_digits_def)

lemma persian_digits_ne: "s \<noteq> [] \<Longrightarrow> persian_digits s \<noteq> []"
  by (cases s) (simp_all add: persian_digits_def)

lemma persian_digits_no_slash:
  assumes "\<forall>c \<in> set s. is_digit c"
  shows "CHR ''/'' \<notin> set (persian_digits s)"
proof
  assume "CHR ''/'' \<in> set (persian_digits s)"
  then obtain c where c: "c \<in> set s" "CHR ''/'' = char_of (176 + digit_val c)"
    by (auto simp: persian_digits_def split: if_splits)
  have "digit_val c < 10" using assms c(1) digit_val_lt by blast
  then have "of_char (char_of (176 + digit_val c)) = (176 + digit_val c :: nat)" by simp
  moreover have "of_char (CHR ''/'') = (of_char (char_of (176 + digit_val c)) :: nat)"
    using c(2) by simp
  ultimately show False by simp
qed

end
