(* ===== verification/Schemas.thy ===== *)
theory Schemas
  imports Models PyValues
begin

text \<open>
  The pydantic models of \<open>src/main.py\<close> (\<open>CategoryCreate\<close>,
  \<open>PlaceCreate\<close>, \<open>ImageCreate\<close>, \<open>VideoCreate\<close>: two required
  \<open>str\<close> fields each, \<open>orm_mode = True\<close>). They serve twice: FastAPI
  validates a request body against them, and, as the \<open>response_model\<close> of
  every endpoint, it validates the returned ORM object against them and
  serialises only their fields. The \<open>Config.orm_mode\<close> spelling is the
  pydantic v1 interface, whose rules are modelled:
  \<^item> a body that is a JSON object is read as a \<open>dict\<close>; a missing field is
    \<open>field required\<close>, a \<open>null\<close> one \<open>none is not an allowed value\<close>;
  \<^item> \<open>str_validator\<close> accepts a string, and turns a number or a boolean
    (a Python \<open>int\<close>) into its \<open>str()\<close>; anything else is \<open>str type
    expected\<close>; all fields are checked and all errors reported;
  \<^item> a body that is not an object is not a \<open>dict\<close>, so with
    \<open>orm_mode\<close> it is read by attribute (\<open>from_orm\<close>) and every field
    is missing; an absent or \<open>null\<close> body is \<open>field required\<close>.
  JSON numbers are integers here (fractional numbers are not modelled).
\<close>

datatype field_error =
    BodyRequired
  | FieldRequired string
  | NoneNotAllowed string
  | StrTypeExpected string

record category_create =
  cc_name :: string
  cc_description :: string

record place_create =
  pc_name :: string
  pc_location :: string

record image_create =
  ic_filename :: string
  ic_url :: string

record video_create =
  vc_filename :: string
  vc_url :: string

section \<open>Validation\<close>

fun v1_str :: "json \<Rightarrow> string option" where
  "v1_str (JStr s) = Some s"
| "v1_str (JNum i) = Some (int_str i)"
| "v1_str (JBool b) = Some (if b then ''True'' else ''False'')"
| "v1_str _ = None"

definition field_str :: "(string \<times> json) list \<Rightarrow> string \<Rightarrow> field_error list + string" where
  "field_str kvs k =
     (case json_lookup kvs k of
        None \<Rightarrow> Inl [FieldRequired k]
      | Some JNull \<Rightarrow> Inl [NoneNotAllowed k]
      | Some v \<Rightarrow> (case v1_str v of None \<Rightarrow> Inl [StrTypeExpected k] | Some s \<Rightarrow> Inr s))"

definition both :: "'e list + 'a \<Rightarrow> 'e list + 'b \<Rightarrow> 'e list + 'a \<times> 'b" where
  "both x y =
     (case (x, y) of
        (Inr a, Inr b) \<Rightarrow> Inr (a, b)
      | (Inl e, Inr _) \<Rightarrow> Inl e
      | (Inr _, Inl e) \<Rightarrow> Inl e
      | (Inl e1, Inl e2) \<Rightarrow> Inl (e1 @ e2))"

text \<open>A model with the two \<open>str\<close> fields \<open>k1\<close>, \<open>k2\<close>, from a request body.\<close>

definition two_str_fields ::
  "string \<Rightarrow> string \<Rightarrow> json option \<Rightarrow> field_error list + string \<times> string" where
  "two_str_fields k1 k2 body =
     (case body of
        None \<Rightarrow> Inl [BodyRequired]
      | Some JNull \<Rightarrow> Inl [BodyRequired]
      | Some (JObj kvs) \<Rightarrow> both (field_str kvs k1) (field_str kvs k2)
      | Some _ \<Rightarrow> Inl [FieldRequired k1, FieldRequired k2])"

definition parse_category_create :: "json option \<Rightarrow> field_error list + category_create" where
  "parse_category_create body =
     map_sum id (\<lambda>(n, d). \<lparr>cc_name = n, cc_description = d\<rparr>)
       (two_str_fields ''name'' ''description'' body)"

definition parse_place_create :: "json option \<Rightarrow> field_error list + place_create" where
  "parse_place_create body =
     map_sum id (\<lambda>(n, l). \<lparr>pc_name = n, pc_location = l\<rparr>)
       (two_str_fields ''name'' ''location'' body)"

definition parse_image_create :: "json option \<Rightarrow> field_error list + image_create" where
  "parse_image_create body =
     map_sum id (\<lambda>(f, u). \<lparr>ic_filename = f, ic_url = u\<rparr>)
       (two_str_fields ''filename'' ''url'' body)"

definition parse_video_create :: "json option \<Rightarrow> field_error list + video_create" where
  "parse_video_create body =
     map_sum id (\<lambda>(f, u). \<lparr>vc_filename = f, vc_url = u\<rparr>)
       (two_str_fields ''filename'' ''url'' body)"

section \<open>Serialisation\<close>

definition category_create_json :: "category_create \<Rightarrow> json" where
  "category_create_json c = JObj [(''name'', JStr (cc_name c)), (''description'', JStr (cc_description c))]"

definition place_create_json :: "place_create \<Rightarrow> json" where
  "place_create_json p = JObj [(''name'', JStr (pc_name p)), (''location'', JStr (pc_location p))]"

definition image_create_json :: "image_create \<Rightarrow> json" where
  "image_create_json m = JObj [(''filename'', JStr (ic_filename m)), (''url'', JStr (ic_url m))]"

definition video_create_json :: "video_create \<Rightarrow> json" where
  "video_create_json v = JObj [(''filename'', JStr (vc_filename v)), (''url'', JStr (vc_url v))]"

section \<open>The response model read from an ORM row\<close>

text \<open>
  \<open>from_orm\<close> reads the attributes named by the model's fields; the row's
  \<open>id\<close> is not one of them. A \<open>NULL\<close> column is \<open>None\<close>, which the
  \<open>str\<close> field refuses.
\<close>

definition orm_str :: "string \<Rightarrow> string option \<Rightarrow> field_error list + string" where
  "orm_str k v = (case v of None \<Rightarrow> Inl [NoneNotAllowed k] | Some s \<Rightarrow> Inr s)"

definition category_response :: "category row \<Rightarrow> field_error list + category_create" where
  "category_response r =
     map_sum id (\<lambda>(n, d). \<lparr>cc_name = n, cc_description = d\<rparr>)
       (both (orm_str ''name'' (Some (category_name (snd r))))
             (orm_str ''description'' (category_description (snd r))))"

definition place_response :: "place row \<Rightarrow> field_error list + place_create" where
  "place_response r =
     map_sum id (\<lambda>(n, l). \<lparr>pc_name = n, pc_location = l\<rparr>)
       (both (orm_str ''name'' (Some (place_name (snd r))))
             (orm_str ''location'' (place_location (snd r))))"

definition image_response :: "image row \<Rightarrow> field_error list + image_create" where
  "image_response r =
     Inr \<lparr>ic_filename = image_filename (snd r), ic_url = image_url (snd r)\<rparr>"

definition video_response :: "video row \<Rightarrow> field_error list + video_create" where
  "video_response r =
     Inr \<lparr>vc_filename = video_filename (snd r), vc_url = video_url (snd r)\<rparr>"

section \<open>Properties of validation and serialisation\<close>

lemma both_Inr_iff [simp]: "both x y = Inr p \<longleftrightarrow> x = Inr (fst p) \<and> y = Inr (snd p)"
  by (cases x; cases y; cases p) (auto simp: both_def)

lemma both_Inr_Inr [simp]: "both (Inr a) (Inr b) = Inr (a, b)"
  by (simp add: both_def)

lemma both_Inl_left: "x = Inl e \<Longrightarrow> \<exists>e'. both x y = Inl (e @ e') \<or> both x y = Inl e"
  by (cases y) (auto simp: both_def)

lemma field_str_JStr [simp]:
  "json_lookup kvs k = Some (JStr s) \<Longrightarrow> field_str kvs k = Inr s"
  by (simp add: field_str_def)

lemma field_str_missing [simp]:
  "json_lookup kvs k = None \<Longrightarrow> field_str kvs k = Inl [FieldRequired k]"
  by (simp add: field_str_def)

lemma json_lookup_two [simp]:
  "k1 \<noteq> k2 \<Longrightarrow> json_lookup [(k1, v1), (k2, v2)] k1 = Some v1"
  "json_lookup [(k1, v1), (k2, v2)] k2 = Some v2"
  by (simp_all add: json_lookup_def)

lemma orm_str_simps [simp]:
  "orm_str k (Some s) = Inr s"
  "orm_str k None = Inl [NoneNotAllowed k]"
  by (simp_all add: orm_str_def)

lemma category_response_Some [simp]:
  "category_response (i, \<lparr>category_name = n, category_description = Some d\<rparr>) =
     Inr \<lparr>cc_name = n, cc_description = d\<rparr>"
  by (simp add: category_response_def)

lemma category_response_None [simp]:
  "category_response (i, \<lparr>category_name = n, category_description = None\<rparr>) =
     Inl [NoneNotAllowed ''description'']"
  by (simp add: category_response_def both_def)

lemma place_response_Some [simp]:
  "place_response (i, \<lparr>place_name = n, place_location = Some l\<rparr>) =
     Inr \<lparr>pc_name = n, pc_location = l\<rparr>"
  by (simp add: place_response_def)

lemma place_response_None [simp]:
  "place_response (i, \<lparr>place_name = n, place_location = None\<rparr>) =
     Inl [NoneNotAllowed ''location'']"
  by (simp add: place_response_def both_def)

lemma parse_create_json [simp]:
  "parse_category_create (Some (category_create_json x)) = Inr x"
  "parse_place_create (Some (place_create_json y)) = Inr y"
  "parse_image_create (Some (image_create_json z)) = Inr z"
  "parse_video_create (Some (video_create_json v)) = Inr v"
  by (simp_all add: parse_category_create_def category_create_json_def two_str_fields_def
      parse_place_create_def place_create_json_def parse_image_create_def image_create_json_def
      parse_video_create_def video_create_json_def)

lemma create_records_eta [simp]:
  "\<lparr>cc_name = cc_name x, cc_description = cc_description x\<rparr> = x"
  "\<lparr>pc_name = pc_name y, pc_location = pc_location y\<rparr> = y"
  "\<lparr>ic_filename = ic_filename z, ic_url = ic_url z\<rparr> = z"
  "\<lparr>vc_filename = vc_filename v, vc_url = vc_url v\<rparr> = v"
  by simp_all

end
