(* ===== verification/Handlers.thy ===== *)
theory Handlers
  imports Crud Schemas
begin

text \<open>
  The twenty path operation functions of \<open>src/main.py\<close>, five per
  resource, each on the table of its model. The ORM object built from the
  request model (\<open>Category(name=category.name, ...)\<close>) is the
  \<open>..._of\<close> function; each handler is the shared shape of theory
  \<open>Crud\<close> at the resource's columns, psycopg2 check and 404 message.
  The \<open>response_model\<close> and the routing are applied in theory \<open>App\<close>.
\<close>

section \<open>Category\<close>

definition category_of :: "category_create \<Rightarrow> category" where
  "category_of x = \<lparr>category_name = cc_name x, category_description = Some (cc_description x)\<rparr>"

definition create_category :: "category_create \<Rightarrow> category table \<Rightarrow> (api_error + category row) \<times> category table" where
  "create_category x t = crud_create category_adapt (category_of x) t"

definition get_categories :: "category table \<Rightarrow> category row list" where
  "get_categories t = crud_list t"

definition get_category :: "row_id \<Rightarrow> category table \<Rightarrow> api_error + category row" where
  "get_category i t = crud_get ''Category not found'' i t"

definition update_category ::
  "row_id \<Rightarrow> category_create \<Rightarrow> category table \<Rightarrow> (api_error + category row) \<times> category table" where
  "update_category i x t = crud_update category_adapt ''Category not found'' i (category_of x) t"

definition delete_category :: "row_id \<Rightarrow> category table \<Rightarrow> (api_error + category row) \<times> category table" where
  "delete_category i t = crud_delete ''Category not found'' i t"

section \<open>Place\<close>

definition place_of :: "place_create \<Rightarrow> place" where
  "place_of x = \<lparr>place_name = pc_name x, place_location = Some (pc_location x)\<rparr>"

definition create_place :: "place_create \<Rightarrow> place table \<Rightarrow> (api_error + place row) \<times> place table" where
  "create_place x t = crud_create place_adapt (place_of x) t"

definition get_places :: "place table \<Rightarrow> place row list" where
  "get_places t = crud_list t"

definition get_place :: "row_id \<Rightarrow> place table \<Rightarrow> api_error + place row" where
  "get_place i t = crud_get ''Place not found'' i t"

definition update_place ::
  "row_id \<Rightarrow> place_create \<Rightarrow> place table \<Rightarrow> (api_error + place row) \<times> place table" where
  "update_place i x t = crud_update place_adapt ''Place not found'' i (place_of x) t"

definition delete_place :: "row_id \<Rightarrow> place table \<Rightarrow> (api_error + place row) \<times> place table" where
  "delete_place i t = crud_delete ''Place not found'' i t"

section \<open>Image\<close>

definition image_of :: "image_create \<Rightarrow> image" where
  "image_of x = \<lparr>image_filename = ic_filename x, image_url = ic_url x\<rparr>"

definition create_image :: "image_create \<Rightarrow> image table \<Rightarrow> (api_error + image row) \<times> image table" where
  "create_image x t = crud_create image_adapt (image_of x) t"

definition get_images :: "image table \<Rightarrow> image row list" where
  "get_images t = crud_list t"

definition get_image :: "row_id \<Rightarrow> image table \<Rightarrow> api_error + image row" where
  "get_image i t = crud_get ''Image not found'' i t"

definition update_image ::
  "row_id \<Rightarrow> image_create \<Rightarrow> image table \<Rightarrow> (api_error + image row) \<times> image table" where
  "update_image i x t = crud_update image_adapt ''Image not found'' i (image_of x) t"

definition delete_image :: "row_id \<Rightarrow> image table \<Rightarrow> (api_error + image row) \<times> image table" where
  "delete_image i t = crud_delete ''Image not found'' i t"

section \<open>Video\<close>

definition video_of :: "video_create \<Rightarrow> video" where
  "video_of x = \<lparr>video_filename = vc_filename x, video_url = vc_url x\<rparr>"

definition create_video :: "video_create \<Rightarrow> video table \<Rightarrow> (api_error + video row) \<times> video table" where
  "create_video x t = crud_create video_adapt (video_of x) t"

definition get_videos :: "video table \<Rightarrow> video row list" where
  "get_videos t = crud_list t"

definition get_video :: "row_id \<Rightarrow> video table \<Rightarrow> api_error + video row" where
  "get_video i t = crud_get ''Video not found'' i t"

definition update_video ::
  "row_id \<Rightarrow> video_create \<Rightarrow> video table \<Rightarrow> (api_error + video row) \<times> video table" where
  "update_video i x t = crud_update video_adapt ''Video not found'' i (video_of x) t"

definition delete_video :: "row_id \<Rightarrow> video table \<Rightarrow> (api_error + video row) \<times> video table" where
  "delete_video i t = crud_delete ''Video not found'' i t"

section \<open>The psycopg2 check on the objects the handlers build\<close>

lemma adapt_of [simp]:
  "category_adapt (category_of x) \<longleftrightarrow> pg_text_ok (cc_name x) \<and> pg_text_ok (cc_description x)"
  "place_adapt (place_of y) \<longleftrightarrow> pg_text_ok (pc_name y) \<and> pg_text_ok (pc_location y)"
  "image_adapt (image_of z) \<longleftrightarrow> pg_text_ok (ic_filename z) \<and> pg_text_ok (ic_url z)"
  "video_adapt (video_of v) \<longleftrightarrow> pg_text_ok (vc_filename v) \<and> pg_text_ok (vc_url v)"
  by (simp_all add: category_adapt_def category_of_def place_adapt_def place_of_def
      image_adapt_def image_of_def video_adapt_def video_of_def opt_text_ok_def)

lemmas handler_defs [handler_simps] = create_category_def get_categories_def get_category_def
  update_category_def delete_category_def create_place_def get_places_def get_place_def
  update_place_def delete_place_def create_image_def get_images_def get_image_def
  update_image_def delete_image_def create_video_def get_videos_def get_video_def
  update_video_def delete_video_def

end
