(* ===== verification/Concurrency.thy ===== *)
theory Concurrency
  imports Handlers
begin

text \<open>
  Concurrent requests on one table. The spec expects parallel request
  handling and leaves isolation to the storage engine: each request runs in
  its own session, at PostgreSQL's default READ COMMITTED. The handlers that
  read before they write are update and delete. Each splits into phases that
  run as separate statements, and requests interleave between them:
  \<^item> the \<open>SELECT\<close> of \<open>query(...).first()\<close>;
  \<^item> at \<open>db.commit()\<close>, the flush (\<open>UPDATE ... WHERE id = j\<close> or
    \<open>DELETE ... WHERE id = j\<close>) and the commit;
  \<^item> the \<open>SELECT\<close> of \<open>db.refresh\<close> (update only).
  Each phase is one atomic step on the table. Row locks make a writer wait
  for the other's commit and then re-evaluate its \<open>WHERE\<close>, which is that
  same atomicity. Two details of SQLAlchemy's unit of work matter here:
  \<^item> The \<open>UPDATE\<close> sets only the attributes whose new value differs from
    the loaded one. The other columns keep whatever the row holds at flush
    time, as given by \<open>category_merge\<close> and the like.
  \<^item> An \<open>UPDATE\<close> matching no row raises \<open>StaleDataError\<close> and rolls back.
    A \<open>DELETE\<close> matching no row only warns (\<open>confirm_deleted_rows\<close>), so
    the handler still returns the object it loaded.
  Create runs two phases: the \<open>INSERT\<close> and commit, then its refresh.
  Get and list are one \<open>SELECT\<close> each, so one phase each.
\<close>

datatype 'f job =
    CreateStart 'f                   \<comment> \<open>create: before \<open>db.add\<close>, \<open>db.commit\<close>\<close>
  | CreateRefresh row_id             \<comment> \<open>create: committed, before \<open>db.refresh\<close>\<close>
  | ListStart                        \<comment> \<open>list: before \<open>query(...).all()\<close>\<close>
  | GetStart row_id                  \<comment> \<open>get: before \<open>query(...).first()\<close>\<close>
  | UpdateStart row_id 'f            \<comment> \<open>update: before its \<open>SELECT\<close>\<close>
  | UpdateFlush row_id 'f 'f         \<comment> \<open>row id, loaded values, new values: before the commit\<close>
  | RefreshPending row_id            \<comment> \<open>update: before \<open>db.refresh\<close>\<close>
  | DeleteStart row_id               \<comment> \<open>delete: before its \<open>SELECT\<close>\<close>
  | DeleteFlush "'f row"             \<comment> \<open>the loaded object: before the commit\<close>
  | Finished "api_error + 'f row"    \<comment> \<open>the handler's outcome\<close>
  | Listed "'f row list"             \<comment> \<open>the outcome of a list\<close>

text \<open>
  The flushed \<open>UPDATE\<close>: each matched row gets \<open>g\<close> of its current
  values. The psycopg2 check is on the new object's values.
\<close>

definition tbl_update_cols ::
  "bool \<Rightarrow> row_id \<Rightarrow> ('f \<Rightarrow> 'f) \<Rightarrow> 'f table \<Rightarrow> (db_error + nat) \<times> 'f table" where
  "tbl_update_cols ok i g t =
     (if \<not> ok then (Inl NulInText, t)
      else (Inr (length (filter (\<lambda>r. fst r = i) (tbl_rows t))),
            t\<lparr>tbl_rows := map (\<lambda>r. if fst r = i then (i, g (snd r)) else r) (tbl_rows t)\<rparr>))"

definition job_done :: "'f job \<Rightarrow> bool" where
  "job_done j = (case j of Finished _ \<Rightarrow> True | Listed _ \<Rightarrow> True | _ \<Rightarrow> False)"

text \<open>
  One phase of one request. \<open>upd old new cur\<close> is the row after an
  \<open>UPDATE\<close> that sets the columns where \<open>new\<close> differs from \<open>old\<close> on a
  row holding \<open>cur\<close>.
\<close>

fun job_step ::
  "('f \<Rightarrow> bool) \<Rightarrow> ('f \<Rightarrow> 'f \<Rightarrow> 'f \<Rightarrow> 'f) \<Rightarrow> string \<Rightarrow> 'f job \<Rightarrow> 'f table \<Rightarrow> 'f job \<times> 'f table" where
  "job_step adapt upd d (CreateStart f) t =
     (case tbl_insert adapt f t of
        (Inl e, t') \<Rightarrow> (Finished (Inl (DBFailure e)), t')
      | (Inr r, t') \<Rightarrow> (CreateRefresh (fst r), t'))"
| "job_step adapt upd d (CreateRefresh i) t = (Finished (crud_refresh i t), t)"
| "job_step adapt upd d ListStart t = (Listed (crud_list t), t)"
| "job_step adapt upd d (GetStart i) t = (Finished (crud_get d i t), t)"
| "job_step adapt upd d (UpdateStart i f) t =
     (case tbl_first i t of
        None \<Rightarrow> (Finished (Inl (HTTPNotFound d)), t)
      | Some (j, old) \<Rightarrow> if old = f then (RefreshPending j, t) else (UpdateFlush j old f, t))"
| "job_step adapt upd d (UpdateFlush j old f) t =
     (case tbl_update_cols (adapt f) j (upd old f) t of
        (Inl e, _) \<Rightarrow> (Finished (Inl (DBFailure e)), t)
      | (Inr n, t') \<Rightarrow> if n \<noteq> 1 then (Finished (Inl StaleData), t) else (RefreshPending j, t'))"
| "job_step adapt upd d (RefreshPending j) t = (Finished (crud_refresh j t), t)"
| "job_step adapt upd d (DeleteStart i) t =
     (case tbl_first i t of
        None \<Rightarrow> (Finished (Inl (HTTPNotFound d)), t)
      | Some r \<Rightarrow> (DeleteFlush r, t))"
| "job_step adapt upd d (DeleteFlush r) t = (Finished (Inr r), tbl_delete (fst r) t)"
| "job_step adapt upd d (Finished r) t = (Finished r, t)"
| "job_step adapt upd d (Listed rs) t = (Listed rs, t)"

text \<open>A request run alone for \<open>n\<close> phases.\<close>

fun job_run ::
  "nat \<Rightarrow> ('f \<Rightarrow> bool) \<Rightarrow> ('f \<Rightarrow> 'f \<Rightarrow> 'f \<Rightarrow> 'f) \<Rightarrow> string \<Rightarrow> 'f job \<Rightarrow> 'f table \<Rightarrow> 'f job \<times> 'f table" where
  "job_run 0 adapt upd d j t = (j, t)"
| "job_run (Suc n) adapt upd d j t =
     (case job_step adapt upd d j t of (j', t') \<Rightarrow> job_run n adapt upd d j' t')"

text \<open>Interleaving: any unfinished request runs its next phase.\<close>

inductive conc_step ::
  "('f \<Rightarrow> bool) \<Rightarrow> ('f \<Rightarrow> 'f \<Rightarrow> 'f \<Rightarrow> 'f) \<Rightarrow> string \<Rightarrow>
   'f job list \<times> 'f table \<Rightarrow> 'f job list \<times> 'f table \<Rightarrow> bool" where
  step: "k < length js \<Longrightarrow> \<not> job_done (js ! k) \<Longrightarrow> job_step adapt upd d (js ! k) t = (j', t')
    \<Longrightarrow> conc_step adapt upd d (js, t) (js[k := j'], t')"

inductive_cases conc_stepE: "conc_step adapt upd d s s'"

text \<open>The column-wise \<open>UPDATE\<close> of each model's handler.\<close>

definition category_merge :: "category \<Rightarrow> category \<Rightarrow> category \<Rightarrow> category" where
  "category_merge old new cur =
     \<lparr>category_name = (if category_name new = category_name old then category_name cur else category_name new),
      category_description =
        (if category_description new = category_description old then category_description cur
         else category_description new)\<rparr>"

definition place_merge :: "place \<Rightarrow> place \<Rightarrow> place \<Rightarrow> place" where
  "place_merge old new cur =
     \<lparr>place_name = (if place_name new = place_name old then place_name cur else place_name new),
      place_location = (if place_location new = place_location old then place_location cur else place_location new)\<rparr>"

definition image_merge :: "image \<Rightarrow> image \<Rightarrow> image \<Rightarrow> image" where
  "image_merge old new cur =
     \<lparr>image_filename = (if image_filename new = image_filename old then image_filename cur else image_filename new),
      image_url = (if image_url new = image_url old then image_url cur else image_url new)\<rparr>"

definition video_merge :: "video \<Rightarrow> video \<Rightarrow> video \<Rightarrow> video" where
  "video_merge old new cur =
     \<lparr>video_filename = (if video_filename new = video_filename old then video_filename cur else video_filename new),
      video_url = (if video_url new = video_url old then video_url cur else video_url new)\<rparr>"

section \<open>A request alone is the sequential handler\<close>

lemma merges_on_loaded [simp]:
  "category_merge old new old = new" "place_merge p q p = q"
  "image_merge a b a = b" "video_merge v w v = w"
  by (simp_all add: category_merge_def place_merge_def image_merge_def video_merge_def)

lemma tbl_update_cols_loaded:
  assumes "tbl_wf t" "tbl_abs t j = Some old" "upd old f old = f"
  shows "tbl_update_cols (adapt f) j (upd old f) t = tbl_update adapt j f t"
proof -
  have "\<forall>r \<in> set (tbl_rows t). fst r = j \<longrightarrow> snd r = old"
    using assms(1,2) by (auto simp: tbl_wf_def tbl_abs_def row_ids_def dest: eq_key_imp_eq_value)
  then have "map (\<lambda>r. if fst r = j then (j, upd old f (snd r)) else r) (tbl_rows t)
      = replace_row j f (tbl_rows t)"
    using assms(3) by (simp add: replace_row_def)
  then show ?thesis by (simp add: tbl_update_cols_def tbl_update_def)
qed

lemma job_run_finished [simp]: "job_run n adapt upd d (Finished r) t = (Finished r, t)"
  by (induction n) simp_all

lemma job_run_update:
  assumes "tbl_wf t" "\<And>old f. upd old f old = f"
  shows "job_run 3 adapt upd d (UpdateStart i f) t = (Finished (fst (crud_update adapt d i f t)), snd (crud_update adapt d i f t))"
proof (cases "tbl_abs t i")
  case None
  then show ?thesis using assms(1) by (simp add: crud_update_def tbl_first_wf numeral_3_eq_3)
next
  case (Some old)
  have eq: "tbl_update_cols (adapt f) i (upd old f) t = tbl_update adapt i f t"
    using tbl_update_cols_loaded [OF assms(1) Some assms(2)] .
  show ?thesis
    using assms(1) Some
    by (simp add: crud_update_def tbl_first_wf numeral_3_eq_3 eq split: prod.split sum.split)
qed

lemma job_run_delete:
  "job_run 2 adapt upd d (DeleteStart i) t = (Finished (fst (crud_delete d i t)), snd (crud_delete d i t))"
  by (simp add: crud_delete_def numeral_2_eq_2 split: option.split)


section \<open>The flushed update on the rows\<close>

lemma tbl_update_cols_found:
  assumes "tbl_wf t" "tbl_abs t j = Some v"
  shows "tbl_update_cols True j g t = (Inr 1, t\<lparr>tbl_rows := replace_row j (g v) (tbl_rows t)\<rparr>)"
proof -
  have "\<forall>r \<in> set (tbl_rows t). fst r = j \<longrightarrow> snd r = v"
    using assms by (auto simp: tbl_wf_def tbl_abs_def row_ids_def dest: eq_key_imp_eq_value)
  moreover have "length (filter (\<lambda>r. fst r = j) (tbl_rows t)) = 1"
    using assms by (intro count_row_distinct) (auto simp: tbl_wf_def tbl_abs_def dom_map_of_row_ids [symmetric])
  ultimately show ?thesis by (simp add: tbl_update_cols_def replace_row_def)
qed

lemma tbl_update_cols_absent:
  "j \<notin> set (row_ids (tbl_rows t)) \<Longrightarrow> tbl_update_cols True j g t = (Inr 0, t)"
proof -
  assume a: "j \<notin> set (row_ids (tbl_rows t))"
  then have "map (\<lambda>r. if fst r = j then (j, g (snd r)) else r) (tbl_rows t) = tbl_rows t"
    by (intro map_idI) (auto simp: row_ids_def)
  with a show ?thesis by (auto simp: tbl_update_cols_def row_ids_def filter_empty_conv image_iff)
qed

lemma tbl_update_cols_ids [simp]:
  "row_ids (map (\<lambda>r. if fst r = i then (i, g (snd r)) else r) rs) = row_ids rs"
  by (simp add: row_ids_def)

lemma tbl_update_cols_wf: "tbl_wf t \<Longrightarrow> tbl_update_cols ok j g t = (r, t') \<Longrightarrow> tbl_wf t'"
  by (auto simp: tbl_update_cols_def tbl_wf_def split: if_splits)

lemma tbl_update_cols_fresh: "tbl_fresh t \<Longrightarrow> tbl_update_cols ok j g t = (r, t') \<Longrightarrow> tbl_fresh t'"
  by (auto simp: tbl_update_cols_def tbl_fresh_def split: if_splits)

lemma tbl_update_cols_grows: "tbl_update_cols ok j g t = (r, t') \<Longrightarrow> tbl_grows t t'"
  by (auto simp: tbl_update_cols_def tbl_grows_def split: if_splits)

lemma tbl_delete_idem [simp]: "tbl_delete i (tbl_delete i t) = tbl_delete i t"
  by (simp add: tbl_delete_def drop_row_def)

section \<open>Invariants of every interleaving\<close>

lemma job_step_tables:
  assumes "job_step adapt upd d j t = (j', t')"
  shows "(tbl_wf t \<longrightarrow> tbl_wf t') \<and> (tbl_wf t \<and> tbl_fresh t \<longrightarrow> tbl_fresh t') \<and> tbl_grows t t'"
  using assms
proof (cases j)
  case (CreateStart f)
  then show ?thesis
    using assms tbl_insert_wf tbl_insert_fresh tbl_insert_grows
    by (fastforce split: prod.splits sum.splits)
next
  case (UpdateFlush k old f)
  then show ?thesis
    using assms tbl_update_cols_wf tbl_update_cols_fresh tbl_update_cols_grows
    by (fastforce split: prod.splits sum.splits if_splits)
qed (auto simp: tbl_delete_wf tbl_delete_fresh tbl_delete_grows split: option.splits if_splits)

lemma conc_step_tables:
  "conc_step adapt upd d s s' \<Longrightarrow>
     (tbl_wf (snd s) \<longrightarrow> tbl_wf (snd s')) \<and> (tbl_wf (snd s) \<and> tbl_fresh (snd s) \<longrightarrow> tbl_fresh (snd s'))
     \<and> tbl_grows (snd s) (snd s')"
  by (erule conc_stepE) (simp add: job_step_tables)

lemma conc_steps_tables:
  "(conc_step adapt upd d)\<^sup>*\<^sup>* s s' \<Longrightarrow>
     (tbl_wf (snd s) \<longrightarrow> tbl_wf (snd s')) \<and> (tbl_wf (snd s) \<and> tbl_fresh (snd s) \<longrightarrow> tbl_fresh (snd s'))
     \<and> tbl_grows (snd s) (snd s')"
proof (induction rule: rtranclp_induct)
  case (step y z)
  then show ?case using conc_step_tables [of adapt upd d y z] tbl_grows_trans by blast
qed simp

section \<open>Every interleaving ends\<close>

primrec job_rank :: "'f job \<Rightarrow> nat" where
  "job_rank (CreateStart f) = 2"
| "job_rank (CreateRefresh i) = 1"
| "job_rank ListStart = 1"
| "job_rank (GetStart i) = 1"
| "job_rank (UpdateStart i f) = 3"
| "job_rank (UpdateFlush j old f) = 2"
| "job_rank (RefreshPending j) = 1"
| "job_rank (DeleteStart i) = 2"
| "job_rank (DeleteFlush r) = 1"
| "job_rank (Finished r) = 0"
| "job_rank (Listed rs) = 0"

definition jobs_rank :: "'f job list \<Rightarrow> nat" where
  "jobs_rank js = sum_list (map job_rank js)"

lemma job_step_rank:
  "\<not> job_done j \<Longrightarrow> job_rank (fst (job_step adapt upd d j t)) < job_rank j"
  by (cases j) (auto simp: job_done_def split: option.split prod.split sum.split)

lemma sum_list_update_nat:
  "k < length xs \<Longrightarrow> sum_list (xs[k := x]) + xs ! k = sum_list xs + (x :: nat)"
  by (induction xs arbitrary: k) (auto split: nat.split)

lemma conc_step_rank:
  "conc_step adapt upd d s s' \<Longrightarrow> jobs_rank (fst s') < jobs_rank (fst s)"
proof (erule conc_stepE)
  fix k js t j' t'
  assume s: "s = (js, t)" "s' = (js[k := j'], t')" and k: "k < length js"
    and nd: "\<not> job_done (js ! k)" and st: "job_step adapt upd d (js ! k) t = (j', t')"
  have "job_rank j' < job_rank (js ! k)" using job_step_rank [OF nd, of adapt upd d t] st by simp
  then show ?thesis
    using sum_list_update_nat [of k "map job_rank js" "job_rank j'"] k s
    by (simp add: jobs_rank_def map_update)
qed

lemma conc_step_progress:
  "k < length js \<Longrightarrow> \<not> job_done (js ! k) \<Longrightarrow> \<exists>s'. conc_step adapt upd d (js, t) s'"
  by (cases "job_step adapt upd d (js ! k) t") (blast intro: conc_step.intros)

lemma conc_steps_next:
  assumes "(conc_step adapt upd d)\<^sup>*\<^sup>* s (js, t)" "k < length js" "\<not> job_done (js ! k)"
    "(js', t') = (js[k := fst (job_step adapt upd d (js ! k) t)], snd (job_step adapt upd d (js ! k) t))"
  shows "(conc_step adapt upd d)\<^sup>*\<^sup>* s (js', t')"
proof -
  have "conc_step adapt upd d (js, t) (js', t')"
    using assms(2-4) by (cases "job_step adapt upd d (js ! k) t") (simp add: conc_step.intros)
  with assms(1) show ?thesis by (rule rtranclp.rtrancl_into_rtrancl)
qed


lemma job_run_create:
  "job_run 2 adapt upd d (CreateStart f) t = (Finished (fst (crud_create adapt f t)), snd (crud_create adapt f t))"
  by (simp add: crud_create_def numeral_2_eq_2 split: prod.split sum.split)

lemma job_run_read:
  "job_run 1 adapt upd d (GetStart i) t = (Finished (crud_get d i t), t)"
  "job_run 1 adapt upd d ListStart t = (Listed (crud_list t), t)"
  by (simp_all add: One_nat_def)

lemma tbl_insert_ok:
  assumes "adapt f" "tbl_next t \<le> serial_max" "tbl_next t \<notin> set (row_ids (tbl_rows t))"
  shows "tbl_insert adapt f t = (Inr (tbl_next t, f),
           \<lparr>tbl_rows = tbl_rows t @ [(tbl_next t, f)], tbl_next = tbl_next t + 1\<rparr>)"
  by (cases rule: tbl_insert_cases [of adapt f t]) (use assms in simp_all)

section \<open>The phases of an update on a row that is there\<close>

lemma job_step_start_found:
  "tbl_wf t \<Longrightarrow> tbl_abs t i = Some v \<Longrightarrow> v \<noteq> f \<Longrightarrow>
     job_step adapt upd d (UpdateStart i f) t = (UpdateFlush i v f, t)"
  by (simp add: tbl_first_wf)

lemma job_step_flush_found:
  "tbl_wf t \<Longrightarrow> tbl_abs t j = Some v \<Longrightarrow> adapt f \<Longrightarrow>
     job_step adapt upd d (UpdateFlush j old f) t =
       (RefreshPending j, t\<lparr>tbl_rows := replace_row j (upd old f v) (tbl_rows t)\<rparr>)"
  by (simp add: tbl_update_cols_found)

lemma job_step_refresh_found:
  "tbl_wf t \<Longrightarrow> tbl_abs t j = Some v \<Longrightarrow> job_step adapt upd d (RefreshPending j) t = (Finished (Inr (j, v)), t)"
  by (simp add: crud_refresh_eq)

lemma replace_found:
  assumes "tbl_wf t" "tbl_abs t j = Some v"
  shows "tbl_wf (t\<lparr>tbl_rows := replace_row j w (tbl_rows t)\<rparr>)
    \<and> tbl_abs (t\<lparr>tbl_rows := replace_row j w (tbl_rows t)\<rparr>) = (tbl_abs t)(j \<mapsto> w)"
  using tbl_wf_replace [OF assms(1)] tbl_abs_replace [OF assms(2)] by simp

section \<open>Every interleaving can finish\<close>

lemma conc_stuck_done:
  assumes "\<nexists>s'. conc_step adapt upd d (js, t) s'"
  shows "list_all job_done js"
  unfolding list_all_length
proof (intro allI impI)
  fix k assume "k < length js"
  then show "job_done (js ! k)" using conc_step_progress [of k js] assms by blast
qed

lemma conc_can_finish:
  "\<exists>s'. (conc_step adapt upd d)\<^sup>*\<^sup>* s s' \<and> list_all job_done (fst s')"
proof (induction "jobs_rank (fst s)" arbitrary: s rule: less_induct)
  case less
  obtain js t where s: "s = (js, t)" by (cases s)
  show ?case
  proof (cases "list_all job_done js")
    case True
    have "(conc_step adapt upd d)\<^sup>*\<^sup>* s s" by (rule rtranclp.rtrancl_refl)
    with True s show ?thesis by auto
  next
    case False
    then obtain s' where st: "conc_step adapt upd d (js, t) s'"
      using conc_stuck_done [of adapt upd d js t] by blast
    have "jobs_rank (fst s') < jobs_rank (fst s)" using conc_step_rank [OF st] s by simp
    then obtain s'' where r: "(conc_step adapt upd d)\<^sup>*\<^sup>* s' s''" and dn: "list_all job_done (fst s'')"
      using less by blast
    have "(conc_step adapt upd d)\<^sup>*\<^sup>* s s''"
      using converse_rtranclp_into_rtranclp [OF st r] s by simp
    with dn show ?thesis by blast
  qed
qed

end
