(* ===== verification/Router.thy ===== *)
theory Router
  imports Prelude
begin

text \<open>
  How the application object routes a request. Each \<open>@app.get(path)\<close>,
  \<open>@app.post\<close>, \<open>@app.put\<close> and \<open>@app.delete\<close> decorator of
  \<open>src/main.py\<close> appends a route: a path template, the methods it serves
  and the path operation function. A template \<open>"/categories/{category_id}"\<close>
  compiles to the pattern \<open>^/categories/(?P<category_id>[^/]+)$\<close>: the
  literal prefix, then a parameter of one or more characters other than
  \<open>/\<close> up to the end. Starlette's \<open>Router\<close> then
  \<^item> takes the first route whose pattern and method both match;
  \<^item> otherwise, if some route's pattern matches with another method, answers
    405 Method Not Allowed;
  \<^item> otherwise (\<open>redirect_slashes\<close>, for a path other than \<open>/\<close>) tries the
    path with its trailing slashes removed, or with one slash added when it
    has none, and redirects (307) when any route's pattern matches that;
  \<^item> otherwise answers 404 Not Found.
  The documentation routes FastAPI registers itself (\<open>/docs\<close>,
  \<open>/redoc\<close>, \<open>/openapi.json\<close>) are not modelled; none of them matches a
  path the theorems below are about.
\<close>

datatype http_method = GET | POST | PUT | DELETE | OtherMethod string

datatype entity = Categories | Places | Images | Videos

datatype action = Create | ReadAll | ReadOne | Update | Delete

datatype endpoint = Endpoint entity action

datatype path_tpl =
    Fixed string    \<comment> \<open>a template without parameter\<close>
  | Param string    \<comment> \<open>a literal prefix followed by one parameter\<close>

record route =
  rt_path :: path_tpl
  rt_methods :: "http_method list"
  rt_endpoint :: endpoint

definition tpl_match :: "path_tpl \<Rightarrow> string \<Rightarrow> string option option" where
  "tpl_match tp s =
     (case tp of
        Fixed p \<Rightarrow> if s = p then Some None else None
      | Param p \<Rightarrow>
          (let rest = drop (length p) s in
           if take (length p) s = p \<and> rest \<noteq> [] \<and> CHR ''/'' \<notin> set rest
           then Some (Some rest) else None))"

datatype match = NoMatch | Partial | Full "string option"

definition route_matches :: "route \<Rightarrow> http_method \<Rightarrow> string \<Rightarrow> match" where
  "route_matches r m s =
     (case tpl_match (rt_path r) s of
        None \<Rightarrow> NoMatch
      | Some v \<Rightarrow> if m \<in> set (rt_methods r) then Full v else Partial)"

text \<open>The route table, in the order of the decorators in \<open>src/main.py\<close>.\<close>

definition app_routes :: "route list" where
  "app_routes =
    [\<lparr>rt_path = Fixed ''/categories'', rt_methods = [POST], rt_endpoint = Endpoint Categories Create\<rparr>,
     \<lparr>rt_path = Fixed ''/categories'', rt_methods = [GET], rt_endpoint = Endpoint Categories ReadAll\<rparr>,
     \<lparr>rt_path = Param ''/categories/'', rt_methods = [GET], rt_endpoint = Endpoint Categories ReadOne\<rparr>,
     \<lparr>rt_path = Param ''/categories/'', rt_methods = [PUT], rt_endpoint = Endpoint Categories Update\<rparr>,
     \<lparr>rt_path = Param ''/categories/'', rt_methods = [DELETE], rt_endpoint = Endpoint Categories Delete\<rparr>,
     \<lparr>rt_path = Fixed ''/places'', rt_methods = [POST], rt_endpoint = Endpoint Places Create\<rparr>,
     \<lparr>rt_path = Fixed ''/places'', rt_methods = [GET], rt_endpoint = Endpoint Places ReadAll\<rparr>,
     \<lparr>rt_path = Param ''/places'', rt_methods = [GET], rt_endpoint = Endpoint Places ReadOne\<rparr>,
     \<lparr>rt_path = Param ''/places'', rt_methods = [PUT], rt_endpoint = Endpoint Places Update\<rparr>,
     \<lparr>rt_path = Param ''/places'', rt_methods = [DELETE], rt_endpoint = Endpoint Places Delete\<rparr>,
     \<lparr>rt_path = Fixed ''/images'', rt_methods = [POST], rt_endpoint = Endpoint Images Create\<rparr>,
     \<lparr>rt_path = Fixed ''/images'', rt_methods = [GET], rt_endpoint = Endpoint Images ReadAll\<rparr>,
     \<lparr>rt_path = Param ''/images'', rt_methods = [GET], rt_endpoint = Endpoint Images ReadOne\<rparr>,
     \<lparr>rt_path = Param ''/images'', rt_methods = [PUT], rt_endpoint = Endpoint Images Update\<rparr>,
     \<lparr>rt_path = Param ''/images'', rt_methods = [DELETE], rt_endpoint = Endpoint Images Delete\<rparr>,
     \<lparr>rt_path = Fixed ''/videos'', rt_methods = [POST], rt_endpoint = Endpoint Videos Create\<rparr>,
     \<lparr>rt_path = Fixed ''/videos'', rt_methods = [GET], rt_endpoint = Endpoint Videos ReadAll\<rparr>,
     \<lparr>rt_path = Param ''/videos'', rt_methods = [GET], rt_endpoint = Endpoint Videos ReadOne\<rparr>,
     \<lparr>rt_path = Param ''/videos'', rt_methods = [PUT], rt_endpoint = Endpoint Videos Update\<rparr>,
     \<lparr>rt_path = Param ''/videos'', rt_methods = [DELETE], rt_endpoint = Endpoint Videos Delete\<rparr>]"

datatype routed =
    Dispatch endpoint "string option"
  | MethodNotAllowed
  | RedirectTo string
  | NoRoute

fun first_full :: "route list \<Rightarrow> http_method \<Rightarrow> string \<Rightarrow> (endpoint \<times> string option) option" where
  "first_full [] m s = None"
| "first_full (r # rs) m s =
     (case route_matches r m s of
        Full v \<Rightarrow> Some (rt_endpoint r, v)
      | _ \<Rightarrow> first_full rs m s)"

definition redirect_path :: "string \<Rightarrow> string" where
  "redirect_path s =
     (if s \<noteq> [] \<and> last s = CHR ''/'' then rev (dropWhile (\<lambda>c. c = CHR ''/'') (rev s))
      else s @ ''/'')"

definition route_request :: "route list \<Rightarrow> http_method \<Rightarrow> string \<Rightarrow> routed" where
  "route_request rs m s =
     (case first_full rs m s of
        Some (e, v) \<Rightarrow> Dispatch e v
      | None \<Rightarrow>
          if list_ex (\<lambda>r. route_matches r m s = Partial) rs then MethodNotAllowed
          else if s \<noteq> ''/'' \<and> list_ex (\<lambda>r. route_matches r m (redirect_path s) \<noteq> NoMatch) rs
          then RedirectTo (redirect_path s)
          else NoRoute)"

section \<open>Evaluation\<close>

lemmas route_eval = route_request_def app_routes_def route_matches_def tpl_match_def redirect_path_def

end
