(* ===== verification/App.thy ===== *)
theory App
  imports Handlers Router
begin

text \<open>
  The application: a request is routed (theory \<open>Router\<close>); a request that
  reaches a path operation gets a session from \<open>get_db\<close>, its path
  parameter and body are validated, the handler runs on its model's table,
  and the returned object is read through the \<open>response_model\<close>. The five
  operations of a resource meet the application through the record
  \<open>('f, 'c) resource\<close>: the request model's parser, the handlers, the
  response model and its JSON form, the path parameter's name.
\<close>

record ('f, 'c) resource =
  res_param :: string
  res_parse :: "json option \<Rightarrow> field_error list + 'c"
  res_create :: "'c \<Rightarrow> 'f table \<Rightarrow> (api_error + 'f row) \<times> 'f table"
  res_list :: "'f table \<Rightarrow> 'f row list"
  res_get :: "row_id \<Rightarrow> 'f table \<Rightarrow> api_error + 'f row"
  res_update :: "row_id \<Rightarrow> 'c \<Rightarrow> 'f table \<Rightarrow> (api_error + 'f row) \<times> 'f table"
  res_delete :: "row_id \<Rightarrow> 'f table \<Rightarrow> (api_error + 'f row) \<times> 'f table"
  res_out :: "'f row \<Rightarrow> field_error list + 'c"
  res_json :: "'c \<Rightarrow> json"

definition category_resource :: "(category, category_create) resource" where
  "category_resource =
     \<lparr>res_param = ''category_id'', res_parse = parse_category_create,
      res_create = create_category, res_list = get_categories, res_get = get_category,
      res_update = update_category, res_delete = delete_category,
      res_out = category_response, res_json = category_create_json\<rparr>"

definition place_resource :: "(place, place_create) resource" where
  "place_resource =
     \<lparr>res_param = ''place_id'', res_parse = parse_place_create,
      res_create = create_place, res_list = get_places, res_get = get_place,
      res_update = update_place, res_delete = delete_place,
      res_out = place_response, res_json = place_create_json\<rparr>"

definition image_resource :: "(image, image_create) resource" where
  "image_resource =
     \<lparr>res_param = ''image_id'', res_parse = parse_image_create,
      res_create = create_image, res_list = get_images, res_get = get_image,
      res_update = update_image, res_delete = delete_image,
      res_out = image_response, res_json = image_create_json\<rparr>"

definition video_resource :: "(video, video_create) resource" where
  "video_resource =
     \<lparr>res_param = ''video_id'', res_parse = parse_video_create,
      res_create = create_video, res_list = get_videos, res_get = get_video,
      res_update = update_video, res_delete = delete_video,
      res_out = video_response, res_json = video_create_json\<rparr>"

section \<open>Responses\<close>

datatype payload = Json json | Text string | Location string

record response =
  status :: nat
  payload :: payload

datatype req_error = PathNotInt string | BodyError field_error

fun req_error_json :: "req_error \<Rightarrow> json" where
  "req_error_json (PathNotInt k) =
     JObj [(''loc'', JArr [JStr ''path'', JStr k]), (''msg'', JStr ''value is not a valid integer'')]"
| "req_error_json (BodyError BodyRequired) =
     JObj [(''loc'', JArr [JStr ''body'']), (''msg'', JStr ''field required'')]"
| "req_error_json (BodyError (FieldRequired k)) =
     JObj [(''loc'', JArr [JStr ''body'', JStr k]), (''msg'', JStr ''field required'')]"
| "req_error_json (BodyError (NoneNotAllowed k)) =
     JObj [(''loc'', JArr [JStr ''body'', JStr k]), (''msg'', JStr ''none is not an allowed value'')]"
| "req_error_json (BodyError (StrTypeExpected k)) =
     JObj [(''loc'', JArr [JStr ''body'', JStr k]), (''msg'', JStr ''str type expected'')]"

definition detail_response :: "nat \<Rightarrow> string \<Rightarrow> response" where
  "detail_response n d = \<lparr>status = n, payload = Json (JObj [(''detail'', JStr d)])\<rparr>"

definition server_error :: response where
  "server_error = \<lparr>status = 500, payload = Text ''Internal Server Error''\<rparr>"

definition unprocessable :: "req_error list \<Rightarrow> response" where
  "unprocessable es = \<lparr>status = 422, payload = Json (JObj [(''detail'', JArr (map req_error_json es))])\<rparr>"

definition ok_response :: "json \<Rightarrow> response" where
  "ok_response j = \<lparr>status = 200, payload = Json j\<rparr>"

text \<open>An exception of a handler: \<open>HTTPException\<close> becomes its status and detail, anything else a 500.\<close>

fun error_response :: "api_error \<Rightarrow> response" where
  "error_response (HTTPNotFound d) = detail_response 404 d"
| "error_response _ = server_error"

text \<open>The \<open>response_model\<close>: a returned object that fails it is a 500.\<close>

definition out_one :: "('f, 'c) resource \<Rightarrow> 'f row \<Rightarrow> response" where
  "out_one res r = (case res_out res r of Inl _ \<Rightarrow> server_error | Inr c \<Rightarrow> ok_response (res_json res c))"

definition out_result :: "('f, 'c) resource \<Rightarrow> api_error + 'f row \<Rightarrow> response" where
  "out_result res x = (case x of Inl e \<Rightarrow> error_response e | Inr r \<Rightarrow> out_one res r)"

definition out_list :: "('f, 'c) resource \<Rightarrow> 'f row list \<Rightarrow> response" where
  "out_list res rs =
     (if list_all (\<lambda>r. \<not> isl (res_out res r)) rs
      then ok_response (JArr (map (\<lambda>r. res_json res (projr (res_out res r))) rs))
      else server_error)"

section \<open>One path operation\<close>

definition path_id :: "('f, 'c) resource \<Rightarrow> string option \<Rightarrow> req_error list + row_id" where
  "path_id res p =
     (case p of None \<Rightarrow> Inl [PathNotInt (res_param res)]
      | Some s \<Rightarrow> (case py_int s of None \<Rightarrow> Inl [PathNotInt (res_param res)] | Some i \<Rightarrow> Inr i))"

definition body_model :: "('f, 'c) resource \<Rightarrow> json option \<Rightarrow> req_error list + 'c" where
  "body_model res b = map_sum (map BodyError) id (res_parse res b)"

text \<open>
  A validated call of a path operation: the arguments the function receives.
  FastAPI validates all parameters of the operation and reports every error
  at once (path parameter first, then the body); the function runs only when
  there is none.
\<close>

datatype 'c call =
    CallCreate 'c
  | CallList
  | CallGet row_id
  | CallUpdate row_id 'c
  | CallDelete row_id

definition validate_call ::
  "('f, 'c) resource \<Rightarrow> action \<Rightarrow> string option \<Rightarrow> json option \<Rightarrow> req_error list + 'c call" where
  "validate_call res a p b =
     (case a of
        Create \<Rightarrow> map_sum id CallCreate (body_model res b)
      | ReadAll \<Rightarrow> Inr CallList
      | ReadOne \<Rightarrow> map_sum id CallGet (path_id res p)
      | Update \<Rightarrow> map_sum id (\<lambda>(i, c). CallUpdate i c) (both (path_id res p) (body_model res b))
      | Delete \<Rightarrow> map_sum id CallDelete (path_id res p))"

text \<open>The function body and the \<open>response_model\<close>, on an existing table.\<close>

fun exec_call :: "('f, 'c) resource \<Rightarrow> 'c call \<Rightarrow> 'f table \<Rightarrow> response \<times> 'f table" where
  "exec_call res (CallCreate c) t = (let (x, t') = res_create res c t in (out_result res x, t'))"
| "exec_call res CallList t = (out_list res (res_list res t), t)"
| "exec_call res (CallGet i) t = (out_result res (res_get res i t), t)"
| "exec_call res (CallUpdate i c) t = (let (x, t') = res_update res i c t in (out_result res x, t'))"
| "exec_call res (CallDelete i) t = (let (x, t') = res_delete res i t in (out_result res x, t'))"

text \<open>A table that does not exist makes the first statement fail.\<close>

definition run_operation ::
  "('f, 'c) resource \<Rightarrow> action \<Rightarrow> string option \<Rightarrow> json option \<Rightarrow> 'f table option
     \<Rightarrow> response \<times> 'f table option" where
  "run_operation res a p b tbl =
     (case validate_call res a p b of
        Inl es \<Rightarrow> (unprocessable es, tbl)
      | Inr c \<Rightarrow>
          (case tbl of
             None \<Rightarrow> (server_error, None)
           | Some t \<Rightarrow> (let (r, t') = exec_call res c t in (r, Some t'))))"

section \<open>The service\<close>

text \<open>
  The state of the running service: the database and the sessions
  \<open>SessionLocal()\<close> has opened so far and how many of them are still open.
\<close>

record service =
  svc_db :: database
  svc_opened :: nat
  svc_open :: nat

text \<open>\<open>get_db\<close>: a new session around the operation, closed in \<open>finally\<close>.\<close>

definition get_db ::
  "(database \<Rightarrow> response \<times> database) \<Rightarrow> service \<Rightarrow> response \<times> service" where
  "get_db f s =
     (let s1 = s\<lparr>svc_opened := svc_opened s + 1, svc_open := svc_open s + 1\<rparr>;
          (resp, db') = f (svc_db s1)
      in (resp, s1\<lparr>svc_db := db', svc_open := svc_open s1 - 1\<rparr>))"

definition run_endpoint ::
  "entity \<Rightarrow> action \<Rightarrow> string option \<Rightarrow> json option \<Rightarrow> database \<Rightarrow> response \<times> database" where
  "run_endpoint e a p b db =
     (case e of
        Categories \<Rightarrow> (let (r, t) = run_operation category_resource a p b (db_categories db)
                       in (r, db\<lparr>db_categories := t\<rparr>))
      | Places \<Rightarrow> (let (r, t) = run_operation place_resource a p b (db_places db)
                   in (r, db\<lparr>db_places := t\<rparr>))
      | Images \<Rightarrow> (let (r, t) = run_operation image_resource a p b (db_images db)
                   in (r, db\<lparr>db_images := t\<rparr>))
      | Videos \<Rightarrow> (let (r, t) = run_operation video_resource a p b (db_videos db)
                   in (r, db\<lparr>db_videos := t\<rparr>)))"

record request =
  req_method :: http_method
  req_path :: string
  req_body :: "json option"

definition serve :: "request \<Rightarrow> service \<Rightarrow> response \<times> service" where
  "serve rq s =
     (case route_request app_routes (req_method rq) (req_path rq) of
        NoRoute \<Rightarrow> (detail_response 404 ''Not Found'', s)
      | MethodNotAllowed \<Rightarrow> (detail_response 405 ''Method Not Allowed'', s)
      | RedirectTo p \<Rightarrow> (\<lparr>status = 307, payload = Location p\<rparr>, s)
      | Dispatch (Endpoint e a) p \<Rightarrow> get_db (run_endpoint e a p (req_body rq)) s)"

text \<open>Start-up: importing \<open>models\<close> runs \<open>create_all\<close>; no session is open.\<close>

definition startup :: "database \<Rightarrow> service" where
  "startup db = \<lparr>svc_db = create_all db, svc_opened = 0, svc_open = 0\<rparr>"

fun serve_all :: "request list \<Rightarrow> service \<Rightarrow> response list \<times> service" where
  "serve_all [] s = ([], s)"
| "serve_all (rq # rqs) s =
     (let (r, s') = serve rq s; (rs, s'') = serve_all rqs s' in (r # rs, s''))"

section \<open>The resources are instances of the shared handler shape\<close>

definition crud_resource ::
  "string \<Rightarrow> (json option \<Rightarrow> field_error list + 'c) \<Rightarrow> ('f \<Rightarrow> bool) \<Rightarrow> ('c \<Rightarrow> 'f) \<Rightarrow> string
     \<Rightarrow> ('f row \<Rightarrow> field_error list + 'c) \<Rightarrow> ('c \<Rightarrow> json) \<Rightarrow> ('f, 'c) resource" where
  "crud_resource param parse adapt mk detail out js =
     \<lparr>res_param = param, res_parse = parse,
      res_create = (\<lambda>c t. crud_create adapt (mk c) t), res_list = crud_list,
      res_get = crud_get detail, res_update = (\<lambda>i c t. crud_update adapt detail i (mk c) t),
      res_delete = crud_delete detail, res_out = out, res_json = js\<rparr>"

lemma category_resource_crud:
  "category_resource = crud_resource ''category_id'' parse_category_create category_adapt
     category_of ''Category not found'' category_response category_create_json"
  by (simp add: category_resource_def crud_resource_def create_category_def get_categories_def
      get_category_def update_category_def delete_category_def fun_eq_iff)

lemma place_resource_crud:
  "place_resource = crud_resource ''place_id'' parse_place_create place_adapt
     place_of ''Place not found'' place_response place_create_json"
  by (simp add: place_resource_def crud_resource_def create_place_def get_places_def
      get_place_def update_place_def delete_place_def fun_eq_iff)

lemma image_resource_crud:
  "image_resource = crud_resource ''image_id'' parse_image_create image_adapt
     image_of ''Image not found'' image_response image_create_json"
  by (simp add: image_resource_def crud_resource_def create_image_def get_images_def
      get_image_def update_image_def delete_image_def fun_eq_iff)

lemma video_resource_crud:
  "video_resource = crud_resource ''video_id'' parse_video_create video_adapt
     video_of ''Video not found'' video_response video_create_json"
  by (simp add: video_resource_def crud_resource_def create_video_def get_videos_def
      get_video_def update_video_def delete_video_def fun_eq_iff)

lemmas resources_crud = category_resource_crud place_resource_crud image_resource_crud
  video_resource_crud

section \<open>What one operation does to its table\<close>

lemma exec_call_crud_tables:
  assumes "exec_call (crud_resource pm ps ad mk d out js) c t = (r, t')"
  shows "(tbl_wf t \<longrightarrow> tbl_wf t') \<and> (tbl_wf t \<and> tbl_fresh t \<longrightarrow> tbl_fresh t') \<and> tbl_grows t t'"
  using assms
  by (cases c)
     (auto simp: crud_resource_def split: prod.splits
        intro: crud_create_wf crud_create_fresh crud_update_wf crud_update_fresh
          crud_delete_wf crud_delete_fresh crud_create_grows crud_update_grows crud_delete_grows)

lemma run_operation_cases:
  assumes "run_operation res a p b tbl = (r, tbl')"
  obtains (same) "tbl' = tbl"
  | (exec) c t t' where "tbl = Some t" "tbl' = Some t'" "validate_call res a p b = Inr c"
      "exec_call res c t = (r, t')"
  using assms
  by (auto simp: run_operation_def split: sum.splits option.splits prod.splits)

lemma run_operation_crud_tables:
  assumes "run_operation (crud_resource pm ps ad mk d out js) a p b tbl = (r, tbl')"
  shows "(opt_wf tbl_wf tbl \<longrightarrow> opt_wf tbl_wf tbl')
    \<and> (opt_wf tbl_wf tbl \<and> opt_wf tbl_fresh tbl \<longrightarrow> opt_wf tbl_fresh tbl')
    \<and> opt_rel tbl_grows tbl tbl'"
  using assms
proof (cases rule: run_operation_cases)
  case same
  then show ?thesis by simp
next
  case (exec c t t')
  then show ?thesis using exec_call_crud_tables [OF exec(4)] by simp
qed

lemma run_endpoint_tables:
  assumes "run_endpoint e a p b db = (r, db')"
  shows "(db_wf db \<longrightarrow> db_wf db') \<and> (db_wf db \<and> db_fresh db \<longrightarrow> db_fresh db') \<and> db_grows db db'"
  using assms
  by (cases e)
     (auto simp: run_endpoint_def db_wf_def db_fresh_def db_grows_def resources_crud
        split: prod.splits dest!: run_operation_crud_tables)

section \<open>Sessions and the service state\<close>

lemma get_db_state:
  assumes "get_db f s = (r, s')"
  shows "svc_open s' = svc_open s \<and> svc_opened s' = Suc (svc_opened s) \<and> f (svc_db s) = (r, svc_db s')"
  using assms by (auto simp: get_db_def split: prod.splits)

lemma serve_cases:
  assumes "serve rq s = (r, s')"
  obtains (unrouted) "s' = s"
  | (dispatched) e a p where "route_request app_routes (req_method rq) (req_path rq) = Dispatch (Endpoint e a) p"
      "get_db (run_endpoint e a p (req_body rq)) s = (r, s')"
  using assms
  by (auto simp: serve_def split: routed.splits endpoint.splits)

lemma serve_tables:
  assumes "serve rq s = (r, s')"
  shows "(db_wf (svc_db s) \<longrightarrow> db_wf (svc_db s'))
    \<and> (db_wf (svc_db s) \<and> db_fresh (svc_db s) \<longrightarrow> db_fresh (svc_db s'))
    \<and> db_grows (svc_db s) (svc_db s')"
  using assms
proof (cases rule: serve_cases)
  case unrouted
  then show ?thesis by simp
next
  case (dispatched e a p)
  then have "run_endpoint e a p (req_body rq) (svc_db s) = (r, svc_db s')"
    by (simp add: get_db_state)
  then show ?thesis by (rule run_endpoint_tables)
qed

lemma serve_all_tables:
  assumes "serve_all rqs s = (rs, s')"
  shows "(db_wf (svc_db s) \<longrightarrow> db_wf (svc_db s'))
    \<and> (db_wf (svc_db s) \<and> db_fresh (svc_db s) \<longrightarrow> db_fresh (svc_db s'))
    \<and> db_grows (svc_db s) (svc_db s')"
  using assms
proof (induction rqs arbitrary: s rs)
  case Nil
  then show ?case by simp
next
  case (Cons rq rqs)
  obtain r s1 where s1: "serve rq s = (r, s1)" by fastforce
  obtain rs' where rest: "serve_all rqs s1 = (rs', s')"
    using Cons.prems s1 by (auto split: prod.splits)
  from serve_tables [OF s1] Cons.IH [OF rest] show ?case
    by (blast intro: db_grows_trans)
qed

lemma startup_wf: "db_wf (svc_db (startup db)) \<longleftrightarrow> db_wf db"
  by (simp add: startup_def create_all_def db_wf_def ensure_table_def empty_table_wf split: option.split)

text \<open>The equations that evaluate a request on concrete data.\<close>

lemmas app_eval = serve_def startup_def create_all_def no_tables_def route_request_def app_routes_def
  route_matches_def tpl_match_def redirect_path_def get_db_def run_endpoint_def run_operation_def
  validate_call_def path_id_def body_model_def category_resource_def
  parse_category_create_def two_str_fields_def field_str_def json_lookup_def
  create_category_def get_category_def delete_category_def crud_create_def crud_get_def crud_delete_def
  tbl_insert_def tbl_nextval_def tbl_first_def crud_refresh_def empty_table_def serial_max_def
  out_result_def out_one_def ok_response_def detail_response_def category_of_def category_adapt_def opt_text_ok_def
  tbl_delete_def drop_row_def py_int_ascii_text py_int_ascii_def py_strip_def digits_val_def digit_val_def is_digit_def char_code_def py_space_def
  category_create_json_def

lemma route_places_item:
  "route_request app_routes GET (''/places'' @ int_str i) = Dispatch (Endpoint Places ReadOne) (Some (int_str i))"
  by (simp add: route_eval)

lemma route_categories_create:
  "route_request app_routes POST ''/categories'' = Dispatch (Endpoint Categories Create) None"
  by (simp add: route_eval)

section \<open>Columns that are never NULL through the API\<close>

lemma run_operation_crud_rows_all:
  assumes "run_operation (crud_resource pm ps ad mk d out js) a p b tbl = (r, tbl')"
    "\<forall>c. P (mk c)" "opt_wf (tbl_rows_all P) tbl"
  shows "opt_wf (tbl_rows_all P) tbl'"
  using assms(1)
proof (cases rule: run_operation_cases)
  case (exec c t t')
  then show ?thesis using assms(2,3)
    by (cases c)
       (auto simp: crud_resource_def split: prod.splits
         intro: crud_create_rows_all crud_update_rows_all crud_delete_rows_all)
qed (use assms(3) in simp)

definition db_no_nulls :: "database \<Rightarrow> bool" where
  "db_no_nulls db \<longleftrightarrow> opt_wf (tbl_rows_all (\<lambda>c. category_description c \<noteq> None)) (db_categories db)
     \<and> opt_wf (tbl_rows_all (\<lambda>p. place_location p \<noteq> None)) (db_places db)"

lemma run_endpoint_no_nulls:
  "run_endpoint e a p b db = (r, db') \<Longrightarrow> db_no_nulls db \<Longrightarrow> db_no_nulls db'"
  by (cases e)
     (auto simp: run_endpoint_def db_no_nulls_def resources_crud category_of_def place_of_def
        split: prod.splits elim!: run_operation_crud_rows_all)

lemma serve_no_nulls:
  assumes "serve rq s = (r, s')" "db_no_nulls (svc_db s)"
  shows "db_no_nulls (svc_db s')"
  using assms(1)
proof (cases rule: serve_cases)
  case (dispatched e a p)
  from get_db_state [OF dispatched(2)]
  have "run_endpoint e a p (req_body rq) (svc_db s) = (r, svc_db s')" by simp
  then show ?thesis using assms(2) by (rule run_endpoint_no_nulls)
qed (use assms(2) in simp)

end
