(* ===== verification/Concurrent_Service.thy ===== *)
theory Concurrent_Service
  imports Concurrency App
begin

text \<open>
  The whole service under concurrent requests, as the spec's scheduling
  model describes it: each request is handled independently and in
  parallel, acquires its own session, and releases it on every exit path.
  A request in flight is in one of three phases:
  \<^item> arrived, not yet routed;
  \<^item> running the statements of its handler (\<open>job_step\<close> of theory
    \<open>Concurrency\<close>) on its model's table, holding a session;
  \<^item> answered.
  Routing answers 404, 405 and 307 without a session. A request that
  reaches a path operation opens a session (\<open>get_db\<close>), is validated (422
  and the session closed when it fails), and then runs its handler one
  statement at a time. The response model is applied to the outcome, and
  the session is closed in the step that answers it. Requests on different
  tables and on the same table interleave freely between these steps.
\<close>

datatype req_phase =
    Arrived request
  | CatRun "category job"
  | PlaceRun "place job"
  | ImageRun "image job"
  | VideoRun "video job"
  | Answered response

definition answered :: "req_phase \<Rightarrow> bool" where
  "answered ph = (case ph of Answered _ \<Rightarrow> True | _ \<Rightarrow> False)"

definition in_session :: "req_phase \<Rightarrow> bool" where
  "in_session ph = (case ph of Arrived _ \<Rightarrow> False | Answered _ \<Rightarrow> False | _ \<Rightarrow> True)"

text \<open>The handler a validated call runs, as its first statement.\<close>

definition call_job :: "('c \<Rightarrow> 'f) \<Rightarrow> 'c call \<Rightarrow> 'f job" where
  "call_job mk c =
     (case c of CallCreate x \<Rightarrow> CreateStart (mk x) | CallList \<Rightarrow> ListStart | CallGet i \<Rightarrow> GetStart i
      | CallUpdate i x \<Rightarrow> UpdateStart i (mk x) | CallDelete i \<Rightarrow> DeleteStart i)"

text \<open>The \<open>response_model\<close> applied to what the handler returned.\<close>

definition job_answer :: "('f, 'c) resource \<Rightarrow> 'f job \<Rightarrow> response" where
  "job_answer res j = (case j of Finished x \<Rightarrow> out_result res x | Listed rs \<Rightarrow> out_list res rs | _ \<Rightarrow> server_error)"

text \<open>
  The start of a path operation on its table: the validation of its
  parameters, then the first statement's job, or the answer.
\<close>

definition table_start ::
  "('f, 'c) resource \<Rightarrow> ('c \<Rightarrow> 'f) \<Rightarrow> action \<Rightarrow> string option \<Rightarrow> json option \<Rightarrow> 'f table option
     \<Rightarrow> 'f job + response" where
  "table_start res mk a p b tbl =
     (case validate_call res a p b of
        Inl es \<Rightarrow> Inr (unprocessable es)
      | Inr c \<Rightarrow> (case tbl of None \<Rightarrow> Inr server_error | Some _ \<Rightarrow> Inl (call_job mk c)))"

text \<open>One statement of a running handler on its table.\<close>

definition table_step ::
  "('f \<Rightarrow> bool) \<Rightarrow> ('f \<Rightarrow> 'f \<Rightarrow> 'f \<Rightarrow> 'f) \<Rightarrow> string \<Rightarrow> ('f, 'c) resource \<Rightarrow> 'f job \<Rightarrow> 'f table option
     \<Rightarrow> ('f job + response) \<times> 'f table option" where
  "table_step adapt upd d res j tbl =
     (case tbl of
        None \<Rightarrow> (Inr server_error, None)
      | Some t \<Rightarrow> (case job_step adapt upd d j t of
                    (j', t') \<Rightarrow> (if job_done j' then Inr (job_answer res j') else Inl j', Some t')))"

text \<open>A request still running keeps its session; an answered one closes it.\<close>

definition settle :: "('j \<Rightarrow> req_phase) \<Rightarrow> 'j + response \<Rightarrow> service \<Rightarrow> req_phase \<times> service" where
  "settle run x s = (case x of Inl j \<Rightarrow> (run j, s) | Inr r \<Rightarrow> (Answered r, s\<lparr>svc_open := svc_open s - 1\<rparr>))"

definition start_request ::
  "entity \<Rightarrow> action \<Rightarrow> string option \<Rightarrow> json option \<Rightarrow> service \<Rightarrow> req_phase \<times> service" where
  "start_request e a p b s =
     (case e of
        Categories \<Rightarrow> settle CatRun (table_start category_resource category_of a p b (db_categories (svc_db s))) s
      | Places \<Rightarrow> settle PlaceRun (table_start place_resource place_of a p b (db_places (svc_db s))) s
      | Images \<Rightarrow> settle ImageRun (table_start image_resource image_of a p b (db_images (svc_db s))) s
      | Videos \<Rightarrow> settle VideoRun (table_start video_resource video_of a p b (db_videos (svc_db s))) s)"

text \<open>One step of one request on the shared service state.\<close>

fun req_step :: "req_phase \<Rightarrow> service \<Rightarrow> req_phase \<times> service" where
  "req_step (Arrived rq) s =
     (case route_request app_routes (req_method rq) (req_path rq) of
        NoRoute \<Rightarrow> (Answered (detail_response 404 ''Not Found''), s)
      | MethodNotAllowed \<Rightarrow> (Answered (detail_response 405 ''Method Not Allowed''), s)
      | RedirectTo p \<Rightarrow> (Answered \<lparr>status = 307, payload = Location p\<rparr>, s)
      | Dispatch (Endpoint e a) p \<Rightarrow>
          start_request e a p (req_body rq) (s\<lparr>svc_opened := svc_opened s + 1, svc_open := svc_open s + 1\<rparr>))"
| "req_step (CatRun j) s =
     (case table_step category_adapt category_merge ''Category not found'' category_resource j
             (db_categories (svc_db s)) of
        (x, tbl) \<Rightarrow> settle CatRun x (s\<lparr>svc_db := (svc_db s)\<lparr>db_categories := tbl\<rparr>\<rparr>))"
| "req_step (PlaceRun j) s =
     (case table_step place_adapt place_merge ''Place not found'' place_resource j (db_places (svc_db s)) of
        (x, tbl) \<Rightarrow> settle PlaceRun x (s\<lparr>svc_db := (svc_db s)\<lparr>db_places := tbl\<rparr>\<rparr>))"
| "req_step (ImageRun j) s =
     (case table_step image_adapt image_merge ''Image not found'' image_resource j (db_images (svc_db s)) of
        (x, tbl) \<Rightarrow> settle ImageRun x (s\<lparr>svc_db := (svc_db s)\<lparr>db_images := tbl\<rparr>\<rparr>))"
| "req_step (VideoRun j) s =
     (case table_step video_adapt video_merge ''Video not found'' video_resource j (db_videos (svc_db s)) of
        (x, tbl) \<Rightarrow> settle VideoRun x (s\<lparr>svc_db := (svc_db s)\<lparr>db_videos := tbl\<rparr>\<rparr>))"
| "req_step (Answered r) s = (Answered r, s)"

text \<open>A request served alone, for \<open>n\<close> of its steps.\<close>

fun req_run :: "nat \<Rightarrow> req_phase \<Rightarrow> service \<Rightarrow> req_phase \<times> service" where
  "req_run 0 ph s = (ph, s)"
| "req_run (Suc n) ph s = (case req_step ph s of (ph', s') \<Rightarrow> req_run n ph' s')"

text \<open>Interleaving: any request not yet answered takes its next step.\<close>

inductive svc_step :: "req_phase list \<times> service \<Rightarrow> req_phase list \<times> service \<Rightarrow> bool" where
  step: "k < length ps \<Longrightarrow> \<not> answered (ps ! k) \<Longrightarrow> req_step (ps ! k) s = (ph', s')
    \<Longrightarrow> svc_step (ps, s) (ps[k := ph'], s')"

inductive_cases svc_stepE: "svc_step c c'"

section \<open>One request's job on its table, alone\<close>

lemma job_step_done: "job_done j \<Longrightarrow> job_step adapt upd d j t = (j, t)"
  by (cases j) (auto simp: job_done_def)

lemma job_run_done: "job_done j \<Longrightarrow> job_run n adapt upd d j t = (j, t)"
  by (induction n) (simp_all add: job_step_done)

lemma job_run_add:
  "job_run (m + n) adapt upd d j t = (case job_run m adapt upd d j t of (j', t') \<Rightarrow> job_run n adapt upd d j' t')"
  by (induction m arbitrary: j t) (simp_all split: prod.split)

lemma job_run_exec:
  assumes "tbl_wf t" "\<And>old f. upd old f old = f"
  shows "\<exists>J. job_run 3 ad upd d (call_job mk c) t = (J, snd (exec_call (crud_resource pm ps ad mk d out js) c t))
    \<and> job_done J \<and> job_answer (crud_resource pm ps ad mk d out js) J = fst (exec_call (crud_resource pm ps ad mk d out js) c t)"
proof (cases c)
  case (CallCreate x)
  have "job_run (2 + 1) ad upd d (CreateStart (mk x)) t
      = (Finished (fst (crud_create ad (mk x) t)), snd (crud_create ad (mk x) t))"
    by (simp only: job_run_add job_run_create) simp
  then show ?thesis using CallCreate
    by (simp add: call_job_def job_done_def job_answer_def crud_resource_def split: prod.split)
next
  case CallList
  have "job_run 3 ad upd d ListStart t = (Listed (crud_list t), t)"
    by (simp add: numeral_3_eq_3)
  then show ?thesis using CallList by (simp add: call_job_def job_done_def job_answer_def crud_resource_def)
next
  case (CallGet i)
  have "job_run 3 ad upd d (GetStart i) t = (Finished (crud_get d i t), t)"
    by (simp add: numeral_3_eq_3)
  then show ?thesis using CallGet by (simp add: call_job_def job_done_def job_answer_def crud_resource_def)
next
  case (CallUpdate i x)
  then show ?thesis using job_run_update [where t=t and upd=upd and adapt=ad and d=d and i=i and f="mk x", OF assms]
    by (simp add: call_job_def job_done_def job_answer_def crud_resource_def split: prod.split)
next
  case (CallDelete i)
  have "job_run (2 + 1) ad upd d (DeleteStart i) t = (Finished (fst (crud_delete d i t)), snd (crud_delete d i t))"
    by (simp only: job_run_add job_run_delete) simp
  then show ?thesis using CallDelete
    by (simp add: call_job_def job_done_def job_answer_def crud_resource_def split: prod.split)
qed


lemma call_job_not_done [simp]: "\<not> job_done (call_job mk c)"
  by (cases c) (simp_all add: call_job_def job_done_def)

lemma req_run_answered [simp]: "req_run n (Answered r) s = (Answered r, s)"
  by (induction n) simp_all

section \<open>A request alone on the service\<close>

text \<open>
  The four \<open>...Run\<close> phases have the same shape: a statement on one table
  of the database, read with \<open>get\<close> and written back with \<open>put\<close>.
\<close>

lemma req_run_table:
  assumes step: "\<And>j s. req_step (K j) s =
      (case table_step ad upd d res j (get (svc_db s)) of (x, tbl) \<Rightarrow> settle K x (s\<lparr>svc_db := put tbl (svc_db s)\<rparr>))"
    and gp: "\<And>tbl db. get (put tbl db) = tbl" and pp: "\<And>tbl tbl' db. put tbl' (put tbl db) = put tbl' db"
  shows "get (svc_db s) = Some t \<Longrightarrow> \<not> job_done j \<Longrightarrow> job_run n ad upd d j t = (J, t') \<Longrightarrow> job_done J \<Longrightarrow>
    req_run n (K j) s = (Answered (job_answer res J), s\<lparr>svc_db := put (Some t') (svc_db s), svc_open := svc_open s - 1\<rparr>)"
proof (induction n arbitrary: j t s)
  case 0
  then show ?case by simp
next
  case (Suc n)
  obtain j1 t1 where st: "job_step ad upd d j t = (j1, t1)" by (cases "job_step ad upd d j t")
  show ?case
  proof (cases "job_done j1")
    case True
    then have "J = j1 \<and> t' = t1" using Suc.prems(3) st by (simp add: job_run_done)
    then show ?thesis using True st Suc.prems(1) by (simp add: step table_step_def settle_def)
  next
    case False
    let ?s1 = "s\<lparr>svc_db := put (Some t1) (svc_db s)\<rparr>"
    have "req_run n (K j1) ?s1 =
        (Answered (job_answer res J), ?s1\<lparr>svc_db := put (Some t') (svc_db ?s1), svc_open := svc_open ?s1 - 1\<rparr>)"
      using Suc.IH [of ?s1 t1 j1] Suc.prems(3,4) st False by (simp add: gp)
    then show ?thesis using False st Suc.prems(1) by (simp add: step table_step_def settle_def pp)
  qed
qed

lemma start_run_operation:
  assumes step: "\<And>j s. req_step (K j) s =
      (case table_step ad upd d (crud_resource pm ps ad mk d out js) j (get (svc_db s)) of
         (x, tbl) \<Rightarrow> settle K x (s\<lparr>svc_db := put tbl (svc_db s)\<rparr>))"
    and gp: "\<And>tbl db. get (put tbl db) = tbl" and pp: "\<And>tbl tbl' db. put tbl' (put tbl db) = put tbl' db"
    and pg: "\<And>db. put (get db) db = db"
    and upd: "\<And>old f. upd old f old = f" and wf: "opt_wf tbl_wf (get (svc_db s))"
  shows "(case settle K (table_start (crud_resource pm ps ad mk d out js) mk a p b (get (svc_db s))) s of
            (ph, s') \<Rightarrow> req_run 3 ph s')
    = (case run_operation (crud_resource pm ps ad mk d out js) a p b (get (svc_db s)) of
         (r, tbl') \<Rightarrow> (Answered r, s\<lparr>svc_db := put tbl' (svc_db s), svc_open := svc_open s - 1\<rparr>))"
proof (cases "validate_call (crud_resource pm ps ad mk d out js) a p b")
  case (Inl es)
  then show ?thesis by (simp add: table_start_def run_operation_def settle_def pg)
next
  case (Inr c)
  show ?thesis
  proof (cases "get (svc_db s)")
    case None
    then show ?thesis using Inr pg [of "svc_db s"] by (simp add: table_start_def run_operation_def settle_def)
  next
    case (Some t)
    obtain J where J: "job_run 3 ad upd d (call_job mk c) t = (J, snd (exec_call (crud_resource pm ps ad mk d out js) c t))"
      "job_done J" "job_answer (crud_resource pm ps ad mk d out js) J = fst (exec_call (crud_resource pm ps ad mk d out js) c t)"
      using job_run_exec [of t upd ad d mk c pm ps out js] Some wf upd by auto
    have "req_run 3 (K (call_job mk c)) s = (Answered (job_answer (crud_resource pm ps ad mk d out js) J),
        s\<lparr>svc_db := put (Some (snd (exec_call (crud_resource pm ps ad mk d out js) c t))) (svc_db s),
          svc_open := svc_open s - 1\<rparr>)"
      using req_run_table [OF step gp pp Some call_job_not_done J(1,2)] .
    then show ?thesis using Inr Some J(3)
      by (simp add: table_start_def run_operation_def settle_def split: prod.split)
  qed
qed


lemma start_run_categories:
  "opt_wf tbl_wf (db_categories (svc_db s)) \<Longrightarrow>
   (case settle CatRun (table_start category_resource category_of a p b (db_categories (svc_db s))) s of
      (ph, s') \<Rightarrow> req_run 3 ph s')
   = (case run_operation category_resource a p b (db_categories (svc_db s)) of
        (r, tbl') \<Rightarrow> (Answered r, s\<lparr>svc_db := (svc_db s)\<lparr>db_categories := tbl'\<rparr>, svc_open := svc_open s - 1\<rparr>))"
  unfolding category_resource_crud
  by (rule start_run_operation [where K=CatRun and get=db_categories and upd=category_merge and put = "\<lambda>t db. db\<lparr>db_categories := t\<rparr>"])
     (simp_all add: category_resource_crud)

lemma start_run_places:
  "opt_wf tbl_wf (db_places (svc_db s)) \<Longrightarrow>
   (case settle PlaceRun (table_start place_resource place_of a p b (db_places (svc_db s))) s of
      (ph, s') \<Rightarrow> req_run 3 ph s')
   = (case run_operation place_resource a p b (db_places (svc_db s)) of
        (r, tbl') \<Rightarrow> (Answered r, s\<lparr>svc_db := (svc_db s)\<lparr>db_places := tbl'\<rparr>, svc_open := svc_open s - 1\<rparr>))"
  unfolding place_resource_crud
  by (rule start_run_operation [where K=PlaceRun and get=db_places and upd=place_merge and put = "\<lambda>t db. db\<lparr>db_places := t\<rparr>"])
     (simp_all add: place_resource_crud)

lemma start_run_images:
  "opt_wf tbl_wf (db_images (svc_db s)) \<Longrightarrow>
   (case settle ImageRun (table_start image_resource image_of a p b (db_images (svc_db s))) s of
      (ph, s') \<Rightarrow> req_run 3 ph s')
   = (case run_operation image_resource a p b (db_images (svc_db s)) of
        (r, tbl') \<Rightarrow> (Answered r, s\<lparr>svc_db := (svc_db s)\<lparr>db_images := tbl'\<rparr>, svc_open := svc_open s - 1\<rparr>))"
  unfolding image_resource_crud
  by (rule start_run_operation [where K=ImageRun and get=db_images and upd=image_merge and put = "\<lambda>t db. db\<lparr>db_images := t\<rparr>"])
     (simp_all add: image_resource_crud)

lemma start_run_videos:
  "opt_wf tbl_wf (db_videos (svc_db s)) \<Longrightarrow>
   (case settle VideoRun (table_start video_resource video_of a p b (db_videos (svc_db s))) s of
      (ph, s') \<Rightarrow> req_run 3 ph s')
   = (case run_operation video_resource a p b (db_videos (svc_db s)) of
        (r, tbl') \<Rightarrow> (Answered r, s\<lparr>svc_db := (svc_db s)\<lparr>db_videos := tbl'\<rparr>, svc_open := svc_open s - 1\<rparr>))"
  unfolding video_resource_crud
  by (rule start_run_operation [where K=VideoRun and get=db_videos and upd=video_merge and put = "\<lambda>t db. db\<lparr>db_videos := t\<rparr>"])
     (simp_all add: video_resource_crud)

lemma req_run_4: "req_run 4 ph s = (case req_step ph s of (ph', s') \<Rightarrow> req_run 3 ph' s')"
proof -
  have "(4::nat) = Suc 3" by simp
  then show ?thesis by (simp only: req_run.simps(2))
qed

lemma req_run_serve:
  assumes "db_wf (svc_db s)"
  shows "req_run 4 (Arrived rq) s = (Answered (fst (serve rq s)), snd (serve rq s))"
proof (cases "route_request app_routes (req_method rq) (req_path rq)")
  case (Dispatch ep p)
  obtain e a where ep: "ep = Endpoint e a" by (cases ep)
  have run: "req_run 4 (Arrived rq) s = (case start_request e a p (req_body rq)
      (s\<lparr>svc_opened := svc_opened s + 1, svc_open := svc_open s + 1\<rparr>) of (ph, s') \<Rightarrow> req_run 3 ph s')"
    using Dispatch ep by (simp add: req_run_4)
  let ?s1 = "s\<lparr>svc_opened := svc_opened s + 1, svc_open := svc_open s + 1\<rparr>"
  have wf: "opt_wf tbl_wf (db_categories (svc_db ?s1))" "opt_wf tbl_wf (db_places (svc_db ?s1))"
    "opt_wf tbl_wf (db_images (svc_db ?s1))" "opt_wf tbl_wf (db_videos (svc_db ?s1))"
    using assms by (simp_all add: db_wf_def)
  show ?thesis
    unfolding run
    using start_run_categories [OF wf(1), of a p "req_body rq"] start_run_places [OF wf(2), of a p "req_body rq"]
      start_run_images [OF wf(3), of a p "req_body rq"] start_run_videos [OF wf(4), of a p "req_body rq"]
    by (cases e) (simp_all add: Dispatch ep start_request_def serve_def get_db_def run_endpoint_def split: prod.split)
qed (simp_all add: serve_def req_run_4)


section \<open>What every step keeps\<close>

definition sessions :: "req_phase list \<Rightarrow> nat" where
  "sessions ps = length (filter in_session ps)"

lemma settle_eq:
  "settle K x s = (ph', s') \<Longrightarrow> svc_db s' = svc_db s \<and> svc_opened s' = svc_opened s
     \<and> (case x of Inl j \<Rightarrow> ph' = K j \<and> svc_open s' = svc_open s
        | Inr r \<Rightarrow> ph' = Answered r \<and> svc_open s' = svc_open s - 1)"
  by (cases x) (auto simp: settle_def)

lemma table_step_tables:
  assumes "table_step ad upd d res j tbl = (x, tbl')"
  shows "(opt_wf tbl_wf tbl \<longrightarrow> opt_wf tbl_wf tbl')
    \<and> (opt_wf tbl_wf tbl \<and> opt_wf tbl_fresh tbl \<longrightarrow> opt_wf tbl_fresh tbl')"
  using assms job_step_tables [of ad upd d j]
  by (cases tbl) (auto simp: table_step_def split: prod.splits)

lemma in_session_simps [simp]:
  "\<not> in_session (Arrived rq)" "\<not> in_session (Answered r)" "in_session (CatRun cj)"
  "in_session (PlaceRun pj)" "in_session (ImageRun ij)" "in_session (VideoRun vj)"
  by (simp_all add: in_session_def)

lemma start_request_eq:
  assumes "start_request e a p b s = (ph', s')"
  shows "svc_db s' = svc_db s \<and> svc_opened s' = svc_opened s
    \<and> (if in_session ph' then svc_open s' = svc_open s else svc_open s' = svc_open s - 1)"
  using assms
  by (cases e) (auto simp: start_request_def dest!: settle_eq split: sum.splits)

lemma table_run_eq:
  assumes "settle K x (s\<lparr>svc_db := db'\<rparr>) = (ph', s')" "\<And>j. in_session (K j)"
  shows "svc_db s' = db' \<and> svc_opened s' = svc_opened s
    \<and> (if in_session ph' then svc_open s' = svc_open s else svc_open s' = svc_open s - 1)"
  using settle_eq [OF assms(1)] assms(2) by (auto split: sum.splits)

lemma req_step_service:
  assumes "req_step ph s = (ph', s')" "in_session ph \<Longrightarrow> 0 < svc_open s"
  shows "(db_wf (svc_db s) \<longrightarrow> db_wf (svc_db s')) \<and> (db_wf (svc_db s) \<and> db_fresh (svc_db s) \<longrightarrow> db_fresh (svc_db s'))
    \<and> svc_open s' + (if in_session ph then 1 else 0) = svc_open s + (if in_session ph' then 1 else 0)"
proof (cases ph)
  case (Arrived rq)
  then show ?thesis
    using assms(1)
    by (auto simp: split: routed.splits endpoint.splits if_splits dest!: start_request_eq)
next
  case (CatRun j)
  then show ?thesis using assms
    by (auto simp: db_wf_def db_fresh_def split: prod.splits if_splits
        dest!: table_run_eq table_step_tables)
next
  case (PlaceRun j)
  then show ?thesis using assms
    by (auto simp: db_wf_def db_fresh_def split: prod.splits if_splits
        dest!: table_run_eq table_step_tables)
next
  case (ImageRun j)
  then show ?thesis using assms
    by (auto simp: db_wf_def db_fresh_def split: prod.splits if_splits
        dest!: table_run_eq table_step_tables)
next
  case (VideoRun j)
  then show ?thesis using assms
    by (auto simp: db_wf_def db_fresh_def split: prod.splits if_splits
        dest!: table_run_eq table_step_tables)
qed (use assms in simp)


lemma length_filter_update:
  "k < length xs \<Longrightarrow> length (filter P (xs[k := x])) + (if P (xs ! k) then 1 else 0)
     = length (filter P xs) + (if P x then 1 else 0)"
proof (induction xs arbitrary: k)
  case (Cons y ys)
  show ?case
  proof (cases k)
    case (Suc k')
    then show ?thesis using Cons.IH [of k'] Cons.prems by auto
  qed auto
qed simp

lemma sessions_Arrived [simp]: "sessions (map Arrived rqs) = 0"
  by (simp add: sessions_def filter_empty_conv)

lemma sessions_pos: "k < length ps \<Longrightarrow> in_session (ps ! k) \<Longrightarrow> 0 < sessions ps"
  using nth_mem by (fastforce simp: sessions_def filter_empty_conv)

lemma svc_step_service:
  assumes "svc_step (ps, s) (ps', s')" "sessions ps \<le> svc_open s"
  shows "(db_wf (svc_db s) \<longrightarrow> db_wf (svc_db s')) \<and> (db_wf (svc_db s) \<and> db_fresh (svc_db s) \<longrightarrow> db_fresh (svc_db s'))
    \<and> svc_open s' + sessions ps = svc_open s + sessions ps'"
proof -
  obtain k ph' where k: "k < length ps" "req_step (ps ! k) s = (ph', s')" "ps' = ps[k := ph']"
    using assms(1) by (cases rule: svc_step.cases) auto
  have pos: "in_session (ps ! k) \<Longrightarrow> 0 < svc_open s" using sessions_pos [OF k(1)] assms(2) by simp
  show ?thesis
    using req_step_service [OF k(2) pos] length_filter_update [OF k(1), of in_session ph'] k(3)
    by (auto simp: sessions_def)
qed

lemma svc_steps_service:
  assumes "svc_step\<^sup>*\<^sup>* c c'" "sessions (fst c) \<le> svc_open (snd c)"
  shows "(db_wf (svc_db (snd c)) \<longrightarrow> db_wf (svc_db (snd c')))
    \<and> (db_wf (svc_db (snd c)) \<and> db_fresh (svc_db (snd c)) \<longrightarrow> db_fresh (svc_db (snd c')))
    \<and> svc_open (snd c') + sessions (fst c) = svc_open (snd c) + sessions (fst c')"
  using assms(1)
proof (induction rule: rtranclp_induct)
  case (step c1 c2)
  obtain ps1 s1 ps2 s2 where c: "c1 = (ps1, s1)" "c2 = (ps2, s2)" by (cases c1, cases c2)
  have "sessions ps1 \<le> svc_open s1" using step.IH assms(2) c by simp
  then show ?case using svc_step_service [of ps1 s1 ps2 s2] step.hyps(2) step.IH c by auto
qed simp

section \<open>Every request is answered\<close>

fun phase_rank :: "req_phase \<Rightarrow> nat" where
  "phase_rank (Arrived rq) = 5"
| "phase_rank (CatRun j) = Suc (job_rank j)"
| "phase_rank (PlaceRun j) = Suc (job_rank j)"
| "phase_rank (ImageRun j) = Suc (job_rank j)"
| "phase_rank (VideoRun j) = Suc (job_rank j)"
| "phase_rank (Answered r) = 0"

lemma job_rank_call [simp]: "job_rank (call_job mk c) < 4"
  by (cases c) (simp_all add: call_job_def)

lemma settle_rank:
  "settle K x s = (ph', s') \<Longrightarrow> (\<And>j. x = Inl j \<Longrightarrow> phase_rank (K j) < n) \<Longrightarrow> 0 < n \<Longrightarrow> phase_rank ph' < n"
  by (cases x) (auto simp: settle_def)

lemma table_step_rank:
  assumes "table_step ad upd d res j tbl = (Inl j', tbl')"
  shows "job_rank j' < job_rank j"
proof -
  obtain t t1 where t: "tbl = Some t" "job_step ad upd d j t = (j', t1)" "\<not> job_done j'"
    using assms by (cases tbl) (auto simp: table_step_def split: prod.splits if_splits)
  have "\<not> job_done j" using t(2,3) job_step_done [of j ad upd d t] by auto
  then show ?thesis using job_step_rank [of j ad upd d t] t(2) by simp
qed

lemma req_step_rank:
  assumes "req_step ph s = (ph', s')" "\<not> answered ph"
  shows "phase_rank ph' < phase_rank ph"
proof (cases ph)
  case (Arrived rq)
  then show ?thesis using assms(1)
    by (auto simp: start_request_def table_start_def split: routed.splits endpoint.splits entity.splits
        sum.splits option.splits elim!: settle_rank)
qed (use assms in \<open>auto simp: answered_def split: prod.splits elim!: settle_rank dest: table_step_rank\<close>)

definition phases_rank :: "req_phase list \<Rightarrow> nat" where
  "phases_rank ps = sum_list (map phase_rank ps)"

lemma svc_step_rank: "svc_step c c' \<Longrightarrow> phases_rank (fst c') < phases_rank (fst c)"
proof (erule svc_stepE)
  fix k ps s ph' s'
  assume c: "c = (ps, s)" "c' = (ps[k := ph'], s')" and k: "k < length ps"
    and na: "\<not> answered (ps ! k)" and st: "req_step (ps ! k) s = (ph', s')"
  have "phase_rank ph' < phase_rank (ps ! k)" using req_step_rank [OF st na] .
  then show ?thesis
    using sum_list_update_nat [of k "map phase_rank ps" "phase_rank ph'"] k c
    by (simp add: phases_rank_def map_update)
qed

lemma svc_step_progress:
  "k < length ps \<Longrightarrow> \<not> answered (ps ! k) \<Longrightarrow> \<exists>c'. svc_step (ps, s) c'"
  by (cases "req_step (ps ! k) s") (blast intro: svc_step.intros)

lemma svc_stuck_answered:
  assumes "\<nexists>c'. svc_step (ps, s) c'"
  shows "list_all answered ps"
  unfolding list_all_length
proof (intro allI impI)
  fix k assume "k < length ps"
  then show "answered (ps ! k)" using svc_step_progress [of k ps s] assms by blast
qed

lemma svc_can_finish: "\<exists>c'. svc_step\<^sup>*\<^sup>* c c' \<and> list_all answered (fst c')"
proof (induction "phases_rank (fst c)" arbitrary: c rule: less_induct)
  case less
  obtain ps s where c: "c = (ps, s)" by (cases c)
  show ?case
  proof (cases "list_all answered ps")
    case True
    have "svc_step\<^sup>*\<^sup>* c c" by (rule rtranclp.rtrancl_refl)
    with True c show ?thesis by auto
  next
    case False
    then obtain c1 where st: "svc_step (ps, s) c1" using svc_stuck_answered [of ps s] by blast
    have "phases_rank (fst c1) < phases_rank (fst c)" using svc_step_rank [OF st] c by simp
    then obtain c2 where r: "svc_step\<^sup>*\<^sup>* c1 c2" and dn: "list_all answered (fst c2)" using less by blast
    have "svc_step\<^sup>*\<^sup>* c c2" using converse_rtranclp_into_rtranclp [OF st r] c by simp
    with dn show ?thesis by blast
  qed
qed

lemma sessions_answered: "list_all answered ps \<Longrightarrow> sessions ps = 0"
  by (auto simp: sessions_def filter_empty_conv list_all_iff answered_def in_session_def split: req_phase.splits)


section \<open>Tables a request does not touch\<close>

text \<open>
  Which table a request works on: the entity its route dispatches to, while
  it is arrived or running; none once answered or when it is not routed to
  a path operation.
\<close>

fun phase_entity :: "req_phase \<Rightarrow> entity option" where
  "phase_entity (Arrived rq) =
     (case route_request app_routes (req_method rq) (req_path rq) of
        Dispatch (Endpoint e a) p \<Rightarrow> Some e | _ \<Rightarrow> None)"
| "phase_entity (CatRun j) = Some Categories"
| "phase_entity (PlaceRun j) = Some Places"
| "phase_entity (ImageRun j) = Some Images"
| "phase_entity (VideoRun j) = Some Videos"
| "phase_entity (Answered r) = None"

fun same_table :: "entity \<Rightarrow> database \<Rightarrow> database \<Rightarrow> bool" where
  "same_table Categories db db' = (db_categories db' = db_categories db)"
| "same_table Places db db' = (db_places db' = db_places db)"
| "same_table Images db db' = (db_images db' = db_images db)"
| "same_table Videos db db' = (db_videos db' = db_videos db)"

lemma same_table_refl [simp]: "same_table e db db"
  by (cases e) simp_all

lemma same_table_trans: "same_table e db1 db2 \<Longrightarrow> same_table e db2 db3 \<Longrightarrow> same_table e db1 db3"
  by (cases e) simp_all

lemma settle_phase: "settle K x s = (ph', s') \<Longrightarrow> (\<exists>j. ph' = K j) \<or> (\<exists>r. ph' = Answered r)"
  by (cases x) (auto simp: settle_def)

lemma start_request_entity: "start_request e a p b s = (ph', s') \<Longrightarrow> phase_entity ph' \<in> {Some e, None}"
  by (cases e) (auto simp: start_request_def dest!: settle_phase)

lemma req_step_frame:
  assumes "req_step ph s = (ph', s')" "phase_entity ph \<noteq> Some e"
  shows "same_table e (svc_db s) (svc_db s') \<and> phase_entity ph' \<noteq> Some e"
proof (cases ph)
  case (Arrived rq)
  have "svc_db s' = svc_db s \<and> phase_entity ph' \<in> {phase_entity ph, None}"
    using assms(1) Arrived
    by (auto split: routed.splits endpoint.splits dest: start_request_eq start_request_entity)
  then show ?thesis using assms(2) by (cases e) auto
qed (use assms in \<open>(cases e; auto split: prod.splits dest: table_run_eq settle_phase)+\<close>)

lemma svc_step_frame:
  assumes "svc_step (ps, s) (ps', s')" "\<forall>ph\<in>set ps. phase_entity ph \<noteq> Some e"
  shows "same_table e (svc_db s) (svc_db s') \<and> (\<forall>ph\<in>set ps'. phase_entity ph \<noteq> Some e)"
proof -
  obtain k ph' where k: "k < length ps" "req_step (ps ! k) s = (ph', s')" "ps' = ps[k := ph']"
    using assms(1) by (cases rule: svc_step.cases) auto
  have "same_table e (svc_db s) (svc_db s') \<and> phase_entity ph' \<noteq> Some e"
    using req_step_frame [OF k(2)] assms(2) k(1) nth_mem by blast
  then show ?thesis using assms(2) k(3) set_update_subset_insert [of ps k ph'] by auto
qed

end
