(* ===== verification/Session.thy ===== *)
theory Session
  imports Config Router
begin

text \<open>
  The ORM session of a request, as far as the \<open>sessionmaker\<close> flags act on
  it. \<open>SessionLocal = sessionmaker(autocommit=False, autoflush=False,
  bind=engine)\<close> is written in \<open>src/main.py\<close> (bound to the handlers'
  engine) and again in \<open>src/database.py\<close> (bound to the \<open>create_all\<close>
  engine, and never used).
  \<^item> \<open>autocommit=False\<close>: the session begins a transaction on first use.
    The rows it has flushed are seen by it alone until \<open>commit()\<close>, and
    \<open>close()\<close> rolls back whatever was not committed.
  \<^item> \<open>autoflush\<close>: when set, a \<open>SELECT\<close> first flushes the pending
    changes, so that it sees them.
  The session state is the committed database, the transaction's view of
  it, and the pending changes (\<open>add\<close>, attribute assignments,
  \<open>delete\<close>) not yet flushed. A change acts on a database through a
  parameter \<open>ap\<close>. \<open>session_calls\<close> lists the session calls of each path
  operation in the order \<open>src/main.py\<close> makes them. A handler that raises
  stops after a prefix of that list.
\<close>

record session_config =
  sc_autocommit :: bool
  sc_autoflush :: bool
  sc_bind :: string

text \<open>\<open>SessionLocal\<close> of \<open>src/main.py\<close>, bound to \<open>create_engine(SQLALCHEMY_DATABASE_URL)\<close>.\<close>

definition session_local :: session_config where
  "session_local = \<lparr>sc_autocommit = False, sc_autoflush = False, sc_bind = main_database_url\<rparr>"

text \<open>\<open>SessionLocal\<close> of \<open>src/database.py\<close>, bound to \<open>create_engine(DATABASE_URL)\<close>.\<close>

definition database_session_local :: session_config where
  "database_session_local = \<lparr>sc_autocommit = False, sc_autoflush = False, sc_bind = database_url\<rparr>"

datatype 'w orm_call = OQuery | OAdd 'w | OSet 'w | ODelete 'w | OCommit | ORefresh

record ('d, 'w) orm_session =
  ses_committed :: 'd
  ses_view :: 'd
  ses_pending :: "'w list"

text \<open>\<open>SessionLocal()\<close>: a session with no transaction work yet.\<close>

definition new_session :: "'d \<Rightarrow> ('d, 'w) orm_session" where
  "new_session db = \<lparr>ses_committed = db, ses_view = db, ses_pending = []\<rparr>"

text \<open>\<open>flush()\<close>: the pending changes are written, inside the transaction.\<close>

definition ses_flush :: "('d \<Rightarrow> 'w \<Rightarrow> 'd) \<Rightarrow> ('d, 'w) orm_session \<Rightarrow> ('d, 'w) orm_session" where
  "ses_flush ap s = s\<lparr>ses_view := foldl ap (ses_view s) (ses_pending s), ses_pending := []\<rparr>"

text \<open>A \<open>SELECT\<close>, after the autoflush when the flag is set.\<close>

definition ses_read :: "bool \<Rightarrow> ('d \<Rightarrow> 'w \<Rightarrow> 'd) \<Rightarrow> ('d, 'w) orm_session \<Rightarrow> 'd \<times> ('d, 'w) orm_session" where
  "ses_read af ap s = (let s' = (if af then ses_flush ap s else s) in (ses_view s', s'))"

text \<open>
  One session call: \<open>query(...).first()\<close> or \<open>.all()\<close>, \<open>add\<close>, an
  attribute assignment, \<open>delete\<close>, \<open>commit\<close> (flush, then commit) and
  \<open>refresh\<close> (a \<open>SELECT\<close> of the row). A read returns what it sees.
\<close>

fun orm_exec :: "bool \<Rightarrow> ('d \<Rightarrow> 'w \<Rightarrow> 'd) \<Rightarrow> 'w orm_call \<Rightarrow> ('d, 'w) orm_session
    \<Rightarrow> 'd option \<times> ('d, 'w) orm_session" where
  "orm_exec af ap OQuery s = (case ses_read af ap s of (v, s') \<Rightarrow> (Some v, s'))"
| "orm_exec af ap (OAdd w) s = (None, s\<lparr>ses_pending := ses_pending s @ [w]\<rparr>)"
| "orm_exec af ap (OSet w) s = (None, s\<lparr>ses_pending := ses_pending s @ [w]\<rparr>)"
| "orm_exec af ap (ODelete w) s = (None, s\<lparr>ses_pending := ses_pending s @ [w]\<rparr>)"
| "orm_exec af ap OCommit s = (let s' = ses_flush ap s in (None, s'\<lparr>ses_committed := ses_view s'\<rparr>))"
| "orm_exec af ap ORefresh s = (case ses_read af ap s of (v, s') \<Rightarrow> (Some v, s'))"

fun orm_run :: "bool \<Rightarrow> ('d \<Rightarrow> 'w \<Rightarrow> 'd) \<Rightarrow> 'w orm_call list \<Rightarrow> ('d, 'w) orm_session
    \<Rightarrow> 'd option list \<times> ('d, 'w) orm_session" where
  "orm_run af ap [] s = ([], s)"
| "orm_run af ap (c # cs) s =
     (case orm_exec af ap c s of (r, s') \<Rightarrow> (case orm_run af ap cs s' of (rs, s'') \<Rightarrow> (r # rs, s'')))"

text \<open>
  The session calls of each path operation of \<open>src/main.py\<close>, the same for
  the four resources: \<open>x\<close> and \<open>y\<close> are the new object or the changes of
  its two columns.
\<close>

fun session_calls :: "action \<Rightarrow> 'w \<Rightarrow> 'w \<Rightarrow> 'w orm_call list" where
  "session_calls Create x y = [OAdd x, OCommit, ORefresh]"
| "session_calls ReadAll x y = [OQuery]"
| "session_calls ReadOne x y = [OQuery]"
| "session_calls Update x y = [OQuery, OSet x, OSet y, OCommit, ORefresh]"
| "session_calls Delete x y = [OQuery, ODelete x, OCommit]"

text \<open>
  No read while a change is pending: \<open>p\<close> tells whether some change is
  pending before the calls.
\<close>

fun reads_clean :: "bool \<Rightarrow> 'w orm_call list \<Rightarrow> bool" where
  "reads_clean p [] = True"
| "reads_clean p (OQuery # cs) = (\<not> p \<and> reads_clean p cs)"
| "reads_clean p (ORefresh # cs) = (\<not> p \<and> reads_clean p cs)"
| "reads_clean p (OCommit # cs) = reads_clean False cs"
| "reads_clean p (OAdd w # cs) = reads_clean True cs"
| "reads_clean p (OSet w # cs) = reads_clean True cs"
| "reads_clean p (ODelete w # cs) = reads_clean True cs"

section \<open>Autoflush\<close>

lemma ses_flush_Nil [simp]: "ses_pending s = [] \<Longrightarrow> ses_flush ap s = s"
  by (simp add: ses_flush_def)

lemma ses_flush_pending [simp]: "ses_pending (ses_flush ap s) = []"
  by (simp add: ses_flush_def)

lemma reads_clean_take: "reads_clean p cs \<Longrightarrow> reads_clean p (take n cs)"
  by (induction p cs arbitrary: n rule: reads_clean.induct) (auto simp: take_Cons')

text \<open>When no read meets a pending change, the autoflush flag changes nothing.\<close>

lemma orm_run_autoflush:
  "reads_clean (ses_pending s \<noteq> []) cs \<Longrightarrow> orm_run af ap cs s = orm_run False ap cs s"
proof (induction cs arbitrary: s)
  case (Cons c cs)
  then show ?case
    by (cases c) (auto simp: ses_read_def Let_def split: prod.split)
qed simp

lemma new_session_pending [simp]: "ses_pending (new_session db) = []"
  by (simp add: new_session_def)

end
