(* ===== verification/Spec2Isabelle.thy ===== *)
theory Spec2Isabelle
  imports Concurrent_Service Config Session
begin

text \<open>
  \<^bold>\<open>The program.\<close> A FastAPI service (\<open>src/main.py\<close>) over PostgreSQL through
  SQLAlchemy (\<open>src/models.py\<close>, \<open>src/database.py\<close>). There are four independent
  resources: categories, places, images and videos. Each has five
  endpoints: create, list, get, update and delete. A request is routed by
  Starlette and gets a fresh session from \<open>get_db\<close>. Its path parameter and
  body are validated by pydantic, and the handler runs one ORM unit of work
  on its model's table. The returned object is then read through the
  \<open>response_model\<close>. Importing \<open>src/models.py\<close> runs
  \<open>Base.metadata.create_all\<close>.

  \<^bold>\<open>Theories and what they model.\<close>
  \<^item> \<open>Prelude\<close>: rows as \<open>(id, columns)\<close> association lists
    (\<open>find_row\<close>, \<open>replace_row\<close>, \<open>drop_row\<close>), psycopg2's NUL check
    \<open>pg_text_ok\<close>, and the rule collections \<open>table_simps\<close>,
    \<open>handler_simps\<close> and \<open>route_simps\<close>.
  \<^item> \<open>Table\<close>: one PostgreSQL table with a \<open>SERIAL\<close> key, as the record
    \<open>table\<close> of rows and the sequence's next value. It has \<open>nextval\<close>,
    \<open>INSERT\<close> (psycopg2 adaptation, then sequence, then primary-key
    check), \<open>UPDATE\<close> with its row count, and \<open>DELETE\<close>. Its invariants
    are \<open>tbl_wf\<close> (distinct ids, the sequence within
    \<open>1 .. serial_max + 1\<close>) and \<open>tbl_fresh\<close> (every id positive and below
    the sequence). Its abstraction \<open>tbl_abs\<close> is the finite map
    \<open>map_of\<close> of the rows.
  \<^item> \<open>Models\<close>: the four ORM classes of \<open>src/models.py\<close> as records. The
    nullable \<open>Text\<close>/\<open>String\<close> columns are \<open>string option\<close>. The
    database holds one optional table per model, \<open>None\<close> before
    \<open>create_all\<close>.
  \<^item> \<open>Crud\<close>: the shared shape of the handlers in \<open>src/main.py\<close>, over the
    column type \<open>'f\<close>. It is \<open>crud_create\<close> (add, commit, refresh),
    \<open>crud_list\<close>, \<open>crud_get\<close> (query first, 404), \<open>crud_update\<close>
    (lookup, no \<open>UPDATE\<close> when nothing changed, \<open>StaleDataError\<close> unless
    one row matched, refresh) and \<open>crud_delete\<close> (lookup, delete, commit,
    return the loaded object).
  \<^item> \<open>PyValues\<close>, \<open>Schemas\<close>: JSON values, Python's \<open>int()\<close> and
    \<open>str()\<close> on integers, and the pydantic v1 models \<open>CategoryCreate\<close>,
    \<open>PlaceCreate\<close>, \<open>ImageCreate\<close> and \<open>VideoCreate\<close>. These are both
    request parsers (\<open>parse_*_create\<close>) and response models
    (\<open>*_response\<close>). \<open>int()\<close> is CPython's: the UTF-8 text is decoded
    (\<open>utf8_decode\<close>), Unicode decimal digits and whitespace are turned
    into ASCII (\<open>ascii_form\<close>, the tables of Unicode 15.0), and the ASCII
    text is parsed (\<open>py_int_ascii\<close>).
  \<^item> \<open>Handlers\<close>: the twenty path operation functions, named as in
    \<open>src/main.py\<close> (\<open>create_category\<close> ... \<open>delete_video\<close>).
  \<^item> \<open>Router\<close>: the route table \<open>app_routes\<close> in decorator order. The
    place, image and video item templates lack the slash, exactly as
    written. Also Starlette's matching: first full match, else 405, else
    the \<open>redirect_slashes\<close> 307, else 404.
  \<^item> \<open>App\<close>: the interface record \<open>resource\<close> and the four instances
    \<open>*_resource\<close>, validation (\<open>validate_call\<close>, 422 on failure), the
    handler call (\<open>exec_call\<close>) and the response model (\<open>out_result\<close>,
    500 on failure). Also the service state (\<open>service\<close>: the database, the
    sessions opened and still open), \<open>get_db\<close>, \<open>serve\<close> for one request,
    \<open>serve_all\<close> for a sequence, and \<open>startup\<close>. \<open>crud_resource\<close> shows
    all four resources are one instance of the shared shape
    (\<open>resources_crud\<close>). The service-level lemmas are proved once over it.
  \<^item> \<open>Concurrency\<close>: the five handlers split at their statements, as
    \<open>job_step\<close>:
    \<^item> create: the \<open>INSERT\<close> and commit, then the refresh;
    \<^item> get and list: one \<open>SELECT\<close> each;
    \<^item> update: the \<open>SELECT\<close> of \<open>first()\<close>, the flush and commit, then
      the refresh;
    \<^item> delete: the \<open>SELECT\<close>, then the \<open>DELETE\<close> and commit. The flushed \<open>UPDATE\<close> sets only the changed columns
    (\<open>category_merge\<close> and the like). \<open>conc_step\<close> interleaves the
    requests on one table at READ COMMITTED.
  \<^item> \<open>Concurrent_Service\<close>: the whole service under concurrent
    requests. A request is a phase (\<open>req_phase\<close>): arrived, running its
    handler's statements on its model's table while holding its
    \<open>get_db\<close> session, or answered. \<open>req_step\<close> moves one request one
    step on the shared service state, and \<open>svc_step\<close> interleaves any
    requests. \<open>phase_entity\<close> is the table a request works on, and
    \<open>same_table\<close> compares one table of two databases.
  \<^item> \<open>Config\<close>: the URLs of the two engines (\<open>database_url\<close> in
    \<open>src/database.py\<close>, \<open>main_database_url\<close> in \<open>src/main.py\<close>) and
    the arguments of \<open>get_connection\<close>. Each is read as a connection
    target by \<open>parse_pg_url\<close>, the part of SQLAlchemy's URL grammar these
    URLs use.
  \<^item> \<open>Session\<close>: the two \<open>SessionLocal\<close> configurations
    (\<open>session_local\<close>, \<open>database_session_local\<close>). Also the ORM session as
    far as its flags act: the committed rows, the transaction's view and the
    pending changes, with flush at \<open>commit()\<close> and autoflush on a
    \<open>SELECT\<close> (\<open>orm_exec\<close>, \<open>orm_run\<close>). \<open>session_calls\<close> lists each
    handler's session calls in source order.
  \<^item> This theory: the abstract specification \<open>store_spec\<close> of a resource as
    a finite map, the reachable states \<open>api_reachable\<close>, and the claims.

  \<^bold>\<open>What the lemmas show.\<close>
  \<^item> Functional behaviour of the handlers on every branch, errors included
    (C1 to C4).
  \<^item> Preservation of \<open>tbl_wf\<close>/\<open>tbl_fresh\<close> by every operation, and so by
    every request (C5).
  \<^item> Refinement of \<open>store_spec\<close> by every resource (C6).
  \<^item> Monotonicity of the sequence (\<open>tbl_grows\<close>), so ids are never reused
    (C7). The sequence is exhausted after 2147483647 (C8).
  \<^item> Python's \<open>int()\<close> on path parameters: Persian digits and a no-break
    space reach the same row as the ASCII id (C9), and text \<open>int()\<close>
    refuses is answered 422 (C26).
  \<^item> Routing of the written templates (C10, C11, C21).
  \<^item> Validation and the response model (C12, C13, C14, C25).
  \<^item> The JSON/\<open>int\<close> round trip (C16).
  \<^item> An invariant of the reachable states (C17).
  \<^item> A restart keeps the data and every later answer (C18). Storage errors
    (C19, C20). List refinement (C23).
  \<^item> The session flags: \<open>autoflush=False\<close> changes nothing in any handler
    or in any prefix where it raises, and every handler commits before
    \<open>get_db\<close> closes its session (C22).
  \<^item> Concurrent requests on one table (C27, C29 to C31): alone, a split
    request is the sequential handler. Two deletes of one row can both
    succeed. An update racing a delete fails with \<open>StaleDataError\<close>.
    Updates of different columns merge.
  \<^item> The whole service under concurrent requests:
    \<^item> a request served alone is exactly \<open>serve\<close> (C32);
    \<^item> every interleaving keeps the database invariants, and the open
      sessions are the requests holding one (C28);
    \<^item> the tables are independent: a table that no request is routed to
      (\<open>phase_entity\<close>) keeps its rows in every interleaving (C24);
    \<^item> every interleaving ends, and every request can be answered
      (lemmas \<open>svc_step_rank\<close> and \<open>svc_can_finish\<close> of
      \<open>Concurrent_Service\<close>). The handlers are straight-line code, so this
      holds by construction.
  \<^item> More on concurrency (C33 to C35): a create racing a delete commits
    and then answers 500. The merged updates are not serializable, and two
    updates of one column lose the earlier one.
  \<^item> The two engines and \<open>get_connection\<close> name one database (lemma
    \<open>engines_share_target\<close> of \<open>Config\<close>), for the URLs as written.

  \<^bold>\<open>Bounds and fuel.\<close> Ids are \<open>int\<close> with the sequence bound
  \<open>serial_max = 2^31 - 1\<close> written out. This is PostgreSQL's \<open>integer\<close>
  serial, so no wrap-around arises: \<open>nextval\<close> fails instead. Every
  function of the model is total by structural recursion, and none needs
  fuel. A request split into phases finishes in at most three of its own
  phases (\<open>job_run 3\<close>), and a request on the service in at most four
  steps (\<open>req_run 4\<close>). \<open>job_rank\<close>, the number of phases left, bounds
  the length of every interleaving. Each request runs one handler, and each
  handler runs at most three statements: a lookup, a write and a refresh.

  \<^bold>\<open>Not modelled.\<close>
  \<^item> Sessions in \<open>autocommit=True\<close> mode. The code uses only
    \<open>autocommit=False\<close>. In SQLAlchemy 1.x the other mode makes
    \<open>commit()\<close> outside \<open>begin()\<close> raise, and 2.0 refuses it. The
    handlers' main model (\<open>Crud\<close>) runs each session as one transaction; C22
    shows that the flags of \<open>SessionLocal\<close> allow this. The unused
    \<open>Base\<close> of \<open>src/database.py\<close> is also not modelled: the models derive
    from the \<open>Base\<close> of \<open>src/models.py\<close>.
  \<^item> The logging set-up at the end of \<open>src/main.py\<close>
    (\<open>logging.basicConfig(level=logging.DEBUG)\<close>) and the imports. They
    only choose which log lines are written, and no answer or table depends
    on them.
  \<^item> The transport: HTTP, uvicorn, and the JSON text itself. A body is
    modelled from its parsed \<open>json\<close> value (duplicate keys: the last one
    wins), and a response as status and payload.
  \<^item> FastAPI's documentation routes.
  \<^item> Scheduling of concurrent requests by the server: any interleaving
    is allowed, and no fairness is assumed. None is needed: every
    interleaving ends (\<open>svc_step_rank\<close>).
  \<^item> Connection failures: the database is always reachable.
  \<^item> Fractional JSON numbers.
  \<^item> Length limits on \<open>int()\<close>. pydantic 1.10 refuses a \<open>str\<close> longer
    than 4300 characters before calling \<open>int()\<close>, and CPython 3.11 and
    later limit \<open>int()\<close> to 4300 digits unless configured otherwise. The
    repository pins neither version, so \<open>py_int\<close> has no limit.
  \<^item> Decimal digits added after Unicode 15.0. The digit table is that of
    Python 3.12; Python 3.14 (Unicode 16.0) accepts a few more runs of
    digits.
  \<^item> The order of the rows of a list. There is no \<open>ORDER BY\<close>, so
    PostgreSQL returns them in an unspecified order. The model returns them
    in insertion order, and the theorem about lists (C23) does not depend
    on that order.
\<close>

section \<open>Abstract specification of one resource\<close>

text \<open>
  What the spec promises of a resource's table, seen as a finite map from id
  to columns: create adds a row under an id not in use (or, on a storage
  failure, changes nothing), list and get change nothing, update replaces
  the columns of an existing row (or changes nothing), delete removes the
  row. The calls are the validated calls of theory \<open>App\<close>.
\<close>

inductive store_spec :: "'c call \<Rightarrow> ('c \<Rightarrow> 'f) \<Rightarrow> (row_id \<rightharpoonup> 'f) \<Rightarrow> (row_id \<rightharpoonup> 'f) \<Rightarrow> bool" where
  spec_create: "i \<notin> dom m \<Longrightarrow> store_spec (CallCreate c) mk m (m(i \<mapsto> mk c))"
| spec_create_fail: "store_spec (CallCreate c) mk m m"
| spec_list: "store_spec CallList mk m m"
| spec_get: "store_spec (CallGet i) mk m m"
| spec_update: "i \<in> dom m \<Longrightarrow> store_spec (CallUpdate i c) mk m (m(i \<mapsto> mk c))"
| spec_update_fail: "store_spec (CallUpdate i c) mk m m"
| spec_delete: "store_spec (CallDelete i) mk m (m(i := None))"

text \<open>A database and two requests used by the examples below.\<close>

definition demo_delete :: request where
  "demo_delete = \<lparr>req_method = DELETE, req_path = ''/categories/1'', req_body = None\<rparr>"

definition demo_create :: request where
  "demo_create = \<lparr>req_method = POST, req_path = ''/categories'',
     req_body = Some (JObj [(''name'', JStr ''Parks''), (''description'', JStr ''Green'')])\<rparr>"

definition demo_db :: database where
  "demo_db = no_tables\<lparr>db_categories := Some \<lparr>tbl_rows = [(1, \<lparr>category_name = ''Parks'', category_description = Some ''Green''\<rparr>)], tbl_next = 2\<rparr>\<rparr>"

text \<open>
  The states the running service reaches from an empty database through its
  own requests.
\<close>

inductive api_reachable :: "service \<Rightarrow> bool" where
  boot: "api_reachable (startup no_tables)"
| step: "api_reachable s \<Longrightarrow> serve rq s = (r, s') \<Longrightarrow> api_reachable s'"

section \<open>Handlers on one table\<close>

text \<open>
  C1. Creating a category on a consistent table whose sequence is not
  exhausted, with text the driver accepts, inserts the row under the next
  value of the sequence, which is not in use, and returns it with exactly the
  requested fields; the table gains that row and nothing else.
\<close>

theorem create_category_inserts:
  assumes "tbl_wf t" "tbl_fresh t" "tbl_next t \<le> serial_max"
    "pg_text_ok (cc_name x)" "pg_text_ok (cc_description x)"
  shows "\<exists>t'. create_category x t =
      (Inr (tbl_next t, \<lparr>category_name = cc_name x, category_description = Some (cc_description x)\<rparr>), t')
    \<and> tbl_next t \<notin> dom (tbl_abs t)
    \<and> tbl_abs t' = (tbl_abs t)(tbl_next t \<mapsto>
         \<lparr>category_name = cc_name x, category_description = Some (cc_description x)\<rparr>)"
proof -
  have unused: "tbl_next t \<notin> set (row_ids (tbl_rows t))" using assms(2) by (rule fresh_next_unused)
  have ad: "category_adapt (category_of x)" using assms(4,5) by simp
  have "tbl_next t \<notin> dom (tbl_abs t)" using unused by (simp add: tbl_abs_def dom_map_of_row_ids)
  with crud_create_ok [of t category_adapt "category_of x", OF assms(1) ad assms(3) unused] tbl_abs_snoc [OF unused] show ?thesis
    by (simp add: create_category_def category_of_def)
qed

theorem create_category_inserts_witness:
  "\<exists>t'. create_category \<lparr>cc_name = ''Parks'', cc_description = ''Green spaces''\<rparr> empty_table =
      (Inr (1, \<lparr>category_name = ''Parks'', category_description = Some ''Green spaces''\<rparr>), t')
    \<and> tbl_abs t' = [1 \<mapsto> \<lparr>category_name = ''Parks'', category_description = Some ''Green spaces''\<rparr>]"
  using create_category_inserts [of empty_table "\<lparr>cc_name = ''Parks'', cc_description = ''Green spaces''\<rparr>"]
  by (simp add: empty_table_wf empty_table_fresh) (simp add: empty_table_def serial_max_def tbl_abs_def)

text \<open>
  C2. On a consistent table, an id that is not present makes get, update and
  delete of a category fail with the 404 error "Category not found", and
  update and delete leave the table as it was.
\<close>

theorem category_missing_not_found:
  assumes "tbl_wf t" "i \<notin> dom (tbl_abs t)"
  shows "get_category i t = Inl (HTTPNotFound ''Category not found'')
    \<and> update_category i x t = (Inl (HTTPNotFound ''Category not found''), t)
    \<and> delete_category i t = (Inl (HTTPNotFound ''Category not found''), t)"
  using assms by (simp add: handler_simps domIff)

theorem category_missing_not_found_witness:
  "get_category 7 empty_table = Inl (HTTPNotFound ''Category not found'')
    \<and> update_category 7 \<lparr>cc_name = ''a'', cc_description = ''b''\<rparr> empty_table
        = (Inl (HTTPNotFound ''Category not found''), empty_table)
    \<and> delete_category 7 empty_table = (Inl (HTTPNotFound ''Category not found''), empty_table)"
  using category_missing_not_found [of empty_table 7 "\<lparr>cc_name = ''a'', cc_description = ''b''\<rparr>"]
  by (simp add: empty_table_wf) (simp add: empty_table_def tbl_abs_def)

text \<open>
  C3. Updating an existing place replaces exactly its non-id columns by the
  request's values (the location becomes non-null), keeps its id, returns the
  updated row, and a following get returns the same row; the sequence is
  untouched and no other row changes.
\<close>

theorem update_place_then_get:
  assumes "tbl_wf t" "tbl_abs t i = Some g" "pg_text_ok (pc_name x)" "pg_text_ok (pc_location x)"
  shows "\<exists>t'. update_place i x t = (Inr (i, \<lparr>place_name = pc_name x, place_location = Some (pc_location x)\<rparr>), t')
    \<and> get_place i t' = Inr (i, \<lparr>place_name = pc_name x, place_location = Some (pc_location x)\<rparr>)
    \<and> tbl_abs t' = (tbl_abs t)(i \<mapsto> \<lparr>place_name = pc_name x, place_location = Some (pc_location x)\<rparr>)
    \<and> tbl_next t' = tbl_next t"
proof -
  let ?t' = "t\<lparr>tbl_rows := replace_row i (place_of x) (tbl_rows t)\<rparr>"
  have ad: "place_adapt (place_of x)" using assms(3,4) by simp
  have upd: "update_place i x t = (Inr (i, place_of x), ?t')"
    using crud_update_found [where adapt = place_adapt and f = "place_of x", OF assms(1,2) ad] by (simp add: update_place_def)
  have abs: "tbl_abs ?t' = (tbl_abs t)(i \<mapsto> place_of x)" using assms(2) by (rule tbl_abs_replace)
  have "get_place i ?t' = Inr (i, place_of x)"
    using tbl_wf_replace [OF assms(1)] abs by (simp add: get_place_def crud_get_eq)
  with upd abs show ?thesis by (simp add: place_of_def)
qed

theorem update_place_then_get_witness:
  "\<exists>t'. update_place 1 \<lparr>pc_name = ''Park'', pc_location = ''North''\<rparr>
        \<lparr>tbl_rows = [(1, \<lparr>place_name = ''Pk'', place_location = None\<rparr>)], tbl_next = 2\<rparr>
      = (Inr (1, \<lparr>place_name = ''Park'', place_location = Some ''North''\<rparr>), t')
    \<and> get_place 1 t' = Inr (1, \<lparr>place_name = ''Park'', place_location = Some ''North''\<rparr>)"
  using update_place_then_get [of "\<lparr>tbl_rows = [(1, \<lparr>place_name = ''Pk'', place_location = None\<rparr>)], tbl_next = 2\<rparr>"
      1 "\<lparr>place_name = ''Pk'', place_location = None\<rparr>" "\<lparr>pc_name = ''Park'', pc_location = ''North''\<rparr>"]
  by (simp add: tbl_wf_def tbl_abs_def serial_max_def) blast

text \<open>
  C4. Deleting an existing image returns the row as it was before removal,
  removes it and nothing else, and a following get of the id fails with the
  404 error "Image not found".
\<close>

theorem delete_image_then_get:
  assumes "tbl_wf t" "tbl_abs t i = Some g"
  shows "\<exists>t'. delete_image i t = (Inr (i, g), t')
    \<and> get_image i t' = Inl (HTTPNotFound ''Image not found'')
    \<and> tbl_abs t' = (tbl_abs t)(i := None)"
proof -
  have "delete_image i t = (Inr (i, g), tbl_delete i t)"
    using assms by (simp add: delete_image_def crud_delete_eq)
  moreover have "get_image i (tbl_delete i t) = Inl (HTTPNotFound ''Image not found'')"
    using tbl_delete_wf [OF assms(1)] by (simp add: get_image_def crud_get_eq tbl_abs_delete)
  ultimately show ?thesis by (simp add: tbl_abs_delete)
qed

theorem delete_image_then_get_witness:
  "\<exists>t'. delete_image 1 \<lparr>tbl_rows = [(1, \<lparr>image_filename = ''a.png'', image_url = ''http://x/a.png''\<rparr>)], tbl_next = 2\<rparr>
      = (Inr (1, \<lparr>image_filename = ''a.png'', image_url = ''http://x/a.png''\<rparr>), t')
    \<and> get_image 1 t' = Inl (HTTPNotFound ''Image not found'')"
  using delete_image_then_get [of "\<lparr>tbl_rows = [(1, \<lparr>image_filename = ''a.png'', image_url = ''http://x/a.png''\<rparr>)], tbl_next = 2\<rparr>"
      1 "\<lparr>image_filename = ''a.png'', image_url = ''http://x/a.png''\<rparr>"]
  by (simp add: tbl_wf_def tbl_abs_def serial_max_def) blast

section \<open>Service-level invariants and refinement\<close>

text \<open>
  C5. Every request the service handles keeps the database invariants: in
  each existing table the ids are distinct and the sequence is within its
  range, and every id lies below the next value of its sequence.
\<close>

theorem serve_keeps_invariants:
  assumes "serve rq s = (r, s')" "db_wf (svc_db s)" "db_fresh (svc_db s)"
  shows "db_wf (svc_db s') \<and> db_fresh (svc_db s')"
  using serve_tables [OF assms(1)] assms(2,3) by blast

theorem serve_keeps_invariants_witness:
  "db_wf (svc_db (startup no_tables)) \<and> db_fresh (svc_db (startup no_tables))
   \<and> db_wf (svc_db (snd (serve \<lparr>req_method = GET, req_path = ''/categories'', req_body = None\<rparr> (startup no_tables))))"
proof -
  have w: "db_wf (svc_db (startup no_tables))" "db_fresh (svc_db (startup no_tables))"
    by (simp_all add: startup_def create_all_def no_tables_def db_wf_def db_fresh_def
        empty_table_wf empty_table_fresh)
  obtain r s' where "serve \<lparr>req_method = GET, req_path = ''/categories'', req_body = None\<rparr> (startup no_tables) = (r, s')"
    by fastforce
  with serve_keeps_invariants [OF this w] w show ?thesis by simp
qed

text \<open>
  C6. Refinement: for every resource built on the shared handler shape, each
  validated call run on a consistent table changes the table's abstraction
  (the map from id to columns) only as the abstract store specification
  \<^const>\<open>store_spec\<close> allows: create adds the new row under an id not in use,
  update replaces an existing row, delete removes the row, reads change
  nothing, failures change nothing.
\<close>

theorem crud_refines_store_spec:
  assumes "tbl_wf t" "exec_call (crud_resource pm ps ad mk d out js) c t = (r, t')"
  shows "store_spec c mk (tbl_abs t) (tbl_abs t')"
proof (cases c)
  case (CallCreate x)
  then obtain y where y: "crud_create ad (mk x) t = (y, t')"
    using assms(2) by (auto simp: crud_resource_def split: prod.splits)
  from crud_create_abs [OF assms(1) y] show ?thesis
    using CallCreate by (auto intro: store_spec.intros)
next
  case CallList
  then show ?thesis using assms(2) by (auto simp: crud_resource_def intro: store_spec.intros)
next
  case (CallGet i)
  then show ?thesis using assms(2) by (auto simp: crud_resource_def intro: store_spec.intros)
next
  case (CallUpdate i x)
  then obtain y where y: "crud_update ad d i (mk x) t = (y, t')"
    using assms(2) by (auto simp: crud_resource_def split: prod.splits)
  from crud_update_abs [OF assms(1) y]
  consider "tbl_abs t' = tbl_abs t" | "i \<in> dom (tbl_abs t)" "tbl_abs t' = (tbl_abs t)(i \<mapsto> mk x)"
    by blast
  then show ?thesis
    using CallUpdate by cases (simp_all add: spec_update_fail spec_update)
next
  case (CallDelete i)
  then obtain y where y: "crud_delete d i t = (y, t')"
    using assms(2) by (auto simp: crud_resource_def split: prod.splits)
  from crud_delete_abs [OF assms(1) y] show ?thesis
    using CallDelete by (auto intro: store_spec.intros)
qed

theorem crud_refines_store_spec_witness:
  "store_spec (CallCreate \<lparr>cc_name = ''a'', cc_description = ''b''\<rparr>) category_of (tbl_abs empty_table)
     (tbl_abs (snd (exec_call category_resource (CallCreate \<lparr>cc_name = ''a'', cc_description = ''b''\<rparr>) empty_table)))"
  using crud_refines_store_spec [of empty_table "''category_id''" parse_category_create category_adapt
      category_of "''Category not found''" category_response category_create_json
      "CallCreate \<lparr>cc_name = ''a'', cc_description = ''b''\<rparr>"
      "fst (exec_call category_resource (CallCreate \<lparr>cc_name = ''a'', cc_description = ''b''\<rparr>) empty_table)"
      "snd (exec_call category_resource (CallCreate \<lparr>cc_name = ''a'', cc_description = ''b''\<rparr>) empty_table)"]
  by (simp add: empty_table_wf category_resource_crud)

text \<open>
  C7. Ids are never reused: starting from a consistent database, if a category
  id is present and a sequence of requests removes it, no later sequence of
  requests brings a row with that id back, because the sequence only moves
  forward and new rows take its values.
\<close>

theorem deleted_id_never_reused:
  assumes "serve_all rqs1 s0 = (rs1, s1)" "serve_all rqs2 s1 = (rs2, s2)"
    "db_wf (svc_db s0)" "db_fresh (svc_db s0)"
    "db_categories (svc_db s0) = Some t0" "db_categories (svc_db s1) = Some t1"
    "db_categories (svc_db s2) = Some t2"
    "i \<in> set (row_ids (tbl_rows t0))" "i \<notin> set (row_ids (tbl_rows t1))"
  shows "i \<notin> set (row_ids (tbl_rows t2))"
proof
  assume in2: "i \<in> set (row_ids (tbl_rows t2))"
  have g01: "tbl_grows t0 t1" and g12: "tbl_grows t1 t2"
    using serve_all_tables [OF assms(1)] serve_all_tables [OF assms(2)] assms(5-7)
    by (simp_all add: db_grows_def)
  have "i < tbl_next t0" using assms(4,5,8) by (simp add: db_fresh_def tbl_fresh_def)
  also have "tbl_next t0 \<le> tbl_next t1" using g01 by (simp add: tbl_grows_def)
  finally have "i < tbl_next t1" .
  with g12 in2 assms(9) show False by (auto simp: tbl_grows_def)
qed

theorem deleted_id_never_reused_witness:
  "(1::int) \<notin> set (row_ids (tbl_rows (the (db_categories (svc_db
     (snd (serve_all [demo_create] (snd (serve_all [demo_delete] (startup demo_db))))))))))"
  using deleted_id_never_reused [of "[demo_delete]" "startup demo_db"
      "fst (serve_all [demo_delete] (startup demo_db))" "snd (serve_all [demo_delete] (startup demo_db))"
      "[demo_create]" "fst (serve_all [demo_create] (snd (serve_all [demo_delete] (startup demo_db))))"
      "snd (serve_all [demo_create] (snd (serve_all [demo_delete] (startup demo_db))))"
      "the (db_categories (svc_db (startup demo_db)))"
      "the (db_categories (svc_db (snd (serve_all [demo_delete] (startup demo_db)))))"
      "the (db_categories (svc_db (snd (serve_all [demo_create] (snd (serve_all [demo_delete] (startup demo_db)))))))"
      1]
  by (simp add: app_eval demo_db_def demo_delete_def demo_create_def db_wf_def db_fresh_def
      tbl_wf_def tbl_fresh_def)

section \<open>Bounds of the id sequence\<close>

text \<open>
  C8. When the 32-bit serial sequence of the categories table has handed out
  its last value (2147483647), creating a category fails with the sequence
  error, the table is unchanged, and the request is answered with a 500.
\<close>

theorem create_category_sequence_exhausted:
  assumes "tbl_wf t" "tbl_next t = serial_max + 1" "pg_text_ok (cc_name x)" "pg_text_ok (cc_description x)"
  shows "create_category x t = (Inl (DBFailure SequenceExhausted), t)
    \<and> run_operation category_resource Create None (Some (category_create_json x)) (Some t)
        = (server_error, Some t)"
proof -
  have "create_category x t = (Inl (DBFailure SequenceExhausted), t)"
    using assms(1)
    by (cases rule: crud_create_cases [of t category_adapt "category_of x"])
       (use assms in \<open>simp_all add: create_category_def\<close>)
  then show ?thesis
    by (simp add: run_operation_def validate_call_def body_model_def category_resource_def
        out_result_def)
qed

theorem create_category_sequence_exhausted_witness:
  "create_category \<lparr>cc_name = ''a'', cc_description = ''b''\<rparr> \<lparr>tbl_rows = [], tbl_next = 2147483648\<rparr>
     = (Inl (DBFailure SequenceExhausted), \<lparr>tbl_rows = [], tbl_next = 2147483648\<rparr>)"
  using create_category_sequence_exhausted [of "\<lparr>tbl_rows = [], tbl_next = 2147483648\<rparr>"
      "\<lparr>cc_name = ''a'', cc_description = ''b''\<rparr>"]
  by (simp add: tbl_wf_def serial_max_def)

text \<open>
  The path parameter is read by Python's \<open>int()\<close>, which accepts every
  Unicode decimal digit and skips Unicode whitespace. Only the value of
  \<open>int()\<close> matters to a request on \<open>/categories/{category_id}\<close>.
\<close>

lemma serve_category_item_py_int:
  assumes "p \<noteq> []" "CHR ''/'' \<notin> set p" "q \<noteq> []" "CHR ''/'' \<notin> set q" "py_int p = py_int q"
  shows "serve \<lparr>req_method = m, req_path = ''/categories/'' @ p, req_body = b\<rparr> s
       = serve \<lparr>req_method = m, req_path = ''/categories/'' @ q, req_body = b\<rparr> s"
  using assms
  by (cases m) (simp_all add: serve_def route_eval get_db_def run_endpoint_def run_operation_def
      validate_call_def path_id_def)

text \<open>
  C9. A category id written in Persian digits, or preceded by a no-break
  space (U+00A0), reaches the same row as the ASCII id. Whatever the method,
  body and state, \<open>/categories/\<close> followed by the UTF-8 of the Persian
  numeral of \<open>n\<close> is answered exactly as \<open>/categories/n\<close>, and the same
  holds for \<open>/categories/\<close> followed by U+00A0 and then \<open>i\<close>.
\<close>

theorem unicode_category_id_same_row:
  "serve \<lparr>req_method = m, req_path = ''/categories/'' @ persian_digits (nat_str n), req_body = b\<rparr> s
     = serve \<lparr>req_method = m, req_path = ''/categories/'' @ nat_str n, req_body = b\<rparr> s
   \<and> serve \<lparr>req_method = m, req_path = ''/categories/'' @ [CHR 0xC2, CHR 0xA0] @ int_str i, req_body = b\<rparr> s
     = serve \<lparr>req_method = m, req_path = ''/categories/'' @ int_str i, req_body = b\<rparr> s"
proof
  have tbl: "\<And>d. d < 10 \<Longrightarrow> ascii_form (1776 + d) = Some (digit_char d)"
    by (simp add: ascii_form_def uni_space_def uni_decimal_def uni_decimal_zeros_def)
  have dig: "\<forall>c \<in> set (nat_str n). is_digit c" using nat_str_digits by blast
  have ne: "nat_str n \<noteq> []" using nat_str_Cons [of n] by auto
  have "CHR ''/'' \<notin> set (nat_str n)" using dig by (auto simp: is_digit_def char_code_def)
  then show "serve \<lparr>req_method = m, req_path = ''/categories/'' @ persian_digits (nat_str n), req_body = b\<rparr> s
     = serve \<lparr>req_method = m, req_path = ''/categories/'' @ nat_str n, req_body = b\<rparr> s"
    using serve_category_item_py_int persian_digits_ne [OF ne] persian_digits_no_slash [OF dig] ne
      py_int_persian [OF tbl dig] by blast
next
  have sp: "ascii_form 160 = Some (CHR '' '')" by (simp add: ascii_form_def uni_space_def)
  show "serve \<lparr>req_method = m, req_path = ''/categories/'' @ [CHR 0xC2, CHR 0xA0] @ int_str i, req_body = b\<rparr> s
     = serve \<lparr>req_method = m, req_path = ''/categories/'' @ int_str i, req_body = b\<rparr> s"
    using serve_category_item_py_int [of "[CHR 0xC2, CHR 0xA0] @ int_str i" "int_str i" m b s]
      py_int_nbsp [OF sp int_str_ascii] by simp
qed

section \<open>Routing and request validation\<close>

text \<open>
  C10. The item routes of places are registered as \<open>"/places{place_id}"\<close>, without
  the slash of the category routes: a request to \<open>/places/<id>\<close>, with any
  method and any body, matches no route and is answered 404 "Not Found",
  and the service state is unchanged.
\<close>

theorem places_slash_path_not_routed:
  "serve \<lparr>req_method = m, req_path = ''/places/'' @ int_str i, req_body = b\<rparr> s
     = (detail_response 404 ''Not Found'', s)"
  by (simp add: serve_def route_eval)

text \<open>
  C11. A GET of \<open>/places<id>\<close> (no slash) reaches \<open>get_place\<close> with that
  id and is answered with its result through the response model.
\<close>

theorem places_no_slash_dispatches_get_place:
  assumes "db_places (svc_db s) = Some t"
  shows "fst (serve \<lparr>req_method = GET, req_path = ''/places'' @ int_str i, req_body = b\<rparr> s)
    = out_result place_resource (get_place i t)"
  using assms
  by (simp add: serve_def route_eval get_db_def run_endpoint_def run_operation_def Let_def
      validate_call_def path_id_def py_int_int_str place_resource_def split: prod.splits)

theorem places_no_slash_dispatches_get_place_witness:
  "fst (serve \<lparr>req_method = GET, req_path = ''/places'' @ int_str 5, req_body = None\<rparr> (startup no_tables))
    = out_result place_resource (get_place 5 empty_table)"
  using places_no_slash_dispatches_get_place [of "startup no_tables" empty_table 5 None]
  by (simp add: startup_def create_all_def no_tables_def)

text \<open>
  C12. The response to a successful POST of a category is the JSON object
  with exactly the two fields of \<open>CategoryCreate\<close>, name and description:
  the id the row received is not part of the response.
\<close>

theorem create_category_response_has_no_id:
  assumes "db_categories (svc_db s) = Some t" "tbl_wf t" "tbl_fresh t" "tbl_next t \<le> serial_max"
    "pg_text_ok (cc_name x)" "pg_text_ok (cc_description x)"
  shows "fst (serve \<lparr>req_method = POST, req_path = ''/categories'', req_body = Some (category_create_json x)\<rparr> s)
    = ok_response (JObj [(''name'', JStr (cc_name x)), (''description'', JStr (cc_description x))])"
proof -
  have ad: "category_adapt (category_of x)" using assms(5,6) by simp
  have c: "create_category x t = (Inr (tbl_next t, category_of x),
      \<lparr>tbl_rows = tbl_rows t @ [(tbl_next t, category_of x)], tbl_next = tbl_next t + 1\<rparr>)"
    using crud_create_ok [of t category_adapt "category_of x", OF assms(2) ad assms(4)
        fresh_next_unused [OF assms(3)]]
    by (simp add: create_category_def)
  have "fst (serve \<lparr>req_method = POST, req_path = ''/categories'', req_body = Some (category_create_json x)\<rparr> s)
    = ok_response (category_create_json x)"
    using assms(1) c
    by (simp add: serve_def route_categories_create get_db_def run_endpoint_def run_operation_def
        validate_call_def body_model_def category_resource_def out_result_def out_one_def
        category_of_def Let_def split: prod.splits)
  then show ?thesis by (simp add: category_create_json_def)
qed

theorem create_category_response_has_no_id_witness:
  "fst (serve \<lparr>req_method = POST, req_path = ''/categories'',
          req_body = Some (category_create_json \<lparr>cc_name = ''Parks'', cc_description = ''Green spaces''\<rparr>)\<rparr>
        (startup no_tables))
    = ok_response (JObj [(''name'', JStr ''Parks''), (''description'', JStr ''Green spaces'')])"
  using create_category_response_has_no_id [of "startup no_tables" empty_table
      "\<lparr>cc_name = ''Parks'', cc_description = ''Green spaces''\<rparr>"]
  by (simp add: startup_def create_all_def no_tables_def empty_table_wf empty_table_fresh)
     (simp add: empty_table_def serial_max_def)

text \<open>
  C13. A POST of an image whose body lacks the field \<open>filename\<close> is
  answered 422 and the database is unchanged: no row is written and no
  sequence value is drawn.
\<close>

theorem missing_filename_unprocessable:
  assumes "json_lookup kvs ''filename'' = None"
    "serve \<lparr>req_method = POST, req_path = ''/images'', req_body = Some (JObj kvs)\<rparr> s = (r, s')"
  shows "status r = 422 \<and> svc_db s' = svc_db s"
proof -
  have route: "route_request app_routes POST ''/images'' = Dispatch (Endpoint Images Create) None"
    by (simp add: route_eval)
  obtain es where "validate_call image_resource Create None (Some (JObj kvs)) = Inl es"
    using assms(1)
    by (cases "field_str kvs ''url''")
       (auto simp: validate_call_def body_model_def image_resource_def parse_image_create_def
         two_str_fields_def both_def)
  then show ?thesis
    using assms(2) route
    by (auto simp: serve_def get_db_def run_endpoint_def run_operation_def unprocessable_def
        split: prod.splits)
qed

theorem missing_filename_unprocessable_witness:
  "status (fst (serve \<lparr>req_method = POST, req_path = ''/images'',
       req_body = Some (JObj [(''url'', JStr ''http://x/a.png'')])\<rparr> (startup no_tables))) = 422
   \<and> svc_db (snd (serve \<lparr>req_method = POST, req_path = ''/images'',
       req_body = Some (JObj [(''url'', JStr ''http://x/a.png'')])\<rparr> (startup no_tables)))
     = svc_db (startup no_tables)"
  using missing_filename_unprocessable [of "[(''url'', JStr ''http://x/a.png'')]" "startup no_tables"
      "fst (serve \<lparr>req_method = POST, req_path = ''/images'',
       req_body = Some (JObj [(''url'', JStr ''http://x/a.png'')])\<rparr> (startup no_tables))"
      "snd (serve \<lparr>req_method = POST, req_path = ''/images'',
       req_body = Some (JObj [(''url'', JStr ''http://x/a.png'')])\<rparr> (startup no_tables))"]
  by (simp add: json_lookup_def)

section \<open>Nullable columns and the response model\<close>

text \<open>
  C14. A category row whose description column is NULL (the column is
  nullable; such a row can come from outside the API) makes GET of its id
  fail: the response model refuses the \<open>None\<close> and the request is
  answered 500.
\<close>

theorem get_null_description_server_error:
  assumes "tbl_wf t" "tbl_abs t i = Some \<lparr>category_name = n, category_description = None\<rparr>"
  shows "run_operation category_resource ReadOne (Some (int_str i)) None (Some t) = (server_error, Some t)"
  using assms
  by (simp add: run_operation_def validate_call_def path_id_def py_int_int_str category_resource_def
      get_category_def crud_get_eq out_result_def out_one_def)

theorem get_null_description_server_error_witness:
  "run_operation category_resource ReadOne (Some (int_str 1)) None
     (Some \<lparr>tbl_rows = [(1, \<lparr>category_name = ''Parks'', category_description = None\<rparr>)], tbl_next = 2\<rparr>)
   = (server_error, Some \<lparr>tbl_rows = [(1, \<lparr>category_name = ''Parks'', category_description = None\<rparr>)], tbl_next = 2\<rparr>)"
  using get_null_description_server_error
      [of "\<lparr>tbl_rows = [(1, \<lparr>category_name = ''Parks'', category_description = None\<rparr>)], tbl_next = 2\<rparr>" 1 "''Parks''"]
  by (simp add: tbl_wf_def tbl_abs_def serial_max_def)

text \<open>
  C15. Deleting a place whose location column is NULL commits the delete
  and only then fails in the response model: the row is gone, yet the client
  receives a 500.
\<close>

theorem delete_null_location_removes_yet_fails:
  assumes "tbl_wf t" "tbl_abs t i = Some \<lparr>place_name = n, place_location = None\<rparr>"
  shows "run_operation place_resource Delete (Some (int_str i)) None (Some t) = (server_error, Some (tbl_delete i t))
    \<and> tbl_abs (tbl_delete i t) = (tbl_abs t)(i := None)"
  using assms
  by (simp add: run_operation_def validate_call_def path_id_def py_int_int_str place_resource_def
      delete_place_def crud_delete_eq out_result_def out_one_def tbl_abs_delete)

theorem delete_null_location_removes_yet_fails_witness:
  "run_operation place_resource Delete (Some (int_str 1)) None
     (Some \<lparr>tbl_rows = [(1, \<lparr>place_name = ''Pk'', place_location = None\<rparr>)], tbl_next = 2\<rparr>)
   = (server_error, Some \<lparr>tbl_rows = [], tbl_next = 2\<rparr>)"
  using delete_null_location_removes_yet_fails
      [of "\<lparr>tbl_rows = [(1, \<lparr>place_name = ''Pk'', place_location = None\<rparr>)], tbl_next = 2\<rparr>" 1 "''Pk''"]
  by (simp add: tbl_wf_def tbl_abs_def serial_max_def tbl_delete_def drop_row_def)

section \<open>Round trip and reachable states\<close>

text \<open>
  C16. Round trip: the body a GET of a category returns, sent back as the body
  of a PUT to the same id, validates to the same fields, leaves the table
  exactly as it was (rows and sequence) and returns the same body.
\<close>

theorem get_then_put_roundtrip:
  assumes "tbl_wf t" "tbl_abs t i = Some \<lparr>category_name = n, category_description = Some d\<rparr>"
  shows "run_operation category_resource ReadOne (Some (int_str i)) None (Some t)
      = (ok_response (JObj [(''name'', JStr n), (''description'', JStr d)]), Some t)
    \<and> run_operation category_resource Update (Some (int_str i))
        (Some (JObj [(''name'', JStr n), (''description'', JStr d)])) (Some t)
      = (ok_response (JObj [(''name'', JStr n), (''description'', JStr d)]), Some t)"
proof -
  have first: "tbl_first i t = Some (i, \<lparr>category_name = n, category_description = Some d\<rparr>)"
    using assms by (simp add: tbl_first_wf)
  have parse: "parse_category_create (Some (JObj [(''name'', JStr n), (''description'', JStr d)]))
      = Inr \<lparr>cc_name = n, cc_description = d\<rparr>"
    by (simp add: parse_category_create_def two_str_fields_def)
  show ?thesis
    using assms first parse
    by (simp add: run_operation_def validate_call_def path_id_def py_int_int_str body_model_def
        category_resource_def get_category_def update_category_def crud_get_eq crud_update_def
        crud_refresh_eq category_of_def out_result_def out_one_def category_create_json_def)
qed

theorem get_then_put_roundtrip_witness:
  "run_operation category_resource Update (Some (int_str 1))
     (Some (JObj [(''name'', JStr ''Parks''), (''description'', JStr ''Green'')]))
     (Some \<lparr>tbl_rows = [(1, \<lparr>category_name = ''Parks'', category_description = Some ''Green''\<rparr>)], tbl_next = 2\<rparr>)
   = (ok_response (JObj [(''name'', JStr ''Parks''), (''description'', JStr ''Green'')]),
      Some \<lparr>tbl_rows = [(1, \<lparr>category_name = ''Parks'', category_description = Some ''Green''\<rparr>)], tbl_next = 2\<rparr>)"
  using get_then_put_roundtrip
      [of "\<lparr>tbl_rows = [(1, \<lparr>category_name = ''Parks'', category_description = Some ''Green''\<rparr>)], tbl_next = 2\<rparr>"
        1 "''Parks''" "''Green''"]
  by (simp add: tbl_wf_def tbl_abs_def serial_max_def)

lemma api_reachable_no_nulls: "api_reachable s \<Longrightarrow> db_no_nulls (svc_db s)"
proof (induction rule: api_reachable.induct)
  case boot
  then show ?case
    by (simp add: startup_def create_all_def no_tables_def db_no_nulls_def tbl_rows_all_def empty_table_def)
next
  case (step s rq r s')
  then show ?case by (blast intro: serve_no_nulls)
qed

text \<open>
  C17. In every state the service reaches from an empty database through its
  own requests, no category has a NULL description (every write goes through
  \<open>CategoryCreate\<close>, whose description is a required string), so the
  500 of C14 cannot arise there.
\<close>

theorem api_reachable_descriptions_present:
  assumes "api_reachable s" "db_categories (svc_db s) = Some t" "tbl_abs t i = Some f"
  shows "category_description f \<noteq> None"
proof -
  have "tbl_rows_all (\<lambda>c. category_description c \<noteq> None) t"
    using api_reachable_no_nulls [OF assms(1)] assms(2) by (simp add: db_no_nulls_def)
  moreover have "(i, f) \<in> set (tbl_rows t)" using assms(3) by (simp add: tbl_abs_def map_of_SomeD)
  ultimately show ?thesis by (auto simp: tbl_rows_all_def)
qed

theorem api_reachable_descriptions_present_witness:
  "category_description (the (tbl_abs (the (db_categories (svc_db
     (snd (serve demo_create (startup no_tables)))))) 1)) \<noteq> None"
proof -
  have r: "api_reachable (snd (serve demo_create (startup no_tables)))"
    by (rule api_reachable.step [OF api_reachable.boot, of demo_create "fst (serve demo_create (startup no_tables))"])
       simp
  show ?thesis
    using api_reachable_descriptions_present [OF r,
        of "the (db_categories (svc_db (snd (serve demo_create (startup no_tables)))))" 1
           "the (tbl_abs (the (db_categories (svc_db (snd (serve demo_create (startup no_tables)))))) 1)"]
    by (simp add: app_eval demo_create_def tbl_abs_def)
qed

section \<open>Start-up and storage errors\<close>

text \<open>
  What a request leaves in the service's state beyond the database, the
  session counters, never changes an answer.
\<close>

lemma serve_db_only:
  "svc_db s = svc_db s' \<Longrightarrow> fst (serve rq s) = fst (serve rq s') \<and> svc_db (snd (serve rq s)) = svc_db (snd (serve rq s'))"
  by (simp add: serve_def get_db_def split: routed.split endpoint.split prod.split)

lemma serve_all_db_only:
  "svc_db s = svc_db s' \<Longrightarrow> fst (serve_all rqs s) = fst (serve_all rqs s')"
proof (induction rqs arbitrary: s s')
  case (Cons rq rqs)
  obtain r1 t1 r2 t2 where e: "serve rq s = (r1, t1)" "serve rq s' = (r2, t2)"
    by (cases "serve rq s", cases "serve rq s'")
  then have "r1 = r2" "svc_db t1 = svc_db t2" using serve_db_only [OF Cons.prems, of rq] by simp_all
  then show ?case using Cons.IH [of t1 t2] e by (simp add: prod.case_eq_if)
qed simp

text \<open>
  C18. \<open>Base.metadata.create_all\<close> in \<open>src/models.py\<close> runs with
  \<open>checkfirst\<close>, so it keeps the tables that already exist. Restarting the
  service on a database that holds all four tables leaves every row and
  every sequence as it was. Every sequence of requests after the restart
  is answered exactly as without the restart.
\<close>

theorem restart_keeps_answers:
  assumes "db_ready (svc_db s)"
  shows "svc_db (startup (svc_db s)) = svc_db s \<and> fst (serve_all rqs (startup (svc_db s))) = fst (serve_all rqs s)"
proof -
  have "create_all (svc_db s) = svc_db s"
    using assms by (auto simp: create_all_def ensure_table_def db_ready_def)
  then have "svc_db (startup (svc_db s)) = svc_db s" by (simp add: startup_def)
  then show ?thesis using serve_all_db_only by blast
qed

theorem restart_keeps_answers_witness:
  "svc_db (startup (svc_db (startup demo_db))) = svc_db (startup demo_db)
   \<and> fst (serve_all [demo_delete] (startup (svc_db (startup demo_db)))) = fst (serve_all [demo_delete] (startup demo_db))"
  using restart_keeps_answers [of "startup demo_db" "[demo_delete]"]
  by (simp add: db_ready_def startup_def create_all_def demo_db_def no_tables_def)

text \<open>
  C19. If a row already holds the id the sequence would hand out next,
  POST of a video fails with a unique violation. The sequence value is used
  up all the same: PostgreSQL sequences are not rolled back. So the next
  attempt with the same body succeeds and gets the following id.
\<close>

theorem create_video_collision_then_retry:
  assumes "tbl_wf t" "tbl_next t \<in> set (row_ids (tbl_rows t))"
    "tbl_next t + 1 \<notin> set (row_ids (tbl_rows t))" "tbl_next t < serial_max"
    "pg_text_ok (vc_filename x)" "pg_text_ok (vc_url x)"
  shows "create_video x t = (Inl (DBFailure UniqueViolation), t\<lparr>tbl_next := tbl_next t + 1\<rparr>)
    \<and> fst (create_video x (t\<lparr>tbl_next := tbl_next t + 1\<rparr>))
        = Inr (tbl_next t + 1, \<lparr>video_filename = vc_filename x, video_url = vc_url x\<rparr>)"
proof -
  have ad: "video_adapt (video_of x)" using assms(5,6) by simp
  have first: "create_video x t = (Inl (DBFailure UniqueViolation), t\<lparr>tbl_next := tbl_next t + 1\<rparr>)"
    using assms(1)
    by (cases rule: crud_create_cases [of t video_adapt "video_of x"])
       (use assms ad in \<open>simp_all add: create_video_def\<close>)
  have wf': "tbl_wf (t\<lparr>tbl_next := tbl_next t + 1\<rparr>)" using assms(1,4) by (simp add: tbl_wf_def)
  have "fst (create_video x (t\<lparr>tbl_next := tbl_next t + 1\<rparr>)) = Inr (tbl_next t + 1, video_of x)"
    using crud_create_ok [of "t\<lparr>tbl_next := tbl_next t + 1\<rparr>" video_adapt "video_of x", OF wf' ad]
      assms(3,4) by (simp add: create_video_def)
  with first show ?thesis by (simp add: video_of_def)
qed

theorem create_video_collision_then_retry_witness:
  "create_video \<lparr>vc_filename = ''b.mp4'', vc_url = ''u''\<rparr>
     \<lparr>tbl_rows = [(1, \<lparr>video_filename = ''a.mp4'', video_url = ''v''\<rparr>)], tbl_next = 1\<rparr>
   = (Inl (DBFailure UniqueViolation),
      \<lparr>tbl_rows = [(1, \<lparr>video_filename = ''a.mp4'', video_url = ''v''\<rparr>)], tbl_next = 2\<rparr>)
   \<and> fst (create_video \<lparr>vc_filename = ''b.mp4'', vc_url = ''u''\<rparr>
     \<lparr>tbl_rows = [(1, \<lparr>video_filename = ''a.mp4'', video_url = ''v''\<rparr>)], tbl_next = 2\<rparr>)
   = Inr (2, \<lparr>video_filename = ''b.mp4'', video_url = ''u''\<rparr>)"
  using create_video_collision_then_retry
      [of "\<lparr>tbl_rows = [(1, \<lparr>video_filename = ''a.mp4'', video_url = ''v''\<rparr>)], tbl_next = 1\<rparr>"
          "\<lparr>vc_filename = ''b.mp4'', vc_url = ''u''\<rparr>"]
  by (simp add: tbl_wf_def serial_max_def row_ids_def pg_text_ok_def)

text \<open>
  C20. A text field holding the NUL character cannot reach PostgreSQL:
  the driver rejects the statement before it is sent. The create fails with
  that error, and neither the table nor its sequence changes.
\<close>

theorem create_image_nul_rejected:
  assumes "CHR 0x00 \<in> set (ic_url x)"
  shows "create_image x t = (Inl (DBFailure NulInText), t)"
  using assms
  by (simp add: create_image_def crud_create_def tbl_insert_def pg_text_ok_def)

theorem create_image_nul_rejected_witness:
  "create_image \<lparr>ic_filename = ''a.png'', ic_url = ''x'' @ [CHR 0x00]\<rparr> empty_table
     = (Inl (DBFailure NulInText), empty_table)"
  using create_image_nul_rejected [of "\<lparr>ic_filename = ''a.png'', ic_url = ''x'' @ [CHR 0x00]\<rparr>" empty_table]
  by simp

section \<open>Router answers and the session flags\<close>

text \<open>
  C21. POST to a place item path \<open>/places<id>\<close> is answered 405
  Method Not Allowed. That path matches the GET, PUT and DELETE routes, but
  not the POST route. The service state, sessions included, is left alone.
\<close>

theorem post_to_place_item_not_allowed:
  "serve \<lparr>req_method = POST, req_path = ''/places'' @ int_str i, req_body = b\<rparr> s
     = (detail_response 405 ''Method Not Allowed'', s)"
  by (simp add: serve_def route_eval)

text \<open>
  C22. The \<open>autoflush=False\<close> of \<open>SessionLocal\<close> makes no difference to
  any path operation. In the session calls of every handler, and of every
  prefix where it raises, no \<open>SELECT\<close> meets a pending change, so a
  session with \<open>autoflush=True\<close> reads and writes exactly the same. And a
  handler that runs to its end has committed all its work, so the
  \<open>db.close()\<close> of \<open>get_db\<close> rolls nothing back.
\<close>

theorem session_autoflush_irrelevant:
  "orm_run af ap (take n (session_calls a x y)) (new_session db)
     = orm_run (sc_autoflush session_local) ap (take n (session_calls a x y)) (new_session db)
   \<and> ses_pending (snd (orm_run (sc_autoflush session_local) ap (session_calls a x y) (new_session db))) = []
   \<and> ses_view (snd (orm_run (sc_autoflush session_local) ap (session_calls a x y) (new_session db)))
       = ses_committed (snd (orm_run (sc_autoflush session_local) ap (session_calls a x y) (new_session db)))"
proof -
  have clean: "reads_clean False (session_calls a x y)"
    by (cases a) simp_all
  have "orm_run af ap (take n (session_calls a x y)) (new_session db)
      = orm_run False ap (take n (session_calls a x y)) (new_session db)"
    using orm_run_autoflush [of "new_session db" "take n (session_calls a x y)"] reads_clean_take [OF clean]
    by simp
  moreover have "ses_pending (snd (orm_run False ap (session_calls a x y) (new_session db))) = []
      \<and> ses_view (snd (orm_run False ap (session_calls a x y) (new_session db)))
        = ses_committed (snd (orm_run False ap (session_calls a x y) (new_session db)))"
    by (cases a) (simp_all add: ses_read_def ses_flush_def new_session_def)
  ultimately show ?thesis by (simp add: session_local_def)
qed

section \<open>Listing, independence of the tables, validation\<close>

text \<open>
  C23. On a well-formed table, GET \<open>/categories\<close> returns each row of the
  table exactly once: its set of (id, row) pairs is the abstract map's graph,
  and its length is the number of ids in the map.
\<close>

theorem list_categories_is_abs:
  assumes "tbl_wf t"
  shows "set (get_categories t) = {(i, f). tbl_abs t i = Some f}
    \<and> length (get_categories t) = card (dom (tbl_abs t))"
proof -
  have d: "distinct (row_ids (tbl_rows t))" using assms by (simp add: tbl_wf_def)
  then have "length (tbl_rows t) = card (set (row_ids (tbl_rows t)))"
    by (metis distinct_card length_map row_ids_def set_map)
  then show ?thesis
    using tbl_abs_all [OF assms]
    by (simp add: get_categories_def crud_list_def tbl_all_def tbl_abs_def dom_map_of_row_ids)
qed

theorem list_categories_is_abs_witness:
  "set (get_categories \<lparr>tbl_rows = [(1, \<lparr>category_name = ''Parks'', category_description = Some ''Green''\<rparr>)], tbl_next = 2\<rparr>)
     = {(i, f). tbl_abs \<lparr>tbl_rows = [(1, \<lparr>category_name = ''Parks'', category_description = Some ''Green''\<rparr>)], tbl_next = 2\<rparr> i = Some f}
   \<and> length (get_categories \<lparr>tbl_rows = [(1, \<lparr>category_name = ''Parks'', category_description = Some ''Green''\<rparr>)], tbl_next = 2\<rparr>) = 1"
  using list_categories_is_abs
      [of "\<lparr>tbl_rows = [(1, \<lparr>category_name = ''Parks'', category_description = Some ''Green''\<rparr>)], tbl_next = 2\<rparr>"]
  by (simp add: tbl_wf_def serial_max_def row_ids_def tbl_abs_def)

text \<open>
  C24. The four tables are independent, as the spec says, also under
  concurrent requests. In every interleaving of requests, a table that none
  of the requests is routed to keeps its rows (and its existence), whatever
  the requests on the other tables do.
\<close>

theorem service_untouched_table_unchanged:
  assumes "svc_step\<^sup>*\<^sup>* (ps, s) (ps', s')" "\<forall>ph\<in>set ps. phase_entity ph \<noteq> Some e"
  shows "same_table e (svc_db s) (svc_db s')"
proof -
  have "same_table e (svc_db (snd c)) (svc_db (snd c')) \<and> (\<forall>ph\<in>set (fst c'). phase_entity ph \<noteq> Some e)"
    if "svc_step\<^sup>*\<^sup>* c c'" "\<forall>ph\<in>set (fst c). phase_entity ph \<noteq> Some e" for c c'
    using that(1)
  proof (induction rule: rtranclp_induct)
    case (step c1 c2)
    obtain ps1 s1 ps2 s2 where c: "c1 = (ps1, s1)" "c2 = (ps2, s2)" by (cases c1, cases c2)
    then show ?case using svc_step_frame [of ps1 s1 ps2 s2 e] step same_table_trans by auto
  qed (use that(2) in simp)
  then show ?thesis using assms by fastforce
qed

theorem service_untouched_table_unchanged_witness:
  "same_table Categories (svc_db (startup no_tables)) (svc_db ((startup no_tables)\<lparr>svc_opened := 1, svc_open := 1\<rparr>))"
proof -
  have "req_step (Arrived \<lparr>req_method = GET, req_path = ''/videos'', req_body = None\<rparr>) (startup no_tables) = (VideoRun ListStart, ((startup no_tables)\<lparr>svc_opened := 1, svc_open := 1\<rparr>))"
    by (simp add: route_eval start_request_def table_start_def validate_call_def call_job_def settle_def
        startup_def create_all_def no_tables_def ensure_table_def)
  then have "svc_step\<^sup>*\<^sup>* ([Arrived \<lparr>req_method = GET, req_path = ''/videos'', req_body = None\<rparr>], startup no_tables) ([VideoRun ListStart], ((startup no_tables)\<lparr>svc_opened := 1, svc_open := 1\<rparr>))"
    using svc_step.step [of 0 "[Arrived \<lparr>req_method = GET, req_path = ''/videos'', req_body = None\<rparr>]" "startup no_tables" "VideoRun ListStart" "((startup no_tables)\<lparr>svc_opened := 1, svc_open := 1\<rparr>)"] by (simp add: answered_def)
  moreover have "\<forall>ph\<in>set [Arrived \<lparr>req_method = GET, req_path = ''/videos'', req_body = None\<rparr>]. phase_entity ph \<noteq> Some Categories"
    by (simp add: route_eval)
  ultimately show ?thesis
    using service_untouched_table_unchanged [of "[Arrived \<lparr>req_method = GET, req_path = ''/videos'', req_body = None\<rparr>]" "startup no_tables" "[VideoRun ListStart]" "((startup no_tables)\<lparr>svc_opened := 1, svc_open := 1\<rparr>)" Categories]
    by blast
qed

text \<open>
  C25. \<open>CategoryCreate\<close> declares \<open>description: str\<close> with no default.
  So every category body whose description is absent or null is refused
  with 422, both by POST of a category and by PUT of any id, and nothing is
  written. The spec calls the description optional.
\<close>

theorem category_description_required:
  assumes "json_lookup kvs ''description'' \<in> {None, Some JNull}"
  shows "status (fst (serve \<lparr>req_method = POST, req_path = ''/categories'', req_body = Some (JObj kvs)\<rparr> s)) = 422
   \<and> svc_db (snd (serve \<lparr>req_method = POST, req_path = ''/categories'', req_body = Some (JObj kvs)\<rparr> s)) = svc_db s
   \<and> status (fst (serve \<lparr>req_method = PUT, req_path = ''/categories/'' @ int_str i, req_body = Some (JObj kvs)\<rparr> s)) = 422
   \<and> svc_db (snd (serve \<lparr>req_method = PUT, req_path = ''/categories/'' @ int_str i, req_body = Some (JObj kvs)\<rparr> s)) = svc_db s"
proof -
  obtain es where es: "parse_category_create (Some (JObj kvs)) = Inl es"
    using assms
    by (cases "field_str kvs ''name''")
       (auto simp: parse_category_create_def two_str_fields_def both_def field_str_def)
  have "route_request app_routes POST ''/categories'' = Dispatch (Endpoint Categories Create) None"
    "route_request app_routes PUT (''/categories/'' @ int_str i) = Dispatch (Endpoint Categories Update) (Some (int_str i))"
    by (simp_all add: route_eval)
  then show ?thesis
    using es
    by (simp add: serve_def get_db_def run_endpoint_def run_operation_def validate_call_def path_id_def
        py_int_int_str body_model_def category_resource_def both_def unprocessable_def split: prod.split)
qed

theorem category_description_required_witness:
  "status (fst (serve \<lparr>req_method = POST, req_path = ''/categories'', req_body = Some (JObj [(''name'', JStr ''Parks'')])\<rparr> (startup no_tables))) = 422
   \<and> svc_db (snd (serve \<lparr>req_method = POST, req_path = ''/categories'', req_body = Some (JObj [(''name'', JStr ''Parks'')])\<rparr> (startup no_tables))) = svc_db (startup no_tables)
   \<and> status (fst (serve \<lparr>req_method = PUT, req_path = ''/categories/'' @ int_str 1, req_body = Some (JObj [(''name'', JStr ''Parks'')])\<rparr> (startup no_tables))) = 422
   \<and> svc_db (snd (serve \<lparr>req_method = PUT, req_path = ''/categories/'' @ int_str 1, req_body = Some (JObj [(''name'', JStr ''Parks'')])\<rparr> (startup no_tables))) = svc_db (startup no_tables)"
  using category_description_required [of "[(''name'', JStr ''Parks'')]" "startup no_tables" 1]
  by (simp add: json_lookup_def)

text \<open>
  C26. A path parameter that Python's \<open>int()\<close> does not accept
  (e.g. \<open>/categories/abc\<close>) fails the \<open>category_id: int\<close> validation.
  The request is answered 422, and the database is left unchanged.
\<close>

theorem non_integer_id_unprocessable:
  assumes "py_int p = None" "p \<noteq> []" "CHR ''/'' \<notin> set p"
  shows "status (fst (serve \<lparr>req_method = GET, req_path = ''/categories/'' @ p, req_body = b\<rparr> s)) = 422
   \<and> svc_db (snd (serve \<lparr>req_method = GET, req_path = ''/categories/'' @ p, req_body = b\<rparr> s)) = svc_db s"
proof -
  have "route_request app_routes GET (''/categories/'' @ p) = Dispatch (Endpoint Categories ReadOne) (Some p)"
    using assms(2,3) by (simp add: route_eval)
  then show ?thesis
    using assms(1)
    by (simp add: serve_def get_db_def run_endpoint_def run_operation_def validate_call_def path_id_def
        category_resource_def unprocessable_def split: prod.split option.split)
qed

theorem non_integer_id_unprocessable_witness:
  "status (fst (serve \<lparr>req_method = GET, req_path = ''/categories/abc'', req_body = None\<rparr> (startup no_tables))) = 422"
  using non_integer_id_unprocessable [of "''abc''" None "startup no_tables"]
  by (simp add: py_int_ascii_text py_int_ascii_def py_strip_def py_space_def char_code_def is_digit_def)

section \<open>Concurrent requests\<close>

text \<open>
  C27. Split into its statements (the \<open>SELECT\<close>, the flush and commit,
  the refresh), an update or delete request run with no other request in
  between is exactly the sequential handler: \<open>update_category\<close> after
  three phases, \<open>delete_category\<close> after two. This holds although the
  flushed \<open>UPDATE\<close> sets only the changed columns.
\<close>

theorem update_delete_alone_sequential:
  assumes "tbl_wf t"
  shows "job_run 3 category_adapt category_merge ''Category not found'' (UpdateStart i (category_of x)) t
           = (Finished (fst (update_category i x t)), snd (update_category i x t))
    \<and> job_run 2 category_adapt category_merge ''Category not found'' (DeleteStart i) t
           = (Finished (fst (delete_category i t)), snd (delete_category i t))"
  using job_run_update [OF assms, of category_merge] job_run_delete
  by (simp add: update_category_def delete_category_def)

theorem update_delete_alone_sequential_witness:
  "job_run 3 category_adapt category_merge ''Category not found''
      (UpdateStart 1 (category_of \<lparr>cc_name = ''Parks'', cc_description = ''Trees''\<rparr>)) \<lparr>tbl_rows = [(1, \<lparr>category_name = ''Parks'', category_description = Some ''Green''\<rparr>)], tbl_next = 2\<rparr>
     = (Finished (fst (update_category 1 \<lparr>cc_name = ''Parks'', cc_description = ''Trees''\<rparr> \<lparr>tbl_rows = [(1, \<lparr>category_name = ''Parks'', category_description = Some ''Green''\<rparr>)], tbl_next = 2\<rparr>)),
        snd (update_category 1 \<lparr>cc_name = ''Parks'', cc_description = ''Trees''\<rparr> \<lparr>tbl_rows = [(1, \<lparr>category_name = ''Parks'', category_description = Some ''Green''\<rparr>)], tbl_next = 2\<rparr>))
   \<and> job_run 2 category_adapt category_merge ''Category not found'' (DeleteStart 1) \<lparr>tbl_rows = [(1, \<lparr>category_name = ''Parks'', category_description = Some ''Green''\<rparr>)], tbl_next = 2\<rparr>
     = (Finished (fst (delete_category 1 \<lparr>tbl_rows = [(1, \<lparr>category_name = ''Parks'', category_description = Some ''Green''\<rparr>)], tbl_next = 2\<rparr>)), snd (delete_category 1 \<lparr>tbl_rows = [(1, \<lparr>category_name = ''Parks'', category_description = Some ''Green''\<rparr>)], tbl_next = 2\<rparr>))"
  using update_delete_alone_sequential [of "\<lparr>tbl_rows = [(1, \<lparr>category_name = ''Parks'', category_description = Some ''Green''\<rparr>)], tbl_next = 2\<rparr>" 1 "\<lparr>cc_name = ''Parks'', cc_description = ''Trees''\<rparr>"]
  by (simp add: tbl_wf_def serial_max_def row_ids_def)

text \<open>
  C28. Invariants of the whole service under concurrent requests, in the
  spec's scheduling model: each request is handled independently, holds
  its own session while it runs, and releases it on every exit path. Let
  any number of requests arrive and any interleaving of their steps run,
  across all four tables. Then the database stays well-formed and fresh,
  and the number of open sessions is the initial number plus the requests
  still holding one.
\<close>

theorem service_interleavings_keep_invariants:
  assumes "svc_step\<^sup>*\<^sup>* (map Arrived rqs, s) (ps', s')" "db_wf (svc_db s)" "db_fresh (svc_db s)"
  shows "db_wf (svc_db s') \<and> db_fresh (svc_db s') \<and> svc_open s' = svc_open s + sessions ps'"
  using svc_steps_service [OF assms(1)] assms(2,3) by simp

theorem service_interleavings_keep_invariants_witness:
  "db_wf (svc_db ((startup no_tables)\<lparr>svc_opened := 1, svc_open := 1\<rparr>)) \<and> db_fresh (svc_db ((startup no_tables)\<lparr>svc_opened := 1, svc_open := 1\<rparr>)) \<and> svc_open ((startup no_tables)\<lparr>svc_opened := 1, svc_open := 1\<rparr>) = svc_open (startup no_tables) + sessions [VideoRun ListStart]"
proof -
  have "req_step (Arrived \<lparr>req_method = GET, req_path = ''/videos'', req_body = None\<rparr>) (startup no_tables) = (VideoRun ListStart, ((startup no_tables)\<lparr>svc_opened := 1, svc_open := 1\<rparr>))"
    by (simp add: route_eval start_request_def table_start_def validate_call_def call_job_def settle_def
        startup_def create_all_def no_tables_def ensure_table_def)
  then have "svc_step ([Arrived \<lparr>req_method = GET, req_path = ''/videos'', req_body = None\<rparr>], startup no_tables) ([VideoRun ListStart], ((startup no_tables)\<lparr>svc_opened := 1, svc_open := 1\<rparr>))"
    using svc_step.step [of 0 "[Arrived \<lparr>req_method = GET, req_path = ''/videos'', req_body = None\<rparr>]" "startup no_tables" "VideoRun ListStart" "((startup no_tables)\<lparr>svc_opened := 1, svc_open := 1\<rparr>)"] by (simp add: answered_def)
  then have "svc_step\<^sup>*\<^sup>* (map Arrived [\<lparr>req_method = GET, req_path = ''/videos'', req_body = None\<rparr>], startup no_tables) ([VideoRun ListStart], ((startup no_tables)\<lparr>svc_opened := 1, svc_open := 1\<rparr>))" by simp
  then show ?thesis
    using service_interleavings_keep_invariants [of "[\<lparr>req_method = GET, req_path = ''/videos'', req_body = None\<rparr>]" "startup no_tables" "[VideoRun ListStart]" "((startup no_tables)\<lparr>svc_opened := 1, svc_open := 1\<rparr>)"]
    by (simp add: startup_def create_all_def no_tables_def db_wf_def db_fresh_def ensure_table_def
        empty_table_wf empty_table_fresh)
qed

text \<open>
  C29. Two concurrent DELETEs of the same existing id can both answer 200
  with the deleted row. Both \<open>SELECT\<close>s see the row before either commits.
  The second \<open>DELETE\<close> matches no row, which SQLAlchemy only warns about.
  The spec's 404 for an absent row is not given to the second client.
\<close>

theorem concurrent_deletes_both_succeed:
  assumes "tbl_wf t" "tbl_abs t i = Some g"
  shows "(conc_step adapt upd d)\<^sup>*\<^sup>* ([DeleteStart i, DeleteStart i], t)
           ([Finished (Inr (i, g)), Finished (Inr (i, g))], tbl_delete i t)"
proof -
  have f: "tbl_first i t = Some (i, g)" using assms by (simp add: tbl_first_wf)
  let ?R = "(conc_step adapt upd d)\<^sup>*\<^sup>* ([DeleteStart i, DeleteStart i], t)"
  have "?R ([DeleteFlush (i, g), DeleteStart i], t)"
    by (rule conc_steps_next [where k=0, OF rtranclp.rtrancl_refl]) (simp_all add: job_done_def f)
  then have "?R ([DeleteFlush (i, g), DeleteFlush (i, g)], t)"
    by (rule conc_steps_next [where k=1]) (simp_all add: job_done_def f)
  then have "?R ([Finished (Inr (i, g)), DeleteFlush (i, g)], tbl_delete i t)"
    by (rule conc_steps_next [where k=0]) (simp_all add: job_done_def)
  then show ?thesis
    by (rule conc_steps_next [where k=1]) (simp_all add: job_done_def)
qed

theorem concurrent_deletes_both_succeed_witness:
  "(conc_step category_adapt category_merge ''Category not found'')\<^sup>*\<^sup>* ([DeleteStart 1, DeleteStart 1], \<lparr>tbl_rows = [(1, \<lparr>category_name = ''Parks'', category_description = Some ''Green''\<rparr>)], tbl_next = 2\<rparr>)
     ([Finished (Inr (1, \<lparr>category_name = ''Parks'', category_description = Some ''Green''\<rparr>)), Finished (Inr (1, \<lparr>category_name = ''Parks'', category_description = Some ''Green''\<rparr>))], \<lparr>tbl_rows = [], tbl_next = 2\<rparr>)"
  using concurrent_deletes_both_succeed [of "\<lparr>tbl_rows = [(1, \<lparr>category_name = ''Parks'', category_description = Some ''Green''\<rparr>)], tbl_next = 2\<rparr>" 1 "\<lparr>category_name = ''Parks'', category_description = Some ''Green''\<rparr>" category_adapt category_merge "''Category not found''"]
  by (simp add: tbl_wf_def serial_max_def row_ids_def tbl_abs_def tbl_delete_def drop_row_def)

text \<open>
  C30. An update whose \<open>SELECT\<close> saw the row, and whose flush comes after
  a concurrent delete committed, matches no row. It fails with
  \<open>StaleDataError\<close> (a 500), not the 404 the spec promises for an absent
  row.
\<close>

theorem update_racing_delete_stale:
  assumes "tbl_wf t" "tbl_abs t i = Some g" "g \<noteq> f" "adapt f"
  shows "(conc_step adapt upd d)\<^sup>*\<^sup>* ([UpdateStart i f, DeleteStart i], t)
           ([Finished (Inl StaleData), Finished (Inr (i, g))], tbl_delete i t)"
proof -
  have f: "tbl_first i t = Some (i, g)" using assms by (simp add: tbl_first_wf)
  have gone: "i \<notin> set (row_ids (tbl_rows (tbl_delete i t)))" by (simp add: tbl_delete_def)
  let ?R = "(conc_step adapt upd d)\<^sup>*\<^sup>* ([UpdateStart i f, DeleteStart i], t)"
  have "?R ([UpdateFlush i g f, DeleteStart i], t)"
    by (rule conc_steps_next [where k=0, OF rtranclp.rtrancl_refl]) (use assms(3) in \<open>simp_all add: job_done_def f\<close>)
  then have "?R ([UpdateFlush i g f, DeleteFlush (i, g)], t)"
    by (rule conc_steps_next [where k=1]) (simp_all add: job_done_def f)
  then have "?R ([UpdateFlush i g f, Finished (Inr (i, g))], tbl_delete i t)"
    by (rule conc_steps_next [where k=1]) (simp_all add: job_done_def)
  then show ?thesis
    by (rule conc_steps_next [where k=0]) (simp_all add: job_done_def assms(4) tbl_update_cols_absent [OF gone])
qed

theorem update_racing_delete_stale_witness:
  "(conc_step category_adapt category_merge ''Category not found'')\<^sup>*\<^sup>*
     ([UpdateStart 1 \<lparr>category_name = ''Parks'', category_description = Some ''Trees''\<rparr>, DeleteStart 1], \<lparr>tbl_rows = [(1, \<lparr>category_name = ''Parks'', category_description = Some ''Green''\<rparr>)], tbl_next = 2\<rparr>)
     ([Finished (Inl StaleData), Finished (Inr (1, \<lparr>category_name = ''Parks'', category_description = Some ''Green''\<rparr>))], \<lparr>tbl_rows = [], tbl_next = 2\<rparr>)"
  using update_racing_delete_stale [of "\<lparr>tbl_rows = [(1, \<lparr>category_name = ''Parks'', category_description = Some ''Green''\<rparr>)], tbl_next = 2\<rparr>" 1 "\<lparr>category_name = ''Parks'', category_description = Some ''Green''\<rparr>" "\<lparr>category_name = ''Parks'', category_description = Some ''Trees''\<rparr>"
      category_adapt category_merge "''Category not found''"]
  by (simp add: tbl_wf_def serial_max_def row_ids_def tbl_abs_def tbl_delete_def drop_row_def
      category_adapt_def opt_text_ok_def pg_text_ok_def)

text \<open>
  C31. Two concurrent PUTs of one category, one changing only the name and
  the other only the description, both take effect: the row ends with both
  changes, since each \<open>UPDATE\<close> sets only its changed column. Each client
  receives the merged row, which neither of them sent.
\<close>

theorem concurrent_category_updates_merge:
  assumes "tbl_wf t" "tbl_abs t i = Some \<lparr>category_name = n, category_description = e\<rparr>"
    "n' \<noteq> n" "e' \<noteq> e"
    "category_adapt \<lparr>category_name = n', category_description = e\<rparr>"
    "category_adapt \<lparr>category_name = n, category_description = e'\<rparr>"
  shows "\<exists>t'. (conc_step category_adapt category_merge d)\<^sup>*\<^sup>*
      ([UpdateStart i \<lparr>category_name = n', category_description = e\<rparr>,
        UpdateStart i \<lparr>category_name = n, category_description = e'\<rparr>], t)
      ([Finished (Inr (i, \<lparr>category_name = n', category_description = e'\<rparr>)),
        Finished (Inr (i, \<lparr>category_name = n', category_description = e'\<rparr>))], t')
    \<and> tbl_abs t' = (tbl_abs t)(i \<mapsto> \<lparr>category_name = n', category_description = e'\<rparr>)"
proof -
  let ?old = "\<lparr>category_name = n, category_description = e\<rparr>"
  let ?a = "\<lparr>category_name = n', category_description = e\<rparr>"
  let ?b = "\<lparr>category_name = n, category_description = e'\<rparr>"
  let ?c = "\<lparr>category_name = n', category_description = e'\<rparr>"
  define t1 where "t1 = t\<lparr>tbl_rows := replace_row i ?a (tbl_rows t)\<rparr>"
  define t2 where "t2 = t1\<lparr>tbl_rows := replace_row i ?c (tbl_rows t1)\<rparr>"
  have m1: "category_merge ?old ?a ?old = ?a" and m2: "category_merge ?old ?b ?a = ?c"
    using assms(3,4) by (simp_all add: category_merge_def)
  obtain wf1 ab1 where "tbl_wf t1" "tbl_abs t1 = (tbl_abs t)(i \<mapsto> ?a)"
    using replace_found [OF assms(1,2)] t1_def by blast
  obtain wf2 ab2 where "tbl_wf t2" "tbl_abs t2 = (tbl_abs t)(i \<mapsto> ?c)"
    using replace_found [OF \<open>tbl_wf t1\<close>, of i ?a ?c] \<open>tbl_abs t1 = _\<close> t2_def by auto
  let ?R = "(conc_step category_adapt category_merge d)\<^sup>*\<^sup>* ([UpdateStart i ?a, UpdateStart i ?b], t)"
  have "?R ([UpdateFlush i ?old ?a, UpdateStart i ?b], t)"
    by (rule conc_steps_next [where k=0, OF rtranclp.rtrancl_refl])
       (use assms in \<open>simp_all del: job_step.simps add: job_done_def job_step_start_found\<close>)
  then have "?R ([UpdateFlush i ?old ?a, UpdateFlush i ?old ?b], t)"
    by (rule conc_steps_next [where k=1]) (use assms in \<open>simp_all del: job_step.simps add: job_done_def job_step_start_found\<close>)
  then have "?R ([RefreshPending i, UpdateFlush i ?old ?b], t1)"
    by (rule conc_steps_next [where k=0])
       (use assms in \<open>simp_all del: job_step.simps add: job_done_def job_step_flush_found m1 t1_def\<close>)
  then have "?R ([RefreshPending i, RefreshPending i], t2)"
    by (rule conc_steps_next [where k=1])
       (use assms \<open>tbl_wf t1\<close> \<open>tbl_abs t1 = _\<close> in \<open>simp_all del: job_step.simps add: job_done_def job_step_flush_found m2 t2_def\<close>)
  then have "?R ([Finished (Inr (i, ?c)), RefreshPending i], t2)"
    by (rule conc_steps_next [where k=0]) (use \<open>tbl_wf t2\<close> \<open>tbl_abs t2 = _\<close> in \<open>simp_all del: job_step.simps add: job_done_def job_step_refresh_found\<close>)
  then have "?R ([Finished (Inr (i, ?c)), Finished (Inr (i, ?c))], t2)"
    by (rule conc_steps_next [where k=1]) (use \<open>tbl_wf t2\<close> \<open>tbl_abs t2 = _\<close> in \<open>simp_all del: job_step.simps add: job_done_def job_step_refresh_found\<close>)
  with \<open>tbl_abs t2 = _\<close> show ?thesis by blast
qed

theorem concurrent_category_updates_merge_witness:
  "\<exists>t'. (conc_step category_adapt category_merge ''Category not found'')\<^sup>*\<^sup>*
      ([UpdateStart 1 \<lparr>category_name = ''Woods'', category_description = Some ''Green''\<rparr>,
        UpdateStart 1 \<lparr>category_name = ''Parks'', category_description = Some ''Trees''\<rparr>], \<lparr>tbl_rows = [(1, \<lparr>category_name = ''Parks'', category_description = Some ''Green''\<rparr>)], tbl_next = 2\<rparr>)
      ([Finished (Inr (1, \<lparr>category_name = ''Woods'', category_description = Some ''Trees''\<rparr>)),
        Finished (Inr (1, \<lparr>category_name = ''Woods'', category_description = Some ''Trees''\<rparr>))], t')
    \<and> tbl_abs t' = [1 \<mapsto> \<lparr>category_name = ''Woods'', category_description = Some ''Trees''\<rparr>]"
  using concurrent_category_updates_merge [of "\<lparr>tbl_rows = [(1, \<lparr>category_name = ''Parks'', category_description = Some ''Green''\<rparr>)], tbl_next = 2\<rparr>" 1 "''Parks''" "Some ''Green''" "''Woods''" "Some ''Trees''"
      "''Category not found''"]
  by (simp add: tbl_wf_def serial_max_def row_ids_def tbl_abs_def category_adapt_def opt_text_ok_def pg_text_ok_def)

text \<open>
  C32. Composition of the concurrent model with the sequential one. A
  request served with no other request in between is exactly \<open>serve\<close>.
  It takes at most four steps: routing and validation, then the statements
  of its handler on its table. This holds for every request, whatever its
  route, body or table, on a well-formed database.
\<close>

theorem service_request_alone_is_serve:
  assumes "db_wf (svc_db s)"
  shows "req_run 4 (Arrived rq) s = (Answered (fst (serve rq s)), snd (serve rq s))"
  using assms by (rule req_run_serve)

theorem service_request_alone_is_serve_witness:
  "req_run 4 (Arrived \<lparr>req_method = GET, req_path = ''/videos'', req_body = None\<rparr>) (startup no_tables)
   = (Answered (fst (serve \<lparr>req_method = GET, req_path = ''/videos'', req_body = None\<rparr> (startup no_tables))),
      snd (serve \<lparr>req_method = GET, req_path = ''/videos'', req_body = None\<rparr> (startup no_tables)))"
  using service_request_alone_is_serve [of "startup no_tables" "\<lparr>req_method = GET, req_path = ''/videos'', req_body = None\<rparr>"]
  by (simp add: startup_def create_all_def no_tables_def db_wf_def ensure_table_def empty_table_wf)

text \<open>
  C33. A create whose new row is deleted by a concurrent request between
  its commit and its \<open>db.refresh\<close> answers 500: the refresh finds no row.
  The insert was committed all the same, and the sequence value is used up.
  The deleting client gets 200 with the row, and the table is as before
  apart from the sequence.
\<close>

theorem create_racing_delete_refresh_fails:
  assumes "tbl_wf t" "tbl_fresh t" "tbl_next t \<le> serial_max" "adapt f"
  shows "(conc_step adapt upd d)\<^sup>*\<^sup>* ([CreateStart f, DeleteStart (tbl_next t)], t)
           ([Finished (Inl RefreshFailed), Finished (Inr (tbl_next t, f))], t\<lparr>tbl_next := tbl_next t + 1\<rparr>)"
proof -
  let ?n = "tbl_next t"
  define t1 where "t1 = \<lparr>tbl_rows = tbl_rows t @ [(?n, f)], tbl_next = ?n + 1\<rparr>"
  have un: "?n \<notin> set (row_ids (tbl_rows t))" using assms(2) by (rule fresh_next_unused)
  have ins: "tbl_insert adapt f t = (Inr (?n, f), t1)"
    using tbl_insert_ok [where adapt=adapt and f=f and t=t, OF assms(4,3) un] by (simp add: t1_def)
  have f1: "tbl_first ?n t1 = Some (?n, f)"
    using un by (simp add: t1_def tbl_first_def find_row_absent)
  have del: "tbl_delete ?n t1 = t\<lparr>tbl_next := ?n + 1\<rparr>"
    using un by (cases t) (auto simp: t1_def tbl_delete_def drop_row_def row_ids_def filter_id_conv)
  have gone: "tbl_first ?n (t\<lparr>tbl_next := ?n + 1\<rparr>) = None"
    using un by (simp add: tbl_first_def find_row_absent)
  let ?R = "(conc_step adapt upd d)\<^sup>*\<^sup>* ([CreateStart f, DeleteStart ?n], t)"
  have "?R ([CreateRefresh ?n, DeleteStart ?n], t1)"
    by (rule conc_steps_next [where k=0, OF rtranclp.rtrancl_refl]) (simp_all add: job_done_def ins)
  then have "?R ([CreateRefresh ?n, DeleteFlush (?n, f)], t1)"
    by (rule conc_steps_next [where k=1]) (simp_all add: job_done_def f1)
  then have "?R ([CreateRefresh ?n, Finished (Inr (?n, f))], t\<lparr>tbl_next := ?n + 1\<rparr>)"
    by (rule conc_steps_next [where k=1]) (simp_all add: job_done_def del)
  then show ?thesis
    by (rule conc_steps_next [where k=0]) (simp_all add: job_done_def crud_refresh_def gone)
qed

theorem create_racing_delete_refresh_fails_witness:
  "(conc_step category_adapt category_merge ''Category not found'')\<^sup>*\<^sup>* ([CreateStart \<lparr>category_name = ''Woods'', category_description = Some ''Trees''\<rparr>, DeleteStart 2], \<lparr>tbl_rows = [(1, \<lparr>category_name = ''Parks'', category_description = Some ''Green''\<rparr>)], tbl_next = 2\<rparr>)
     ([Finished (Inl RefreshFailed), Finished (Inr (2, \<lparr>category_name = ''Woods'', category_description = Some ''Trees''\<rparr>))],
      \<lparr>tbl_rows = [(1, \<lparr>category_name = ''Parks'', category_description = Some ''Green''\<rparr>)], tbl_next = 3\<rparr>)"
  using create_racing_delete_refresh_fails [of "\<lparr>tbl_rows = [(1, \<lparr>category_name = ''Parks'', category_description = Some ''Green''\<rparr>)], tbl_next = 2\<rparr>" category_adapt "\<lparr>category_name = ''Woods'', category_description = Some ''Trees''\<rparr>" category_merge "''Category not found''"]
  by (simp add: tbl_wf_def tbl_fresh_def serial_max_def row_ids_def category_adapt_def opt_text_ok_def pg_text_ok_def)

text \<open>
  C34. The merged outcome of C31 is not serializable. Run one after the
  other in either order, the two PUTs leave the row as the later one sent
  it. The row C31's interleaving produces is neither of those rows.
\<close>

theorem merged_updates_not_serializable:
  assumes "tbl_wf t" "tbl_abs t i = Some \<lparr>category_name = n, category_description = e\<rparr>"
    "n' \<noteq> n" "e' \<noteq> e"
    "category_adapt \<lparr>category_name = n', category_description = e\<rparr>"
    "category_adapt \<lparr>category_name = n, category_description = e'\<rparr>"
  shows "tbl_abs (snd (crud_update category_adapt d i \<lparr>category_name = n, category_description = e'\<rparr>
            (snd (crud_update category_adapt d i \<lparr>category_name = n', category_description = e\<rparr> t)))) i
          = Some \<lparr>category_name = n, category_description = e'\<rparr>
    \<and> tbl_abs (snd (crud_update category_adapt d i \<lparr>category_name = n', category_description = e\<rparr>
            (snd (crud_update category_adapt d i \<lparr>category_name = n, category_description = e'\<rparr> t)))) i
          = Some \<lparr>category_name = n', category_description = e\<rparr>
    \<and> \<lparr>category_name = n', category_description = e'\<rparr> \<notin>
        {\<lparr>category_name = n, category_description = e'\<rparr>, \<lparr>category_name = n', category_description = e\<rparr>}"
proof -
  have step: "tbl_abs (snd (crud_update category_adapt d i b u)) = (tbl_abs u)(i \<mapsto> b)
      \<and> tbl_wf (snd (crud_update category_adapt d i b u))"
    if "tbl_wf u" "tbl_abs u i = Some g" "category_adapt b" for u g b
    using crud_update_found [where adapt=category_adapt and f=b and d=d, OF that] tbl_abs_replace [OF that(2)] tbl_wf_replace [OF that(1)] by simp
  let ?a = "\<lparr>category_name = n', category_description = e\<rparr>"
  let ?b = "\<lparr>category_name = n, category_description = e'\<rparr>"
  obtain wa: "tbl_wf (snd (crud_update category_adapt d i ?a t))"
    and aa: "tbl_abs (snd (crud_update category_adapt d i ?a t)) = (tbl_abs t)(i \<mapsto> ?a)"
    using step [OF assms(1,2,5)] by blast
  obtain wb: "tbl_wf (snd (crud_update category_adapt d i ?b t))"
    and ab: "tbl_abs (snd (crud_update category_adapt d i ?b t)) = (tbl_abs t)(i \<mapsto> ?b)"
    using step [OF assms(1,2,6)] by blast
  have "tbl_abs (snd (crud_update category_adapt d i ?b (snd (crud_update category_adapt d i ?a t)))) i = Some ?b"
    using step [OF wa _ assms(6), of ?a] aa by simp
  moreover have "tbl_abs (snd (crud_update category_adapt d i ?a (snd (crud_update category_adapt d i ?b t)))) i = Some ?a"
    using step [OF wb _ assms(5), of ?b] ab by simp
  ultimately show ?thesis using assms(3,4) by simp
qed

theorem merged_updates_not_serializable_witness:
  "tbl_abs (snd (crud_update category_adapt ''Category not found'' 1
       \<lparr>category_name = ''Parks'', category_description = Some ''Trees''\<rparr>
       (snd (crud_update category_adapt ''Category not found'' 1
          \<lparr>category_name = ''Woods'', category_description = Some ''Green''\<rparr> \<lparr>tbl_rows = [(1, \<lparr>category_name = ''Parks'', category_description = Some ''Green''\<rparr>)], tbl_next = 2\<rparr>)))) 1
     = Some \<lparr>category_name = ''Parks'', category_description = Some ''Trees''\<rparr>"
  using merged_updates_not_serializable [of "\<lparr>tbl_rows = [(1, \<lparr>category_name = ''Parks'', category_description = Some ''Green''\<rparr>)], tbl_next = 2\<rparr>" 1 "''Parks''" "Some ''Green''" "''Woods''" "Some ''Trees''"
      "''Category not found''"]
  by (simp add: tbl_wf_def serial_max_def row_ids_def tbl_abs_def category_adapt_def opt_text_ok_def pg_text_ok_def)

text \<open>
  C35. Lost update. Two concurrent PUTs of one category that both change
  the name, each from the same loaded row, both answer 200. The later
  \<open>UPDATE\<close> overwrites the earlier one, and both clients receive the later
  name in their response. The first client's change is lost without any
  error.
\<close>

theorem concurrent_same_column_last_wins:
  assumes "tbl_wf t" "tbl_abs t i = Some \<lparr>category_name = n, category_description = e\<rparr>"
    "n1 \<noteq> n" "n2 \<noteq> n"
    "category_adapt \<lparr>category_name = n1, category_description = e\<rparr>"
    "category_adapt \<lparr>category_name = n2, category_description = e\<rparr>"
  shows "\<exists>t'. (conc_step category_adapt category_merge d)\<^sup>*\<^sup>*
      ([UpdateStart i \<lparr>category_name = n1, category_description = e\<rparr>,
        UpdateStart i \<lparr>category_name = n2, category_description = e\<rparr>], t)
      ([Finished (Inr (i, \<lparr>category_name = n2, category_description = e\<rparr>)),
        Finished (Inr (i, \<lparr>category_name = n2, category_description = e\<rparr>))], t')
    \<and> tbl_abs t' = (tbl_abs t)(i \<mapsto> \<lparr>category_name = n2, category_description = e\<rparr>)"
proof -
  let ?old = "\<lparr>category_name = n, category_description = e\<rparr>"
  let ?a = "\<lparr>category_name = n1, category_description = e\<rparr>"
  let ?b = "\<lparr>category_name = n2, category_description = e\<rparr>"
  define t1 where "t1 = t\<lparr>tbl_rows := replace_row i ?a (tbl_rows t)\<rparr>"
  define t2 where "t2 = t1\<lparr>tbl_rows := replace_row i ?b (tbl_rows t1)\<rparr>"
  have m1: "category_merge ?old ?a ?old = ?a" and m2: "category_merge ?old ?b ?a = ?b"
    using assms(3,4) by (simp_all add: category_merge_def)
  obtain "tbl_wf t1" "tbl_abs t1 = (tbl_abs t)(i \<mapsto> ?a)"
    using replace_found [OF assms(1,2)] t1_def by blast
  obtain "tbl_wf t2" "tbl_abs t2 = (tbl_abs t)(i \<mapsto> ?b)"
    using replace_found [OF \<open>tbl_wf t1\<close>, of i ?a ?b] \<open>tbl_abs t1 = _\<close> t2_def by auto
  let ?R = "(conc_step category_adapt category_merge d)\<^sup>*\<^sup>* ([UpdateStart i ?a, UpdateStart i ?b], t)"
  have "?R ([UpdateFlush i ?old ?a, UpdateStart i ?b], t)"
    by (rule conc_steps_next [where k=0, OF rtranclp.rtrancl_refl])
       (use assms in \<open>simp_all del: job_step.simps add: job_done_def job_step_start_found\<close>)
  then have "?R ([UpdateFlush i ?old ?a, UpdateFlush i ?old ?b], t)"
    by (rule conc_steps_next [where k=1])
       (use assms in \<open>simp_all del: job_step.simps add: job_done_def job_step_start_found\<close>)
  then have "?R ([RefreshPending i, UpdateFlush i ?old ?b], t1)"
    by (rule conc_steps_next [where k=0])
       (use assms in \<open>simp_all del: job_step.simps add: job_done_def job_step_flush_found m1 t1_def\<close>)
  then have "?R ([RefreshPending i, RefreshPending i], t2)"
    by (rule conc_steps_next [where k=1])
       (use assms \<open>tbl_wf t1\<close> \<open>tbl_abs t1 = _\<close> in
         \<open>simp_all del: job_step.simps add: job_done_def job_step_flush_found m2 t2_def\<close>)
  then have "?R ([Finished (Inr (i, ?b)), RefreshPending i], t2)"
    by (rule conc_steps_next [where k=0])
       (use \<open>tbl_wf t2\<close> \<open>tbl_abs t2 = _\<close> in \<open>simp_all del: job_step.simps add: job_done_def job_step_refresh_found\<close>)
  then have "?R ([Finished (Inr (i, ?b)), Finished (Inr (i, ?b))], t2)"
    by (rule conc_steps_next [where k=1])
       (use \<open>tbl_wf t2\<close> \<open>tbl_abs t2 = _\<close> in \<open>simp_all del: job_step.simps add: job_done_def job_step_refresh_found\<close>)
  with \<open>tbl_abs t2 = _\<close> show ?thesis by blast
qed

theorem concurrent_same_column_last_wins_witness:
  "\<exists>t'. (conc_step category_adapt category_merge ''Category not found'')\<^sup>*\<^sup>*
      ([UpdateStart 1 \<lparr>category_name = ''Woods'', category_description = Some ''Green''\<rparr>,
        UpdateStart 1 \<lparr>category_name = ''Lakes'', category_description = Some ''Green''\<rparr>], \<lparr>tbl_rows = [(1, \<lparr>category_name = ''Parks'', category_description = Some ''Green''\<rparr>)], tbl_next = 2\<rparr>)
      ([Finished (Inr (1, \<lparr>category_name = ''Lakes'', category_description = Some ''Green''\<rparr>)),
        Finished (Inr (1, \<lparr>category_name = ''Lakes'', category_description = Some ''Green''\<rparr>))], t')
    \<and> tbl_abs t' = [1 \<mapsto> \<lparr>category_name = ''Lakes'', category_description = Some ''Green''\<rparr>]"
  using concurrent_same_column_last_wins [of "\<lparr>tbl_rows = [(1, \<lparr>category_name = ''Parks'', category_description = Some ''Green''\<rparr>)], tbl_next = 2\<rparr>" 1 "''Parks''" "Some ''Green''" "''Woods''" "''Lakes''"
      "''Category not found''"]
  by (simp add: tbl_wf_def serial_max_def row_ids_def tbl_abs_def category_adapt_def opt_text_ok_def pg_text_ok_def)

end
